(* ===== verification/Go_Prelude.thy ===== *)
theory Go_Prelude
  imports Main "HOL-Library.Word" "HOL-Library.Multiset"
begin

text \<open>
  The part of the Go language and of its standard library that the components share.

  \<^item> \<^bold>\<open>Results.\<close> A Go function returns a value, returns a non-nil \<open>error\<close>, or panics.
    \<open>'a result\<close> is \<open>fault + 'a\<close>; \<open>Inl (Error e)\<close> is a returned error and
    \<open>Inl (Panic p)\<close> a panic that unwinds to the nearest \<open>recover\<close>.  An error carries its
    \<open>errors.Cause\<close> (the package-level error values the code compares against).
  \<^item> \<^bold>\<open>Stateful calls.\<close> \<open>('s, 'a) call\<close> takes the state and returns the result with the
    new state; \<open>cbind\<close> is the \<open>if err != nil { return }\<close> sequencing.
  \<^item> \<^bold>\<open>Strings.\<close> A Go string is a byte string, here \<open>string\<close>: \<open>strings.Split\<close>,
    \<open>Join\<close>, \<open>Index\<close>, \<open>LastIndex\<close>, \<open>HasPrefix\<close>, \<open>HasSuffix\<close>, \<open>TrimPrefix\<close>,
    \<open>TrimSpace\<close>, \<open>Repeat\<close>.
  \<^item> \<^bold>\<open>Numbers.\<close> \<open>fmt\<close>'s \<open>%d\<close> and \<open>%x\<close>, \<open>strconv.ParseInt\<close> and
    \<open>strconv.Atoi\<close> with the clamping that callers who drop the error observe.
\<close>

named_theorems go_simps \<open>rewrite rules for the Go library functions\<close>

unbundle bit_operations_syntax

section \<open>Definitions\<close>

subsection \<open>Results and stateful calls\<close>

text \<open>The package-level error values the code compares with \<open>errors.Cause\<close>, and the errors
  it makes on the spot, with the arguments of their format string.\<close>

datatype error =
    ErrNotFound
  | ErrForbidden
  | ErrInvalidPath
  | ErrInvalidToken
  | ErrText string
  | ErrBadToken string
  | ErrNeedToken
  | ErrMethod string string
  | ErrNotNumber string string
  | ErrMissingKey string
  | ErrDB nat
  | ErrArgs nat nat

datatype panic =
    IndexOutOfRange
  | NilDereference
  | DivideByZero
  | BadBlockSize
  | NotSettable
  | PanicText string

datatype fault = Error error | Panic panic

type_synonym 'a result = "fault + 'a"

type_synonym ('s, 'a) call = "'s \<Rightarrow> 'a result \<times> 's"

definition rbind :: "'a result \<Rightarrow> ('a \<Rightarrow> 'b result) \<Rightarrow> 'b result" where
  "rbind r f = (case r of Inl e \<Rightarrow> Inl e | Inr x \<Rightarrow> f x)"

definition creturn :: "'a \<Rightarrow> ('s, 'a) call" where
  "creturn x s = (Inr x, s)"

definition craise :: "fault \<Rightarrow> ('s, 'a) call" where
  "craise e s = (Inl e, s)"

definition cbind :: "('s, 'a) call \<Rightarrow> ('a \<Rightarrow> ('s, 'b) call) \<Rightarrow> ('s, 'b) call" where
  "cbind m f s = (case m s of (Inl e, t) \<Rightarrow> (Inl e, t) | (Inr x, t) \<Rightarrow> f x t)"

text \<open>\<open>xs[i]\<close> with Go's run-time bounds check.\<close>

definition go_index :: "'a list \<Rightarrow> int \<Rightarrow> 'a result" where
  "go_index xs i =
     (if 0 \<le> i \<and> i < int (length xs) then Inr (xs ! nat i) else Inl (Panic IndexOutOfRange))"

text \<open>\<open>xs[lo:hi]\<close> with Go's run-time bounds check (on a slice whose capacity is its length).\<close>

definition go_slice :: "'a list \<Rightarrow> int \<Rightarrow> int \<Rightarrow> 'a list result" where
  "go_slice xs lo hi =
     (if 0 \<le> lo \<and> lo \<le> hi \<and> hi \<le> int (length xs)
      then Inr (take (nat (hi - lo)) (drop (nat lo) xs))
      else Inl (Panic IndexOutOfRange))"

subsection \<open>Strings\<close>

fun split_on :: "char \<Rightarrow> string \<Rightarrow> string list" where
  "split_on c [] = [[]]"
| "split_on c (x # xs) =
     (if x = c then [] # split_on c xs
      else case split_on c xs of [] \<Rightarrow> [[x]] | w # ws \<Rightarrow> (x # w) # ws)"

fun join :: "string \<Rightarrow> string list \<Rightarrow> string" where
  "join sep [] = []"
| "join sep [x] = x"
| "join sep (x # y # zs) = x @ sep @ join sep (y # zs)"

definition has_prefix :: "string \<Rightarrow> string \<Rightarrow> bool" where
  "has_prefix s p = (take (length p) s = p)"

definition has_suffix :: "string \<Rightarrow> string \<Rightarrow> bool" where
  "has_suffix s p = (length p \<le> length s \<and> drop (length s - length p) s = p)"

definition trim_prefix :: "string \<Rightarrow> string \<Rightarrow> string" where
  "trim_prefix s p = (if has_prefix s p then drop (length p) s else s)"

text \<open>\<open>strings.Index\<close>: the byte offset of the first occurrence, \<open>None\<close> for -1.\<close>

fun str_index :: "string \<Rightarrow> string \<Rightarrow> nat option" where
  "str_index [] sub = (if sub = [] then Some 0 else None)"
| "str_index (x # xs) sub =
     (if has_prefix (x # xs) sub then Some 0 else map_option Suc (str_index xs sub))"

definition str_contains :: "string \<Rightarrow> string \<Rightarrow> bool" where
  "str_contains s sub = (str_index s sub \<noteq> None)"

text \<open>\<open>strings.LastIndex\<close> for a one-byte separator, the only use the code makes of it.\<close>

fun last_index :: "string \<Rightarrow> char \<Rightarrow> nat option" where
  "last_index [] c = None"
| "last_index (x # xs) c =
     (case last_index xs c of
        Some i \<Rightarrow> Some (Suc i)
      | None \<Rightarrow> if x = c then Some 0 else None)"

definition is_space :: "char \<Rightarrow> bool" where
  "is_space c = (c \<in> set [CHR '' '', CHR 0x09, CHR 0x0A, CHR 0x0B, CHR 0x0C, CHR 0x0D])"

definition trim_space :: "string \<Rightarrow> string" where
  "trim_space s = rev (dropWhile is_space (rev (dropWhile is_space s)))"

definition str_repeat :: "string \<Rightarrow> nat \<Rightarrow> string" where
  "str_repeat s n = concat (replicate n s)"

definition to_upper_char :: "char \<Rightarrow> char" where
  "to_upper_char c =
     (let n = of_char c :: nat in if 97 \<le> n \<and> n \<le> 122 then char_of (n - 32) else c)"

definition to_lower_char :: "char \<Rightarrow> char" where
  "to_lower_char c =
     (let n = of_char c :: nat in if 65 \<le> n \<and> n \<le> 90 then char_of (n + 32) else c)"

definition to_upper :: "string \<Rightarrow> string" where
  "to_upper s = map to_upper_char s"

definition to_lower :: "string \<Rightarrow> string" where
  "to_lower s = map to_lower_char s"

subsection \<open>Numbers\<close>

definition int64_min :: int where "int64_min = - (2 ^ 63)"

definition int64_max :: int where "int64_max = 2 ^ 63 - 1"

definition in_int64 :: "int \<Rightarrow> bool" where
  "in_int64 i = (int64_min \<le> i \<and> i \<le> int64_max)"

definition digit_char :: "nat \<Rightarrow> char" where
  "digit_char d = char_of (if d < 10 then 48 + d else 87 + d)"

text \<open>The digits of a number in base 10 or 16, most significant first (\<open>%d\<close>, \<open>%x\<close>).\<close>

fun show_base :: "nat \<Rightarrow> nat \<Rightarrow> string" where
  "show_base b n =
     (if b < 2 \<or> n < b then [digit_char n]
      else show_base b (n div b) @ [digit_char (n mod b)])"

definition show_nat :: "nat \<Rightarrow> string" where
  "show_nat n = show_base 10 n"

definition show_int :: "int \<Rightarrow> string" where
  "show_int i = (if i < 0 then CHR ''-'' # show_nat (nat (- i)) else show_nat (nat i))"

definition show_hex :: "int \<Rightarrow> string" where
  "show_hex i = (if i < 0 then CHR ''-'' # show_base 16 (nat (- i)) else show_base 16 (nat i))"

definition digit_val :: "char \<Rightarrow> nat option" where
  "digit_val c =
     (let n = of_char c :: nat
      in if 48 \<le> n \<and> n \<le> 57 then Some (n - 48)
         else if 97 \<le> n \<and> n \<le> 102 then Some (n - 87)
         else if 65 \<le> n \<and> n \<le> 70 then Some (n - 55)
         else None)"

fun read_base :: "nat \<Rightarrow> nat \<Rightarrow> string \<Rightarrow> nat option" where
  "read_base b acc [] = Some acc"
| "read_base b acc (c # cs) =
     (case digit_val c of
        Some d \<Rightarrow> if d < b then read_base b (acc * b + d) cs else None
      | None \<Rightarrow> None)"

text \<open>An unsigned numeral: at least one digit, nothing else.\<close>

definition read_digits :: "nat \<Rightarrow> string \<Rightarrow> nat option" where
  "read_digits b s = (if s = [] then None else read_base b 0 s)"

text \<open>\<open>strconv.ParseInt(s, b, 64)\<close> as the pair of the returned value and whether the error is
  nil: a syntax error returns 0, a range error the nearest \<open>int64\<close>.\<close>

definition parse_int :: "nat \<Rightarrow> string \<Rightarrow> int \<times> bool" where
  "parse_int b s =
     (let (neg, ds) = (case s of
            [] \<Rightarrow> (False, [])
          | c # cs \<Rightarrow> if c = CHR ''-'' then (True, cs)
                       else if c = CHR ''+'' then (False, cs) else (False, c # cs))
      in case read_digits b ds of
           None \<Rightarrow> (0, False)
         | Some n \<Rightarrow>
             let i = (if neg then - int n else int n)
             in if i < int64_min then (int64_min, False)
                else if int64_max < i then (int64_max, False)
                else (i, True))"

definition atoi :: "string \<Rightarrow> int" where
  "atoi s = fst (parse_int 10 s)"

section \<open>Results and calls\<close>

lemma rbind_simps [simp]:
  "rbind (Inl e) f = Inl e"
  "rbind (Inr x) f = f x"
  by (simp_all add: rbind_def)

lemma rbind_Inr_iff [go_simps]:
  "rbind r f = Inr y \<longleftrightarrow> (\<exists>x. r = Inr x \<and> f x = Inr y)"
  by (cases r) simp_all

lemma rbind_Inl_iff [go_simps]:
  "rbind r f = Inl e \<longleftrightarrow> r = Inl e \<or> (\<exists>x. r = Inr x \<and> f x = Inl e)"
  by (cases r) auto

lemma creturn_apply [simp]: "creturn x s = (Inr x, s)"
  by (simp add: creturn_def)

lemma craise_apply [simp]: "craise e s = (Inl e, s)"
  by (simp add: craise_def)

lemma cbind_Inl: "m s = (Inl e, t) \<Longrightarrow> cbind m f s = (Inl e, t)"
  by (simp add: cbind_def)

lemma cbind_Inr: "m s = (Inr x, t) \<Longrightarrow> cbind m f s = f x t"
  by (simp add: cbind_def)

lemma cbind_return [simp]: "cbind (creturn x) f = f x"
  by (rule ext) (simp add: cbind_def)

lemma cbind_raise [simp]: "cbind (craise e) f = craise e"
  by (rule ext) (simp add: cbind_def)

lemma cbind_eq_Inr [go_simps]:
  "cbind m f s = (Inr y, t) \<longleftrightarrow> (\<exists>x u. m s = (Inr x, u) \<and> f x u = (Inr y, t))"
  by (auto simp: cbind_def split: prod.splits sum.splits)

lemma cbind_eq_Inl [go_simps]:
  "cbind m f s = (Inl e, t) \<longleftrightarrow>
     m s = (Inl e, t) \<or> (\<exists>x u. m s = (Inr x, u) \<and> f x u = (Inl e, t))"
  by (auto simp: cbind_def split: prod.splits sum.splits)

text \<open>An invariant of the state that both halves of a sequence keep is kept by the sequence.\<close>

lemma cbind_keeps:
  assumes "\<And>r t. m s = (r, t) \<Longrightarrow> P t"
    and "\<And>x u r t. P u \<Longrightarrow> f x u = (r, t) \<Longrightarrow> P t"
    and "cbind m f s = (r, t)"
  shows "P t"
proof (cases "m s")
  case (Pair a u)
  with assms(1) have "P u" by blast
  with Pair assms(2,3) show ?thesis by (cases a) (auto simp: cbind_def)
qed

lemma go_index_ok [simp]:
  "0 \<le> i \<Longrightarrow> i < int (length xs) \<Longrightarrow> go_index xs i = Inr (xs ! nat i)"
  by (simp add: go_index_def)

lemma go_index_panics [simp]:
  "\<not> (0 \<le> i \<and> i < int (length xs)) \<Longrightarrow> go_index xs i = Inl (Panic IndexOutOfRange)"
  by (simp only: go_index_def if_False)

lemma go_slice_ok [simp]:
  "0 \<le> lo \<Longrightarrow> lo \<le> hi \<Longrightarrow> hi \<le> int (length xs) \<Longrightarrow>
     go_slice xs lo hi = Inr (take (nat (hi - lo)) (drop (nat lo) xs))"
  by (simp add: go_slice_def)

section \<open>Strings\<close>

lemma split_on_not_Nil [simp]: "split_on c s \<noteq> []"
  by (induction s) (auto split: list.splits)

lemma length_split_on: "length (split_on c s) = Suc (length (filter (\<lambda>x. x = c) s))"
  by (induction s) (auto split: list.splits)

lemma split_on_no_sep [simp]: "c \<notin> set s \<Longrightarrow> split_on c s = [s]"
  by (induction s) auto

lemma split_on_append_sep:
  "split_on c (s @ c # t) = split_on c s @ split_on c t"
  by (induction s) (auto split: list.splits)

lemma join_Cons: "xs \<noteq> [] \<Longrightarrow> join sep (x # xs) = x @ sep @ join sep xs"
  by (cases xs) auto

lemma join_push: "join sep ((x # w) # ws) = x # join sep (w # ws)"
  by (cases ws) auto

lemma join_split_on [simp]: "join [c] (split_on c s) = s"
proof (induction s)
  case (Cons x xs)
  then show ?case
    by (cases "split_on c xs") (auto simp: join_Cons join_push)
qed simp

lemma split_on_join:
  "ss \<noteq> [] \<Longrightarrow> \<forall>s\<in>set ss. c \<notin> set s \<Longrightarrow> split_on c (join [c] ss) = ss"
proof (induction ss)
  case (Cons s ss)
  show ?case
  proof (cases ss)
    case Nil
    with Cons.prems show ?thesis by simp
  next
    case (Cons t ts)
    with Cons.IH Cons.prems show ?thesis
      by (simp add: join_Cons split_on_append_sep)
  qed
qed simp

lemma split_on_elems: "w \<in> set (split_on c s) \<Longrightarrow> c \<notin> set w"
  by (induction s arbitrary: w) (auto split: list.splits if_splits)

lemma has_prefix_append [simp]: "has_prefix (p @ s) p"
  by (simp add: has_prefix_def)

lemma has_prefixE: "has_prefix s p \<Longrightarrow> \<exists>t. s = p @ t"
  unfolding has_prefix_def by (metis append_take_drop_id)

lemma has_suffix_append [simp]: "has_suffix (s @ p) p"
  by (simp add: has_suffix_def)

lemma trim_prefix_append [simp]: "trim_prefix (p @ s) p = s"
  by (simp add: trim_prefix_def)

lemma str_index_Some:
  "str_index s sub = Some i \<Longrightarrow> i + length sub \<le> length s \<and> take (length sub) (drop i s) = sub"
  by (induction s arbitrary: i)
    (auto simp: has_prefix_def split: if_splits dest: arg_cong [where f = length])

lemma last_index_Some:
  "last_index s c = Some i \<Longrightarrow> i < length s \<and> s ! i = c \<and> c \<notin> set (drop (Suc i) s)"
proof (induction s arbitrary: i)
  case (Cons x xs)
  show ?case
  proof (cases "last_index xs c")
    case None
    have "last_index ys c = None \<Longrightarrow> c \<notin> set ys" for ys
      by (induction ys) (auto split: option.splits if_splits)
    with None Cons.prems show ?thesis by (auto split: if_splits)
  next
    case (Some j)
    with Cons show ?thesis by auto
  qed
qed simp

lemma last_index_None [simp]: "last_index s c = None \<longleftrightarrow> c \<notin> set s"
  by (induction s) (auto split: option.splits)

lemma last_index_append_sep [simp]:
  "c \<notin> set t \<Longrightarrow> last_index (s @ c # t) c = Some (length s)"
  by (induction s) (auto split: option.splits)

section \<open>Numbers\<close>

declare show_base.simps [simp del]

lemma digit_char_val: "d < 16 \<Longrightarrow> digit_val (digit_char d) = Some d"
  by (auto simp: digit_val_def digit_char_def Let_def)

lemma read_base_append:
  "read_base b acc (s @ t) = Option.bind (read_base b acc s) (\<lambda>n. read_base b n t)"
  by (induction s arbitrary: acc) (auto split: option.splits)

lemma show_base_not_Nil [simp]: "show_base b n \<noteq> []"
  by (subst show_base.simps) simp

lemma read_show_base:
  "2 \<le> b \<Longrightarrow> b \<le> 16 \<Longrightarrow> read_base b acc (show_base b n) =
     Some (acc * b ^ length (show_base b n) + n)"
proof (induction b n arbitrary: acc rule: show_base.induct)
  case (1 b n)
  show ?case
  proof (cases "n < b")
    case True
    with 1 show ?thesis
      by (simp add: show_base.simps [of b n] digit_char_val)
  next
    case False
    with 1 have "read_base b acc (show_base b (n div b)) =
        Some (acc * b ^ length (show_base b (n div b)) + n div b)"
      by simp
    moreover have "n mod b < b" "n mod b < 16"
      using 1 by (auto intro: order_less_le_trans [OF mod_less_divisor])
    moreover have "n div b * b + n mod b = n" by simp
    ultimately show ?thesis
      using False 1
      by (simp add: show_base.simps [of b n] read_base_append digit_char_val algebra_simps)
  qed
qed

lemma read_digits_show_base [simp]:
  "2 \<le> b \<Longrightarrow> b \<le> 16 \<Longrightarrow> read_digits b (show_base b n) = Some n"
  by (simp add: read_digits_def read_show_base)

lemma digit_char_neq: "digit_val c = None \<Longrightarrow> d < 16 \<Longrightarrow> digit_char d \<noteq> c"
  using digit_char_val [of d] by auto

lemma digit_val_punct [simp]:
  "digit_val CHR ''-'' = None" "digit_val CHR ''+'' = None" "digit_val CHR ''/'' = None"
  "digit_val CHR ''.'' = None" "digit_val CHR '':'' = None"
  by (simp_all add: digit_val_def)

lemma show_base_digits:
  "2 \<le> b \<Longrightarrow> b \<le> 16 \<Longrightarrow> c \<in> set (show_base b n) \<Longrightarrow> \<exists>d < b. c = digit_char d"
proof (induction b n rule: show_base.induct)
  case (1 b n)
  consider "n < b" | "\<not> n < b" "c \<in> set (show_base b (n div b))" | "c = digit_char (n mod b)"
    using "1.prems" by (cases "n < b") (auto simp: show_base.simps [of b n])
  then show ?case
  proof cases
    case 1
    with "1.prems" show ?thesis by (auto simp: show_base.simps [of b n])
  next
    case 2
    with "1.IH" "1.prems" show ?thesis by simp
  next
    case 3
    with "1.prems" show ?thesis by (auto intro: exI [of _ "n mod b"])
  qed
qed

lemma show_base_no_punct:
  assumes "2 \<le> b" "b \<le> 16" "digit_val c = None"
  shows "c \<notin> set (show_base b n)"
proof
  assume "c \<in> set (show_base b n)"
  then obtain d where "d < b" "c = digit_char d"
    using show_base_digits assms(1,2) by blast
  with assms(2,3) digit_char_neq [of c d] show False by simp
qed

lemma parse_int_show_nat:
  "2 \<le> b \<Longrightarrow> b \<le> 16 \<Longrightarrow> int n \<le> int64_max \<Longrightarrow> parse_int b (show_base b n) = (int n, True)"
proof -
  assume b: "2 \<le> b" "b \<le> 16" and n: "int n \<le> int64_max"
  obtain c cs where s: "show_base b n = c # cs"
    by (cases "show_base b n") simp_all
  with b have "c \<noteq> CHR ''-''" "c \<noteq> CHR ''+''"
    using show_base_no_punct [OF b, of "CHR ''-''" n] show_base_no_punct [OF b, of "CHR ''+''" n]
    by auto
  moreover have "read_digits b (c # cs) = Some n"
    using read_digits_show_base [OF b, of n] s by simp
  ultimately show ?thesis
    using n by (simp add: parse_int_def s int64_min_def)
qed

text \<open>\<open>strconv.ParseInt\<close> inverts \<open>%d\<close> on every \<open>int64\<close>.\<close>

lemma parse_int_show_int [simp]: "in_int64 i \<Longrightarrow> parse_int 10 (show_int i) = (i, True)"
proof (cases "i < 0")
  case True
  assume "in_int64 i"
  with True have "read_digits 10 (show_nat (nat (- i))) = Some (nat (- i))"
    by (simp add: show_nat_def)
  with True \<open>in_int64 i\<close> show ?thesis
    by (simp add: parse_int_def show_int_def in_int64_def int64_max_def)
next
  case False
  assume "in_int64 i"
  with False show ?thesis
    by (simp add: show_int_def show_nat_def parse_int_show_nat in_int64_def)
qed

lemma atoi_show_int [simp]: "in_int64 i \<Longrightarrow> atoi (show_int i) = i"
  by (simp add: atoi_def)

lemma show_int_no_punct:
  "digit_val c = None \<Longrightarrow> c \<noteq> CHR ''-'' \<Longrightarrow> c \<notin> set (show_int i)"
  by (simp add: show_int_def show_nat_def show_base_no_punct)

lemma show_int_no_slash [simp]: "CHR ''/'' \<notin> set (show_int i)"
  by (rule show_int_no_punct) simp_all

lemma show_nat_eq_iff [simp]: "show_nat m = show_nat n \<longleftrightarrow> m = n"
proof
  assume "show_nat m = show_nat n"
  then have "read_digits 10 (show_base 10 m) = read_digits 10 (show_base 10 n)"
    by (simp add: show_nat_def)
  then show "m = n" by simp
qed simp

end
