(* ===== verification/AES.thy ===== *)
theory AES
  imports Go_Prelude
begin

text \<open>
  \<open>crypto/aes\<close> and \<open>crypto/cipher\<close> of the Go standard library, as far as
  \<open>src/util/utils.go\<close> uses them: the block cipher of FIPS 197 for the three key sizes that
  \<open>aes.NewCipher\<close> accepts, and the CBC mode of \<open>cipher.NewCBCEncrypter\<close> and
  \<open>cipher.NewCBCDecrypter\<close>.

  The locale \<open>block_cipher\<close> is the interface CBC relies on: deciphering undoes enciphering on
  blocks of sixteen bytes.  Its lemmas prove that CBC decryption undoes CBC encryption; the
  interpretation \<open>aes\<close> discharges the law for the AES of this theory, for every list of round
  keys.
\<close>

section \<open>Definitions\<close>

type_synonym byte = "8 word"

type_synonym bytes = "byte list"

text \<open>A column of the AES state, and the state as its four columns.\<close>

type_synonym col = "byte \<times> byte \<times> byte \<times> byte"

type_synonym aes_state = "col \<times> col \<times> col \<times> col"

definition sbox :: "byte list" where
  "sbox = [
      99, 124, 119, 123, 242, 107, 111, 197, 48, 1, 103, 43, 254, 215, 171, 118,
      202, 130, 201, 125, 250, 89, 71, 240, 173, 212, 162, 175, 156, 164, 114, 192,
      183, 253, 147, 38, 54, 63, 247, 204, 52, 165, 229, 241, 113, 216, 49, 21,
      4, 199, 35, 195, 24, 150, 5, 154, 7, 18, 128, 226, 235, 39, 178, 117,
      9, 131, 44, 26, 27, 110, 90, 160, 82, 59, 214, 179, 41, 227, 47, 132,
      83, 209, 0, 237, 32, 252, 177, 91, 106, 203, 190, 57, 74, 76, 88, 207,
      208, 239, 170, 251, 67, 77, 51, 133, 69, 249, 2, 127, 80, 60, 159, 168,
      81, 163, 64, 143, 146, 157, 56, 245, 188, 182, 218, 33, 16, 255, 243, 210,
      205, 12, 19, 236, 95, 151, 68, 23, 196, 167, 126, 61, 100, 93, 25, 115,
      96, 129, 79, 220, 34, 42, 144, 136, 70, 238, 184, 20, 222, 94, 11, 219,
      224, 50, 58, 10, 73, 6, 36, 92, 194, 211, 172, 98, 145, 149, 228, 121,
      231, 200, 55, 109, 141, 213, 78, 169, 108, 86, 244, 234, 101, 122, 174, 8,
      186, 120, 37, 46, 28, 166, 180, 198, 232, 221, 116, 31, 75, 189, 139, 138,
      112, 62, 181, 102, 72, 3, 246, 14, 97, 53, 87, 185, 134, 193, 29, 158,
      225, 248, 152, 17, 105, 217, 142, 148, 155, 30, 135, 233, 206, 85, 40, 223,
      140, 161, 137, 13, 191, 230, 66, 104, 65, 153, 45, 15, 176, 84, 187, 22]"

definition inv_sbox :: "byte list" where
  "inv_sbox = [
      82, 9, 106, 213, 48, 54, 165, 56, 191, 64, 163, 158, 129, 243, 215, 251,
      124, 227, 57, 130, 155, 47, 255, 135, 52, 142, 67, 68, 196, 222, 233, 203,
      84, 123, 148, 50, 166, 194, 35, 61, 238, 76, 149, 11, 66, 250, 195, 78,
      8, 46, 161, 102, 40, 217, 36, 178, 118, 91, 162, 73, 109, 139, 209, 37,
      114, 248, 246, 100, 134, 104, 152, 22, 212, 164, 92, 204, 93, 101, 182, 146,
      108, 112, 72, 80, 253, 237, 185, 218, 94, 21, 70, 87, 167, 141, 157, 132,
      144, 216, 171, 0, 140, 188, 211, 10, 247, 228, 88, 5, 184, 179, 69, 6,
      208, 44, 30, 143, 202, 63, 15, 2, 193, 175, 189, 3, 1, 19, 138, 107,
      58, 145, 17, 65, 79, 103, 220, 234, 151, 242, 207, 206, 240, 180, 230, 115,
      150, 172, 116, 34, 231, 173, 53, 133, 226, 249, 55, 232, 28, 117, 223, 110,
      71, 241, 26, 113, 29, 41, 197, 137, 111, 183, 98, 14, 170, 24, 190, 27,
      252, 86, 62, 75, 198, 210, 121, 32, 154, 219, 192, 254, 120, 205, 90, 244,
      31, 221, 168, 51, 136, 7, 199, 49, 177, 18, 16, 89, 39, 128, 236, 95,
      96, 81, 127, 169, 25, 181, 74, 13, 45, 229, 122, 159, 147, 201, 156, 239,
      160, 224, 59, 77, 174, 42, 245, 176, 200, 235, 187, 60, 131, 83, 153, 97,
      23, 43, 4, 126, 186, 119, 214, 38, 225, 105, 20, 99, 85, 33, 12, 125]"

definition sub_byte :: "byte \<Rightarrow> byte" where
  "sub_byte x = sbox ! unat x"

definition inv_sub_byte :: "byte \<Rightarrow> byte" where
  "inv_sub_byte x = inv_sbox ! unat x"

text \<open>Multiplication by the polynomial \<open>x\<close> in the field of AES.\<close>

definition xtime :: "byte \<Rightarrow> byte" where
  "xtime b = (push_bit 1 b) XOR (if bit b 7 then 0x1b else 0)"

fun xor_col :: "col \<Rightarrow> col \<Rightarrow> col" where
  "xor_col (a, b, c, d) (a', b', c', d') = (a XOR a', b XOR b', c XOR c', d XOR d')"

fun sub_col :: "col \<Rightarrow> col" where
  "sub_col (a, b, c, d) = (sub_byte a, sub_byte b, sub_byte c, sub_byte d)"

fun inv_sub_col :: "col \<Rightarrow> col" where
  "inv_sub_col (a, b, c, d) = (inv_sub_byte a, inv_sub_byte b, inv_sub_byte c, inv_sub_byte d)"

definition mul2 :: "byte \<Rightarrow> byte" where "mul2 a = xtime a"
definition mul3 :: "byte \<Rightarrow> byte" where "mul3 a = xtime a XOR a"
definition mul9 :: "byte \<Rightarrow> byte" where "mul9 a = xtime (xtime (xtime a)) XOR a"
definition mul11 :: "byte \<Rightarrow> byte" where "mul11 a = xtime (xtime (xtime a)) XOR xtime a XOR a"
definition mul13 :: "byte \<Rightarrow> byte" where
  "mul13 a = xtime (xtime (xtime a)) XOR xtime (xtime a) XOR a"
definition mul14 :: "byte \<Rightarrow> byte" where
  "mul14 a = xtime (xtime (xtime a)) XOR xtime (xtime a) XOR xtime a"

fun mix_col :: "col \<Rightarrow> col" where
  "mix_col (a, b, c, d) =
     (mul2 a XOR mul3 b XOR c XOR d,
      a XOR mul2 b XOR mul3 c XOR d,
      a XOR b XOR mul2 c XOR mul3 d,
      mul3 a XOR b XOR c XOR mul2 d)"

fun inv_mix_col :: "col \<Rightarrow> col" where
  "inv_mix_col (a, b, c, d) =
     (mul14 a XOR mul11 b XOR mul13 c XOR mul9 d,
      mul9 a XOR mul14 b XOR mul11 c XOR mul13 d,
      mul13 a XOR mul9 b XOR mul14 c XOR mul11 d,
      mul11 a XOR mul13 b XOR mul9 c XOR mul14 d)"

fun map_cols :: "(col \<Rightarrow> col) \<Rightarrow> aes_state \<Rightarrow> aes_state" where
  "map_cols f (p, q, r, s) = (f p, f q, f r, f s)"

fun shift_rows :: "aes_state \<Rightarrow> aes_state" where
  "shift_rows ((a0, a1, a2, a3), (b0, b1, b2, b3), (c0, c1, c2, c3), (d0, d1, d2, d3)) =
     ((a0, b1, c2, d3), (b0, c1, d2, a3), (c0, d1, a2, b3), (d0, a1, b2, c3))"

fun inv_shift_rows :: "aes_state \<Rightarrow> aes_state" where
  "inv_shift_rows ((a0, a1, a2, a3), (b0, b1, b2, b3), (c0, c1, c2, c3), (d0, d1, d2, d3)) =
     ((a0, d1, c2, b3), (b0, a1, d2, c3), (c0, b1, a2, d3), (d0, c1, b2, a3))"

fun add_round_key :: "aes_state \<Rightarrow> aes_state \<Rightarrow> aes_state" where
  "add_round_key (k, l, m, n) (p, q, r, s) =
     (xor_col k p, xor_col l q, xor_col m r, xor_col n s)"

fun enc_rounds :: "aes_state list \<Rightarrow> aes_state \<Rightarrow> aes_state" where
  "enc_rounds [] s = s"
| "enc_rounds [k] s = add_round_key k (shift_rows (map_cols sub_col s))"
| "enc_rounds (k # l # ks) s =
     enc_rounds (l # ks) (add_round_key k (map_cols mix_col (shift_rows (map_cols sub_col s))))"

fun dec_rounds :: "aes_state list \<Rightarrow> aes_state \<Rightarrow> aes_state" where
  "dec_rounds [] s = s"
| "dec_rounds [k] s = map_cols inv_sub_col (inv_shift_rows (add_round_key k s))"
| "dec_rounds (k # l # ks) s =
     map_cols inv_sub_col (inv_shift_rows
       (map_cols inv_mix_col (add_round_key k (dec_rounds (l # ks) s))))"

fun cipher :: "aes_state list \<Rightarrow> aes_state \<Rightarrow> aes_state" where
  "cipher [] s = s"
| "cipher (k # ks) s = enc_rounds ks (add_round_key k s)"

fun inv_cipher :: "aes_state list \<Rightarrow> aes_state \<Rightarrow> aes_state" where
  "inv_cipher [] s = s"
| "inv_cipher (k # ks) s = add_round_key k (dec_rounds ks s)"

text \<open>The key expansion: \<open>key_step\<close> appends one word.\<close>

fun rot_col :: "col \<Rightarrow> col" where
  "rot_col (a, b, c, d) = (b, c, d, a)"

definition rcon :: "nat \<Rightarrow> byte" where
  "rcon i = (xtime ^^ (i - 1)) 1"

definition key_step :: "nat \<Rightarrow> col list \<Rightarrow> col list" where
  "key_step nk ws =
     (let i = length ws; t = last ws;
          u = (if i mod nk = 0 then xor_col (sub_col (rot_col t)) (rcon (i div nk), 0, 0, 0)
               else if 6 < nk \<and> i mod nk = 4 then sub_col t else t)
      in ws @ [xor_col (ws ! (i - nk)) u])"

fun cols_of :: "bytes \<Rightarrow> col list" where
  "cols_of (a # b # c # d # bs) = (a, b, c, d) # cols_of bs"
| "cols_of _ = []"

fun states_of :: "col list \<Rightarrow> aes_state list" where
  "states_of (p # q # r # s # cs) = (p, q, r, s) # states_of cs"
| "states_of _ = []"

definition expand_key :: "bytes \<Rightarrow> aes_state list" where
  "expand_key key =
     (let nk = length key div 4
      in states_of ((key_step nk ^^ (4 * (nk + 7) - nk)) (cols_of key)))"

definition block_size :: nat where "block_size = 16"

text \<open>\<open>aes.NewCipher\<close>: the round keys, or a \<open>KeySizeError\<close>.\<close>

definition NewCipher :: "bytes \<Rightarrow> aes_state list result" where
  "NewCipher key =
     (if length key \<in> {16, 24, 32} then Inr (expand_key key)
      else Inl (Error (ErrText ''crypto/aes: invalid key size'')))"

fun state_of :: "bytes \<Rightarrow> aes_state" where
  "state_of bs = (case states_of (cols_of bs) of [] \<Rightarrow> ((0,0,0,0),(0,0,0,0),(0,0,0,0),(0,0,0,0))
                    | s # _ \<Rightarrow> s)"

fun bytes_of_col :: "col \<Rightarrow> bytes" where
  "bytes_of_col (a, b, c, d) = [a, b, c, d]"

fun bytes_of :: "aes_state \<Rightarrow> bytes" where
  "bytes_of (p, q, r, s) = bytes_of_col p @ bytes_of_col q @ bytes_of_col r @ bytes_of_col s"

definition aes_encrypt :: "aes_state list \<Rightarrow> bytes \<Rightarrow> bytes" where
  "aes_encrypt ks b = bytes_of (cipher ks (state_of b))"

definition aes_decrypt :: "aes_state list \<Rightarrow> bytes \<Rightarrow> bytes" where
  "aes_decrypt ks b = bytes_of (inv_cipher ks (state_of b))"

subsection \<open>CBC\<close>

definition xor_bytes :: "bytes \<Rightarrow> bytes \<Rightarrow> bytes" where
  "xor_bytes xs ys = map2 (XOR) xs ys"

function cbc_enc :: "(bytes \<Rightarrow> bytes) \<Rightarrow> bytes \<Rightarrow> bytes \<Rightarrow> bytes" where
  "cbc_enc enc iv bs =
     (if length bs < block_size then []
      else let c = enc (xor_bytes iv (take block_size bs))
           in c @ cbc_enc enc c (drop block_size bs))"
  by pat_completeness auto
termination
  by (relation "measure (\<lambda>(enc, iv, bs). length bs)") (auto simp: block_size_def)

function cbc_dec :: "(bytes \<Rightarrow> bytes) \<Rightarrow> bytes \<Rightarrow> bytes \<Rightarrow> bytes" where
  "cbc_dec dec iv bs =
     (if length bs < block_size then []
      else let c = take block_size bs
           in xor_bytes iv (dec c) @ cbc_dec dec c (drop block_size bs))"
  by pat_completeness auto
termination
  by (relation "measure (\<lambda>(dec, iv, bs). length bs)") (auto simp: block_size_def)

text \<open>\<open>BlockMode.CryptBlocks\<close> panics on an input that is not full blocks.\<close>

definition crypt_blocks :: "(bytes \<Rightarrow> bytes) \<Rightarrow> bytes \<Rightarrow> bytes result" where
  "crypt_blocks f bs =
     (if length bs mod block_size = 0 then Inr (f bs) else Inl (Panic BadBlockSize))"

section \<open>AES deciphering undoes enciphering\<close>

declare cbc_enc.simps [simp del] cbc_dec.simps [simp del]

lemma length_sbox [simp]: "length sbox = 256" "length inv_sbox = 256"
  by (simp_all add: sbox_def inv_sbox_def)

lemma inv_sbox_table: "map (\<lambda>x. inv_sbox ! unat x) sbox = map of_nat [0..<256]"
  by code_simp

lemma inv_sub_byte [simp]: "inv_sub_byte (sub_byte x) = x"
proof -
  have i: "unat x < 256"
    using unsigned_less [where 'a = nat, of x] by simp
  have "inv_sub_byte (sub_byte x) = map (\<lambda>y. inv_sbox ! unat y) sbox ! unat x"
    using i by (simp add: inv_sub_byte_def sub_byte_def)
  also have "\<dots> = of_nat (unat x)"
    unfolding inv_sbox_table using i by simp
  finally show ?thesis by simp
qed

lemma xtime_xor [simp]: "xtime (a XOR b) = xtime a XOR xtime b"
  by (simp add: xtime_def bit_xor_iff push_bit_xor xor.left_commute xor.commute)

lemmas mul_defs = mul2_def mul3_def mul9_def mul11_def mul13_def mul14_def

lemma xor_cancel [simp]: "a XOR (a XOR b) = (b :: byte)"
  by (simp flip: xor.assoc)

lemma inv_mix_col [simp]: "inv_mix_col (mix_col c) = c"
  by (cases c) (simp add: mul_defs xor.assoc xor.commute xor.left_commute)

lemma inv_sub_col [simp]: "inv_sub_col (sub_col c) = c"
  by (cases c) simp

lemma inv_shift_rows [simp]: "inv_shift_rows (shift_rows s) = s"
  by (cases s rule: shift_rows.cases) simp

lemma map_cols_cancel: "(\<And>c. g (f c) = c) \<Longrightarrow> map_cols g (map_cols f s) = s"
  by (cases s) simp

lemma xor_col_cancel [simp]: "xor_col k (xor_col k c) = c"
  by (cases k; cases c) simp

lemma add_round_key_cancel [simp]: "add_round_key k (add_round_key k s) = s"
  by (cases k; cases s) simp

lemma dec_enc_rounds: "dec_rounds ks (enc_rounds ks s) = s"
  by (induction ks s rule: enc_rounds.induct) (simp_all add: map_cols_cancel)

lemma inv_cipher [simp]: "inv_cipher ks (cipher ks s) = s"
  by (cases ks) (simp_all add: dec_enc_rounds)

lemma length_bytes_of [simp]: "length (bytes_of s) = 16"
  by (cases s rule: shift_rows.cases) simp

lemma state_of_bytes_of [simp]: "state_of (bytes_of s) = s"
  by (cases s rule: shift_rows.cases) simp

lemma length_16E:
  assumes "length (b :: bytes) = 16"
  obtains s where "b = bytes_of s"
proof -
  have four: "\<exists>c cs. bs = bytes_of_col c @ cs \<and> length cs = n" if "length bs = n + 4"
    for bs :: bytes and n
  proof -
    have "length bs = Suc (Suc (Suc (Suc n)))" using that by simp
    then obtain p q r s cs where "bs = p # q # r # s # cs"
      unfolding length_Suc_conv by blast
    with that show ?thesis
      by (intro exI [of _ "(p, q, r, s)"] exI [of _ cs]) simp
  qed
  obtain k ks where "b = bytes_of_col k @ ks" "length ks = 12" using four [of b 12] assms by auto
  moreover obtain l ls where "ks = bytes_of_col l @ ls" "length ls = 8"
    using four [of ks 8] \<open>length ks = 12\<close> by auto
  moreover obtain m ms where "ls = bytes_of_col m @ ms" "length ms = 4"
    using four [of ls 4] \<open>length ls = 8\<close> by auto
  moreover obtain n ns where "ms = bytes_of_col n @ ns" "length ns = 0"
    using four [of ms 0] \<open>length ms = 4\<close> by auto
  ultimately show ?thesis
    using that [of "(k, l, m, n)"] by simp
qed

section \<open>CBC over any block cipher\<close>

locale block_cipher =
  fixes enc dec :: "bytes \<Rightarrow> bytes"
  assumes dec_enc: "length b = block_size \<Longrightarrow> dec (enc b) = b"
    and length_enc: "length b = block_size \<Longrightarrow> length (enc b) = block_size"
begin

lemma length_xor_block:
  "length iv = block_size \<Longrightarrow> block_size \<le> length bs \<Longrightarrow>
     length (xor_bytes iv (take block_size bs)) = block_size"
  by (simp add: xor_bytes_def)

lemma full_blocks_cases:
  assumes "length bs mod block_size = 0"
  shows "bs = [] \<or> block_size \<le> length bs \<and> length (drop block_size bs) mod block_size = 0"
  using assms by (cases "length bs < block_size") (simp_all add: not_less le_mod_geq)

lemma cbc_enc_Nil [simp]: "cbc_enc e iv [] = []"
  by (simp add: cbc_enc.simps block_size_def)

lemma cbc_dec_Nil [simp]: "cbc_dec d iv [] = []"
  by (simp add: cbc_dec.simps block_size_def)

lemma cbc_dec_block:
  "length c = block_size \<Longrightarrow> cbc_dec d iv (c @ cs) = xor_bytes iv (d c) @ cbc_dec d c cs"
  by (simp add: cbc_dec.simps [of d iv "c @ cs"] Let_def)

lemma length_cbc_enc:
  assumes "length iv = block_size" "length bs mod block_size = 0"
  shows "length (cbc_enc enc iv bs) = length bs"
  using assms
proof (induction bs arbitrary: iv rule: measure_induct_rule [of length])
  case (less bs)
  show ?case
  proof (cases "bs = []")
    case False
    with less.prems(2) have 2: "block_size \<le> length bs"
        "length (drop block_size bs) mod block_size = 0"
      using full_blocks_cases [of bs] by simp_all
    let ?c = "enc (xor_bytes iv (take block_size bs))"
    have c: "length ?c = block_size"
      using 2 less.prems by (simp add: length_enc length_xor_block)
    have "length (drop block_size bs) < length bs"
      using 2 by (simp add: block_size_def)
    then have "length (cbc_enc enc ?c (drop block_size bs)) = length (drop block_size bs)"
      using c 2(2) by (rule less.IH)
    with c 2 show ?thesis
      by (simp add: cbc_enc.simps [of enc iv bs] Let_def)
  qed simp
qed

text \<open>CBC decryption undoes CBC encryption on every message of full blocks.\<close>

lemma cbc_dec_enc:
  assumes "length iv = block_size" "length bs mod block_size = 0"
  shows "cbc_dec dec iv (cbc_enc enc iv bs) = bs"
  using assms
proof (induction bs arbitrary: iv rule: measure_induct_rule [of length])
  case (less bs)
  show ?case
  proof (cases "bs = []")
    case False
    with less.prems(2) have 2: "block_size \<le> length bs"
        "length (drop block_size bs) mod block_size = 0"
      using full_blocks_cases [of bs] by simp_all
    let ?x = "xor_bytes iv (take block_size bs)"
    let ?c = "enc ?x"
    have x: "length ?x = block_size"
      using 2 less.prems by (simp add: length_xor_block)
    then have c: "length ?c = block_size" and d: "dec ?c = ?x"
      by (simp_all add: length_enc dec_enc)
    have "length (drop block_size bs) < length bs"
      using 2 by (simp add: block_size_def)
    then have IH: "cbc_dec dec ?c (cbc_enc enc ?c (drop block_size bs)) = drop block_size bs"
      using c 2(2) by (rule less.IH)
    have "cbc_enc enc iv bs = ?c @ cbc_enc enc ?c (drop block_size bs)"
      using 2 by (simp add: cbc_enc.simps [of enc iv bs] Let_def)
    then have "cbc_dec dec iv (cbc_enc enc iv bs) =
        xor_bytes iv ?x @ drop block_size bs"
      using c d IH by (simp add: cbc_dec_block)
    moreover have "xor_bytes iv ?x = take block_size bs"
      using 2 less.prems by (intro nth_equalityI) (auto simp: xor_bytes_def)
    ultimately show ?thesis by simp
  qed simp
qed

end

interpretation aes: block_cipher "aes_encrypt ks" "aes_decrypt ks" for ks
proof
  fix b :: bytes
  assume "length b = block_size"
  then obtain s where "b = bytes_of s"
    by (auto simp: block_size_def elim: length_16E)
  then show "aes_decrypt ks (aes_encrypt ks b) = b"
    by (simp add: aes_decrypt_def aes_encrypt_def del: state_of.simps)
  show "length (aes_encrypt ks b) = block_size"
    by (simp add: aes_encrypt_def block_size_def)
qed

end
