(* ===== verification/Base64.thy ===== *)
theory Base64
  imports AES
begin

text \<open>
  \<open>encoding/base64\<close>'s \<open>StdEncoding\<close>, as far as \<open>src/util/utils.go\<close> uses it:
  \<open>EncodeToString\<close> and \<open>DecodeString\<close>, which skips carriage returns and line feeds, wants
  full groups of four characters and accepts padding only at the end.
\<close>

section \<open>Definitions\<close>

definition b64_char :: "nat \<Rightarrow> char" where
  "b64_char v =
     char_of (if v < 26 then v + 65 else if v < 52 then v + 71 else if v < 62 then v - 4
              else if v = 62 then 43 else 47)"

definition b64_val :: "char \<Rightarrow> nat option" where
  "b64_val c =
     (let n = of_char c :: nat
      in if 65 \<le> n \<and> n \<le> 90 then Some (n - 65)
         else if 97 \<le> n \<and> n \<le> 122 then Some (n - 71)
         else if 48 \<le> n \<and> n \<le> 57 then Some (n + 4)
         else if n = 43 then Some 62
         else if n = 47 then Some 63
         else None)"

fun EncodeToString :: "bytes \<Rightarrow> string" where
  "EncodeToString [] = []"
| "EncodeToString [a] =
     [b64_char (unat a div 4), b64_char (unat a mod 4 * 16), CHR ''='', CHR ''='']"
| "EncodeToString [a, b] =
     [b64_char (unat a div 4), b64_char (unat a mod 4 * 16 + unat b div 16),
      b64_char (unat b mod 16 * 4), CHR ''='']"
| "EncodeToString (a # b # c # bs) =
     b64_char (unat a div 4) # b64_char (unat a mod 4 * 16 + unat b div 16)
     # b64_char (unat b mod 16 * 4 + unat c div 64) # b64_char (unat c mod 64)
     # EncodeToString bs"

definition b64_byte1 :: "nat \<Rightarrow> nat \<Rightarrow> byte" where
  "b64_byte1 v w = of_nat (v * 4 + w div 16)"

definition b64_byte2 :: "nat \<Rightarrow> nat \<Rightarrow> byte" where
  "b64_byte2 v w = of_nat (v mod 16 * 16 + w div 4)"

definition b64_byte3 :: "nat \<Rightarrow> nat \<Rightarrow> byte" where
  "b64_byte3 v w = of_nat (v mod 4 * 64 + w)"

fun decode_groups :: "string \<Rightarrow> bytes option" where
  "decode_groups [] = Some []"
| "decode_groups (p # q # r # s # cs) =
     (case (b64_val p, b64_val q) of
        (Some v, Some w) \<Rightarrow>
          if r = CHR ''='' then
            (if s = CHR ''='' \<and> cs = [] then Some [b64_byte1 v w] else None)
          else (case b64_val r of
            None \<Rightarrow> None
          | Some x \<Rightarrow>
              if s = CHR ''='' then
                (if cs = [] then Some [b64_byte1 v w, b64_byte2 w x] else None)
              else (case (b64_val s, decode_groups cs) of
                (Some y, Some bs) \<Rightarrow> Some (b64_byte1 v w # b64_byte2 w x # b64_byte3 x y # bs)
              | _ \<Rightarrow> None))
      | _ \<Rightarrow> None)"
| "decode_groups _ = None"

definition DecodeString :: "string \<Rightarrow> bytes result" where
  "DecodeString s =
     (case decode_groups (filter (\<lambda>c. c \<noteq> CHR 0x0A \<and> c \<noteq> CHR 0x0D) s) of
        Some bs \<Rightarrow> Inr bs
      | None \<Rightarrow> Inl (Error (ErrText ''illegal base64 data'')))"

section \<open>Decoding undoes encoding\<close>

lemma b64_val_char [simp]: "v < 64 \<Longrightarrow> b64_val (b64_char v) = Some v"
  by (simp add: b64_val_def b64_char_def Let_def) linarith

lemma b64_char_neq:
  assumes "v < 64" "b64_val c = None"
  shows "b64_char v \<noteq> c"
  using assms b64_val_char [of v] by auto

lemma b64_val_special [simp]:
  "b64_val CHR ''='' = None" "b64_val CHR 0x0A = None" "b64_val CHR 0x0D = None"
  by (simp_all add: b64_val_def)

lemmas b64_char_special [simp] =
  b64_char_neq [OF _ b64_val_special(1)] b64_char_neq [OF _ b64_val_special(2)]
  b64_char_neq [OF _ b64_val_special(3)]

lemma unat_byte [simp]: "unat (a :: byte) < 256"
  using unsigned_less [where 'a = nat, of a] by simp

lemma unat_byte_div [simp]:
  "unat (a :: byte) div 4 < 64" "unat (a :: byte) div 16 < 16" "unat (a :: byte) div 64 < 4"
  using unat_byte [of a] by (simp_all add: less_mult_imp_div_less)

lemma b64_groups_lt [simp]:
  "unat (a :: byte) mod 4 * 16 < 64"
  "unat (a :: byte) mod 4 * 16 + unat (b :: byte) div 16 < 64"
  "unat (b :: byte) mod 16 * 4 < 64"
  "unat (b :: byte) mod 16 * 4 + unat (c :: byte) div 64 < 64"
  using unat_byte_div(2) [of b] unat_byte_div(3) [of c]
    mod_less_divisor [of 4 "unat a"] mod_less_divisor [of 16 "unat b"]
  by linarith+

lemma b64_bytes [simp]:
  "b64_byte1 (unat a div 4) (unat a mod 4 * 16) = a"
  "b64_byte1 (unat a div 4) (unat a mod 4 * 16 + unat b div 16) = a"
  "b64_byte2 (unat a mod 4 * 16 + unat b div 16) (unat b mod 16 * 4) = b"
  "b64_byte2 (unat a mod 4 * 16 + unat b div 16) (unat b mod 16 * 4 + unat c div 64) = b"
  "b64_byte3 (unat b mod 16 * 4 + unat c div 64) (unat c mod 64) = c"
proof -
  have shift: "(n * k + m) div k = n" "(n * k + m) mod k = m" if "m < k" for n m k :: nat
    using that by simp_all
  have shift4: "(n * 16 + m) mod 16 = m" if "m < 16" for n m :: nat
    using that by simp
  have whole: "of_nat (unat d div k * k + unat d mod k) = d" for d :: byte and k
    by simp
  show "b64_byte1 (unat a div 4) (unat a mod 4 * 16) = a"
    "b64_byte1 (unat a div 4) (unat a mod 4 * 16 + unat b div 16) = a"
    "b64_byte2 (unat a mod 4 * 16 + unat b div 16) (unat b mod 16 * 4) = b"
    "b64_byte2 (unat a mod 4 * 16 + unat b div 16) (unat b mod 16 * 4 + unat c div 64) = b"
    "b64_byte3 (unat b mod 16 * 4 + unat c div 64) (unat c mod 64) = c"
    by (simp_all only: b64_byte1_def b64_byte2_def b64_byte3_def shift unat_byte_div
        nonzero_mult_div_cancel_right whole zero_neq_numeral not_False_eq_True)
qed

lemma decode_groups_encode: "decode_groups (EncodeToString bs) = Some bs"
  by (induction bs rule: EncodeToString.induct) simp_all

lemma EncodeToString_chars:
  "CHR 0x0A \<notin> set (EncodeToString bs) \<and> CHR 0x0D \<notin> set (EncodeToString bs)"
  by (induction bs rule: EncodeToString.induct) (simp_all add: b64_char_special [THEN not_sym])

lemma DecodeString_EncodeToString [simp]: "DecodeString (EncodeToString bs) = Inr bs"
proof -
  have "filter (\<lambda>c. c \<noteq> CHR 0x0A \<and> c \<noteq> CHR 0x0D) (EncodeToString bs) = EncodeToString bs"
    by (rule filter_True) (use EncodeToString_chars in \<open>auto\<close>)
  then show ?thesis by (simp add: DecodeString_def decode_groups_encode)
qed

end
