(* ===== verification/Token.thy ===== *)
theory Token
  imports Base64
begin

text \<open>
  The tokens of the system.  \<open>src/util/utils.go\<close> seals a byte string with AES-CBC under a fixed
  key and base64; \<open>src/rbac/app.go\<close> and \<open>src/manager/app.go\<close> seal the varint of an application
  id and hand it out as the application's token, which \<open>src/rbac/init.go\<close> opens again;
  \<open>src/distributor/project.go\<close> and \<open>src/distributor/watcher.go\<close> do the same with a project id
  under the deployment's secret.  A slice beyond its bounds and a ciphertext that is no multiple
  of the block size are Go panics and stay apart from returned errors.
\<close>

section \<open>Definitions\<close>

subsection \<open>Sealing and opening\<close>

definition byte_of :: "char \<Rightarrow> byte" where
  "byte_of c = of_nat (of_char c)"

definition bytes_of_string :: "string \<Rightarrow> bytes" where
  "bytes_of_string s = map byte_of s"

definition string_of_bytes :: "bytes \<Rightarrow> string" where
  "string_of_bytes bs = map (\<lambda>b. char_of (unat b)) bs"

definition AesKey :: bytes where
  "AesKey = bytes_of_string ''9F4CrTJJVynV6NJL''"

definition PKCS5Padding :: "bytes \<Rightarrow> nat \<Rightarrow> bytes" where
  "PKCS5Padding ciphertext blockSize =
     (let padding = blockSize - length ciphertext mod blockSize
      in ciphertext @ replicate padding (of_nat padding))"

definition PKCS5UnPadding :: "bytes \<Rightarrow> bytes result" where
  "PKCS5UnPadding origData =
     (if length origData \<le> 0 then Inl (Error (ErrText ''PKCS5Padding len(origData) <= 0 error''))
      else let unpadding = int (unat (last origData))
           in go_slice origData 0 (int (length origData) - unpadding))"

definition AesEncrypt :: "bytes \<Rightarrow> bytes \<Rightarrow> string result" where
  "AesEncrypt encodeStr key =
     rbind (NewCipher key) (\<lambda>block.
     let encodeBytes = PKCS5Padding encodeStr block_size in
     rbind (go_slice key 0 (int block_size)) (\<lambda>iv.
     rbind (crypt_blocks (cbc_enc (aes_encrypt block) iv) encodeBytes) (\<lambda>crypted.
     Inr (EncodeToString crypted))))"

definition AesDecrypt :: "string \<Rightarrow> bytes \<Rightarrow> bytes result" where
  "AesDecrypt decodeStr key =
     rbind (DecodeString decodeStr) (\<lambda>decodeBytes.
     rbind (NewCipher key) (\<lambda>block.
     rbind (go_slice key 0 (int block_size)) (\<lambda>iv.
     rbind (crypt_blocks (cbc_dec (aes_decrypt block) iv) decodeBytes) (\<lambda>origData.
     PKCS5UnPadding origData))))"

subsection \<open>Varints (\<open>encoding/binary\<close>)\<close>

text \<open>
  The unsigned 64-bit values are naturals here: \<open>uvarint\<close> rejects an encoding past \<open>2 ^ 64\<close>,
  see \<open>uvarint_bound\<close>, and the bits a further byte contributes lie above those read so far, so
  \<open>x | b << s\<close> is a sum.
\<close>

fun put_uvarint :: "nat \<Rightarrow> bytes" where
  "put_uvarint x =
     (if x < 128 then [of_nat x] else of_nat (x mod 128 + 128) # put_uvarint (x div 128))"

fun uvarint_from :: "nat \<Rightarrow> nat \<Rightarrow> bytes \<Rightarrow> nat \<times> int" where
  "uvarint_from i x [] = (0, 0)"
| "uvarint_from i x (b # bs) =
     (if unat b < 128 then
        (if 9 < i \<or> i = 9 \<and> 1 < unat b then (0, - (int i + 1))
         else (x + unat b * 2 ^ (7 * i), int i + 1))
      else uvarint_from (Suc i) (x + unat b mod 128 * 2 ^ (7 * i)) bs)"

definition zigzag :: "int \<Rightarrow> nat" where
  "zigzag x = (if x < 0 then nat (- 2 * x - 1) else nat (2 * x))"

definition unzigzag :: "nat \<Rightarrow> int" where
  "unzigzag ux = (if ux mod 2 = 0 then int (ux div 2) else - int (ux div 2) - 1)"

definition PutVarint :: "bytes \<Rightarrow> int \<Rightarrow> bytes result" where
  "PutVarint buf x =
     (let enc = put_uvarint (zigzag x)
      in if length enc \<le> length buf then Inr (enc @ drop (length enc) buf)
         else Inl (Panic IndexOutOfRange))"

definition Varint :: "bytes \<Rightarrow> int \<times> int" where
  "Varint buf = (let (ux, n) = uvarint_from 0 0 buf in (unzigzag ux, n))"

subsection \<open>Application tokens\<close>

definition app_token :: "int \<Rightarrow> string result" where
  "app_token appID =
     rbind (PutVarint (replicate 8 0) appID) (\<lambda>buf. AesEncrypt buf AesKey)"

definition parseToken :: "string \<Rightarrow> int result" where
  "parseToken token =
     (case AesDecrypt token AesKey of
        Inl (Panic p) \<Rightarrow> Inl (Panic p)
      | Inl (Error e) \<Rightarrow> Inl (Error ErrInvalidToken)
      | Inr buf \<Rightarrow>
          (case Varint buf of (appID, n) \<Rightarrow>
             if n < 1 then Inl (Error (ErrBadToken token)) else Inr appID))"

subsection \<open>Project keys\<close>

definition padSecret :: "string \<Rightarrow> bytes" where
  "padSecret secret =
     bytes_of_string (secret @ str_repeat [CHR 0x00] (8 - length secret mod 8))"

text \<open>\<open>project.key\<close> at the time \<open>now\<close> (Unix nanoseconds).\<close>

definition project_key :: "string \<Rightarrow> int \<Rightarrow> int \<Rightarrow> string result" where
  "project_key secret now ident =
     (let s = show_hex ident @ ''.'' @ show_int now
      in case AesEncrypt (bytes_of_string s) (padSecret secret) of
           Inl (Panic p) \<Rightarrow> Inl (Panic p)
         | Inl (Error _) \<Rightarrow> Inr ''''
         | Inr key \<Rightarrow> Inr key)"

definition is_hex_digit :: "char \<Rightarrow> bool" where
  "is_hex_digit c = (case digit_val c of Some d \<Rightarrow> d < 16 | None \<Rightarrow> False)"

text \<open>
  \<open>fmt.Sscanf(s, "%x.", &id)\<close>: leading blanks, a sign, hexadecimal digits that fit 64 bits, and
  then a dot; anything after the dot is left alone.
\<close>

definition sscanf_hex_dot :: "string \<Rightarrow> int result" where
  "sscanf_hex_dot s =
     (let s1 = dropWhile (\<lambda>c. is_space c \<and> c \<noteq> CHR 0x0A) s;
          (sign, s2) = (case s1 of
               c # cs \<Rightarrow> if c = CHR ''+'' \<or> c = CHR ''-'' then ([c], cs) else ([], s1)
             | [] \<Rightarrow> ([], []));
          ds = takeWhile is_hex_digit s2;
          s3 = dropWhile is_hex_digit s2
      in if ds = [] then Inl (Error (ErrText ''expected integer''))
         else case parse_int 16 (sign @ ds) of (ident, ok) \<Rightarrow>
           if \<not> ok then Inl (Error (ErrText ''value out of range''))
           else if has_prefix s3 ''.'' then Inr ident
           else Inl (Error (ErrText ''input does not match format'')))"

definition parseProjectID :: "string \<Rightarrow> string \<Rightarrow> int result" where
  "parseProjectID secret key =
     rbind (AesDecrypt key (padSecret secret)) (\<lambda>buf. sscanf_hex_dot (string_of_bytes buf))"

section \<open>Padding and sealing\<close>

lemma string_of_bytes_of_string [simp]: "string_of_bytes (bytes_of_string s) = s"
  by (induction s)
    (simp_all add: string_of_bytes_def bytes_of_string_def byte_of_def unat_of_nat)

lemma length_bytes_of_string [simp]: "length (bytes_of_string s) = length s"
  by (simp add: bytes_of_string_def)

lemma unat_of_nat_byte: "n < 256 \<Longrightarrow> unat (of_nat n :: byte) = n"
  by (simp add: unat_of_nat)

lemma block_size_bounds [simp]: "0 < block_size" "block_size < 256"
  by (simp_all add: block_size_def)

lemma length_AesKey [simp]: "length AesKey = 16"
  by (simp add: AesKey_def)

lemma length_concat_replicate: "length (concat (replicate n [c])) = n"
  by (induction n) simp_all

lemma pad_to_multiple:
  assumes "0 < b"
  shows "n + (b - n mod b) = (n div b + 1) * (b :: nat)"
proof -
  define q r where "q = n div b" and "r = n mod b"
  then have "n = q * b + r" "r < b" using assms by simp_all
  then show ?thesis by (simp flip: q_def r_def)
qed

lemma length_PKCS5Padding:
  "0 < b \<Longrightarrow> length (PKCS5Padding p b) = (length p div b + 1) * b"
  by (simp only: PKCS5Padding_def Let_def length_append length_replicate pad_to_multiple)

lemma PKCS5UnPadding_PKCS5Padding:
  assumes "0 < b" "b < 256"
  shows "PKCS5UnPadding (PKCS5Padding p b) = Inr p"
proof -
  let ?k = "b - length p mod b"
  have k: "0 < ?k" "?k < 256" using assms by simp_all
  then have "last (PKCS5Padding p b) = of_nat ?k"
    by (simp add: PKCS5Padding_def Let_def)
  moreover have "unat (of_nat ?k :: byte) = ?k"
    using k(2) by (rule unat_of_nat_byte)
  moreover have "PKCS5Padding p b \<noteq> []" "length (PKCS5Padding p b) = length p + ?k"
    using k by (simp_all add: PKCS5Padding_def Let_def)
  ultimately show ?thesis
    by (simp add: PKCS5UnPadding_def Let_def) (simp add: PKCS5Padding_def Let_def)
qed

lemma NewCipher_ok: "length key \<in> {16, 24, 32} \<Longrightarrow> NewCipher key = Inr (expand_key key)"
  by (simp add: NewCipher_def)

lemma iv_ok:
  "length key \<in> {16, 24, 32} \<Longrightarrow> go_slice key 0 (int block_size) = Inr (take block_size key)"
  by (subst go_slice_ok) (auto simp: block_size_def)

lemma AesEncrypt_ok:
  assumes "length key \<in> {16, 24, 32}"
  shows "AesEncrypt p key = Inr (EncodeToString
           (cbc_enc (aes_encrypt (expand_key key)) (take block_size key)
             (PKCS5Padding p block_size)))"
  using assms
  by (simp add: AesEncrypt_def NewCipher_ok iv_ok crypt_blocks_def Let_def length_PKCS5Padding
      del: insert_iff)

lemma AesDecrypt_seal:
  assumes "length key \<in> {16, 24, 32}" "AesEncrypt p key = Inr s"
  shows "AesDecrypt s key = Inr p"
proof -
  let ?iv = "take block_size key" and ?m = "PKCS5Padding p block_size"
  have m: "length ?m mod block_size = 0" and iv: "length ?iv = block_size"
    using assms(1) by (auto simp: length_PKCS5Padding block_size_def)
  have s: "s = EncodeToString (cbc_enc (aes_encrypt (expand_key key)) ?iv ?m)"
    using assms by (simp add: AesEncrypt_ok)
  show ?thesis
    using assms(1) m aes.length_cbc_enc [OF iv m] aes.cbc_dec_enc [OF iv m]
    by (simp add: AesDecrypt_def s NewCipher_ok iv_ok crypt_blocks_def
        PKCS5UnPadding_PKCS5Padding del: insert_iff)
qed

text \<open>What opening does with a string that decodes from base64: only full blocks are deciphered,
  and the last byte is trusted as the length of the padding.\<close>

lemma length_aes_decrypt: "length (aes_decrypt ks b) = block_size"
  by (cases "inv_cipher ks (state_of b)")
    (auto simp: aes_decrypt_def block_size_def simp del: state_of.simps)

lemma length_cbc_dec:
  assumes "length iv = block_size" "length c mod block_size = 0"
  shows "length (cbc_dec (aes_decrypt ks) iv c) = length c"
  using assms
proof (induction c arbitrary: iv rule: measure_induct_rule [of length])
  case (less c)
  show ?case
  proof (cases "c = []")
    case False
    with less.prems(2) have 2: "block_size \<le> length c"
        "length (drop block_size c) mod block_size = 0"
      using aes.full_blocks_cases [of c] by simp_all
    then have "length (cbc_dec (aes_decrypt ks) (take block_size c) (drop block_size c))
        = length (drop block_size c)"
      by (intro less.IH) (auto simp: block_size_def)
    with 2 less.prems(1) show ?thesis
      by (simp add: cbc_dec.simps [of _ iv c] Let_def xor_bytes_def length_aes_decrypt)
  qed simp
qed

lemma go_slice_front:
  "go_slice xs 0 (int (length xs) - int n) =
     (if length xs < n then Inl (Panic IndexOutOfRange) else Inr (take (length xs - n) xs))"
  by (auto simp: go_slice_def nat_diff_distrib)

lemma PKCS5UnPadding_cons:
  assumes "0 < length d"
  shows "PKCS5UnPadding d =
           (if length d < unat (last d) then Inl (Panic IndexOutOfRange)
            else Inr (take (length d - unat (last d)) d))"
proof -
  have "\<not> length d \<le> 0" using assms by simp
  then show ?thesis by (simp only: PKCS5UnPadding_def Let_def go_slice_front if_False)
qed

lemma AesDecrypt_cases:
  assumes "length key \<in> {16, 24, 32}" "DecodeString s = Inr c"
    and d: "d = cbc_dec (aes_decrypt (expand_key key)) (take block_size key) c"
  shows "AesDecrypt s key =
           (if length c mod block_size \<noteq> 0 then Inl (Panic BadBlockSize)
            else if c = [] then Inl (Error (ErrText ''PKCS5Padding len(origData) <= 0 error''))
            else if length c < unat (last d) then Inl (Panic IndexOutOfRange)
            else Inr (take (length c - unat (last d)) d))"
proof -
  have iv: "length (take block_size key) = block_size"
    using assms(1) by (auto simp: block_size_def)
  have dec: "AesDecrypt s key = rbind (crypt_blocks (\<lambda>_. d) c) PKCS5UnPadding"
    using assms by (simp add: AesDecrypt_def NewCipher_ok iv_ok crypt_blocks_def del: insert_iff)
  show ?thesis
  proof (cases "length c mod block_size = 0")
    case True
    then have len: "length d = length c"
      using length_cbc_dec [OF iv] d by simp
    show ?thesis
    proof (cases "c = []")
      case True
      with len show ?thesis by (simp add: dec crypt_blocks_def PKCS5UnPadding_def)
    next
      case False
      with len have "0 < length d" by simp
      note PKCS5UnPadding_cons [OF this]
      with \<open>length c mod block_size = 0\<close> len False show ?thesis
        by (simp only: dec crypt_blocks_def rbind_simps if_True if_False simp_thms)
    qed
  qed (simp add: dec crypt_blocks_def)
qed

section \<open>Varints\<close>

declare put_uvarint.simps [simp del]

lemma length_put_uvarint: "length (put_uvarint x) \<le> Suc n \<longleftrightarrow> x < 128 ^ Suc n"
proof (induction n arbitrary: x)
  case 0
  show ?case by (simp add: put_uvarint.simps [of x] put_uvarint.simps [of "x div 128"])
next
  case (Suc n)
  have "x < 128 ^ Suc (Suc n)" if "x < 128"
    using that self_le_power [of "128 :: nat" "Suc (Suc n)"] by linarith
  then show ?case
    using Suc [of "x div 128"]
    by (simp add: put_uvarint.simps [of x] div_less_iff_less_mult)
qed

lemma uvarint_put_uvarint:
  assumes "i \<le> 9" "n * 2 ^ (7 * i) < 2 ^ 64"
  shows "uvarint_from i x (put_uvarint n @ rest) =
           (x + n * 2 ^ (7 * i), int i + int (length (put_uvarint n)))"
  using assms
proof (induction n arbitrary: i x rule: put_uvarint.induct)
  case (1 n)
  show ?case
  proof (cases "n < 128")
    case True
    have "n \<le> 1" if "i = 9" using that 1(3) by simp
    with True 1(2) show ?thesis
      by (auto simp: put_uvarint.simps [of n] unat_of_nat_byte)
  next
    case False
    have "n div 128 * 2 ^ (7 * Suc i) \<le> n * 2 ^ (7 * i)"
      using mult_le_mono1 [OF div_times_less_eq_dividend [of n 128], of "2 ^ (7 * i)"]
      by (simp add: power_add ac_simps)
    then have b: "n div 128 * 2 ^ (7 * Suc i) < 2 ^ 64"
      using 1(3) by linarith
    have "Suc i \<le> 9"
    proof (rule ccontr)
      assume "\<not> ?thesis"
      with 1(2) have "i = 9" by simp
      with False 1(3) show False by simp
    qed
    note IH = 1(1) [OF False this b, of "x + n mod 128 * 2 ^ (7 * i)"]
    have "n mod 128 * 2 ^ (7 * i) + n div 128 * 2 ^ (7 * Suc i) = n * 2 ^ (7 * i)"
    proof -
      have "n mod 128 * k + n div 128 * (128 * k) = n * k" for k
        using arg_cong [OF mod_mult_div_eq [of n 128], of "\<lambda>m. m * k"]
        by (simp only: distrib_left distrib_right mult.assoc mult.left_commute mult.commute)
      from this [of "2 ^ (7 * i)"] show ?thesis by (simp add: power_add)
    qed
    moreover have "put_uvarint n = of_nat (n mod 128 + 128) # put_uvarint (n div 128)"
      using False by (simp add: put_uvarint.simps [of n])
    moreover have "unat (of_nat (n mod 128 + 128) :: byte) = n mod 128 + 128"
      by (rule unat_of_nat_byte) (simp add: mod_less_divisor [THEN less_trans])
    ultimately show ?thesis using IH by simp
  qed
qed

lemma uvarint_bound:
  assumes "uvarint_from i x bs = (v, n)" "0 < n" "x < 2 ^ (7 * i)"
  shows "v < 2 ^ 64"
  using assms
proof (induction i x bs rule: uvarint_from.induct)
  case (2 i x b bs)
  show ?case
  proof (cases "unat b < 128")
    case True
    with 2(2,3) have i: "i \<le> 9" "i = 9 \<longrightarrow> unat b \<le> 1" and v: "v = x + unat b * 2 ^ (7 * i)"
      by (auto split: if_splits)
    from 2(4) v have "v < (unat b + 1) * 2 ^ (7 * i)" by simp
    also have "(unat b + 1) * 2 ^ (7 * i) \<le> (2 :: nat) ^ 64"
    proof (cases "i = 9")
      case False
      with i have "(2 :: nat) ^ (7 * i) \<le> 2 ^ 56" by (intro power_increasing) simp_all
      with True have "(unat b + 1) * 2 ^ (7 * i) \<le> 128 * (2 :: nat) ^ 56"
        by (intro mult_le_mono) simp_all
      then show ?thesis by simp
    qed (use i in simp)
    finally show ?thesis .
  next
    case False
    have "x + unat b mod 128 * 2 ^ (7 * i) < (unat b mod 128 + 1) * 2 ^ (7 * i)"
      using 2(4) by simp
    also have "\<dots> \<le> 128 * 2 ^ (7 * i)" by (intro mult_le_mono1) (simp add: Suc_leI)
    also have "\<dots> = 2 ^ (7 * Suc i)" by (simp add: power_add)
    finally show ?thesis using 2(1) [OF False] 2(2,3) False by simp
  qed
qed simp

lemma unzigzag_zigzag [simp]: "unzigzag (zigzag x) = x"
proof (cases "x < 0")
  case True
  then have "nat (- 2 * x - 1) = 2 * nat (- x - 1) + 1" by linarith
  with True show ?thesis by (simp add: zigzag_def unzigzag_def)
next
  case False
  then have "nat (2 * x) = 2 * nat x" by linarith
  with False show ?thesis by (simp add: zigzag_def unzigzag_def)
qed

lemma zigzag_less: "zigzag x < 2 * k \<longleftrightarrow> - int k \<le> x \<and> x < int k"
  by (auto simp: zigzag_def)

lemma Varint_PutVarint:
  assumes "in_int64 x" "PutVarint buf x = Inr bs"
  shows "Varint bs = (x, int (length (put_uvarint (zigzag x))))"
proof -
  have "zigzag x < 2 ^ 64"
    using assms(1) zigzag_less [of x "2 ^ 63"] by (simp add: in_int64_def int64_min_def int64_max_def)
  with assms(2) show ?thesis
    using uvarint_put_uvarint [of 0 "zigzag x" 0]
    by (auto simp: PutVarint_def Varint_def Let_def split: if_splits)
qed

lemma put_uvarint_not_Nil [simp]: "put_uvarint x \<noteq> []"
  by (simp add: put_uvarint.simps [of x])

lemma length_put_zigzag:
  "length (put_uvarint (zigzag x)) \<le> 8 \<longleftrightarrow> - (2 ^ 55) \<le> x \<and> x < 2 ^ 55"
  using length_put_uvarint [of "zigzag x" 7] zigzag_less [of x "2 ^ 55"]
  by simp

section \<open>Application tokens\<close>

lemma PutVarint_8:
  "PutVarint (replicate 8 0) x =
     (if - (2 ^ 55) \<le> x \<and> x < 2 ^ 55
      then Inr (put_uvarint (zigzag x) @ drop (length (put_uvarint (zigzag x))) (replicate 8 0))
      else Inl (Panic IndexOutOfRange))"
  by (simp only: PutVarint_def Let_def length_replicate length_put_zigzag)

lemma int55_in_int64: "- (2 ^ 55) \<le> x \<Longrightarrow> x < 2 ^ 55 \<Longrightarrow> in_int64 x"
  by (simp add: in_int64_def int64_min_def int64_max_def)

lemma app_token_opens:
  assumes "- (2 ^ 55) \<le> x" "x < 2 ^ 55"
  shows "\<exists>t. app_token x = Inr t \<and> parseToken t = Inr x"
proof -
  obtain buf where buf: "PutVarint (replicate 8 0) x = Inr buf"
    using assms by (simp add: PutVarint_8)
  have key: "length AesKey \<in> {16, 24, 32}" by simp
  obtain t where t: "AesEncrypt buf AesKey = Inr t"
    using AesEncrypt_ok [OF key] by blast
  have "Varint buf = (x, int (length (put_uvarint (zigzag x))))"
    using int55_in_int64 [OF assms] buf by (rule Varint_PutVarint)
  then have "parseToken t = Inr x"
    using AesDecrypt_seal [OF key t] by (simp add: parseToken_def Suc_leI)
  with buf t show ?thesis by (auto simp: app_token_def)
qed

lemma app_token_panics:
  "\<not> (- (2 ^ 55) \<le> x \<and> x < 2 ^ 55) \<Longrightarrow> app_token x = Inl (Panic IndexOutOfRange)"
  by (simp only: app_token_def PutVarint_8 if_False rbind_simps)

section \<open>Project keys\<close>

lemma length_padSecret: "length (padSecret s) = (length s div 8 + 1) * 8"
  using pad_to_multiple [of 8 "length s"]
  by (simp only: padSecret_def str_repeat_def length_bytes_of_string length_append
      length_concat_replicate)

lemma padSecret_key:
  "length (padSecret s) \<in> {16, 24, 32} \<longleftrightarrow> 8 \<le> length s \<and> length s < 32"
proof -
  have "length (padSecret s) \<in> {16, 24, 32} \<longleftrightarrow> length s div 8 \<in> {1, 2, 3}"
    by (simp only: length_padSecret) auto
  also have "\<dots> \<longleftrightarrow> 8 \<le> length s \<and> length s < 32" by auto
  finally show ?thesis .
qed

lemma show_base_hex: "c \<in> set (show_base 16 n) \<Longrightarrow> is_hex_digit c"
  using show_base_digits [of 16 c n] by (auto simp: is_hex_digit_def digit_char_val)

lemma hex_digit_facts:
  "is_hex_digit c \<Longrightarrow> \<not> is_space c" "\<not> is_hex_digit CHR ''.''"
  "is_hex_digit c \<Longrightarrow> c \<noteq> CHR ''+'' \<and> c \<noteq> CHR ''-''"
  by (auto simp: is_hex_digit_def is_space_def digit_val_def)

lemma parse_int_show_hex:
  assumes "in_int64 x"
  shows "parse_int 16 (show_hex x) = (x, True)"
proof (cases "x < 0")
  case True
  with assms show ?thesis
    by (simp add: parse_int_def show_hex_def in_int64_def int64_max_def)
next
  case False
  with assms show ?thesis
    by (simp add: show_hex_def in_int64_def parse_int_show_nat)
qed

lemma sscanf_show_hex:
  assumes "in_int64 x"
  shows "sscanf_hex_dot (show_hex x @ CHR ''.'' # rest) = Inr x"
proof -
  have hex: "takeWhile is_hex_digit (show_base 16 n @ CHR ''.'' # rest) = show_base 16 n"
    "dropWhile is_hex_digit (show_base 16 n @ CHR ''.'' # rest) = CHR ''.'' # rest" for n
    by (simp_all add: takeWhile_append2 dropWhile_append2 show_base_hex hex_digit_facts)
  show ?thesis
  proof (cases "x < 0")
    case True
    with parse_int_show_hex [OF assms] hex show ?thesis
      by (simp add: sscanf_hex_dot_def show_hex_def is_space_def has_prefix_def)
  next
    case False
    obtain c cs where s: "show_base 16 (nat x) = c # cs"
      using show_base_not_Nil [of 16 "nat x"] by (cases "show_base 16 (nat x)") auto
    then have "is_hex_digit c" using show_base_hex [of c "nat x"] by simp
    with False s parse_int_show_hex [OF assms] hex [of "nat x"] show ?thesis
      using hex_digit_facts(1,3) [of c]
      by (simp add: sscanf_hex_dot_def show_hex_def has_prefix_def)
  qed
qed

lemma project_key_opens:
  assumes "8 \<le> length secret" "length secret < 32" "in_int64 x"
  shows "\<exists>k. project_key secret now x = Inr k \<and> parseProjectID secret k = Inr x"
proof -
  have key: "length (padSecret secret) \<in> {16, 24, 32}"
    using assms by (simp only: padSecret_key)
  let ?s = "show_hex x @ ''.'' @ show_int now"
  obtain k where k: "AesEncrypt (bytes_of_string ?s) (padSecret secret) = Inr k"
    using AesEncrypt_ok [OF key] by blast
  have "sscanf_hex_dot ?s = Inr x"
    using sscanf_show_hex [OF assms(3)] by simp
  then have "parseProjectID secret k = Inr x"
    using AesDecrypt_seal [OF key k] by (simp add: parseProjectID_def)
  with k show ?thesis by (simp add: project_key_def Let_def)
qed

section \<open>Properties\<close>

text \<open>C5: for every AES key length, opening a sealed byte string with the key it was sealed under
  returns the byte string, whatever its length; sealing succeeds.\<close>

theorem AesDecrypt_AesEncrypt:
  assumes "length key \<in> {16, 24, 32}"
  shows "\<exists>s. AesEncrypt p key = Inr s \<and> AesDecrypt s key = Inr p"
  using AesEncrypt_ok [OF assms] AesDecrypt_seal [OF assms] by blast

theorem AesDecrypt_AesEncrypt_witness:
  "\<exists>s. AesEncrypt [1, 2, 3] AesKey = Inr s \<and> AesDecrypt s AesKey = Inr [1, 2, 3]"
  by (rule AesDecrypt_AesEncrypt) simp

text \<open>C2: the token handed out for an application id names exactly that id when it comes back:
  for every id that fits the eight-byte buffer the token is issued and \<open>parseToken\<close> reads the
  id from it, so two applications never share a token.\<close>

theorem parseToken_app_token:
  assumes "- (2 ^ 55) \<le> x" "x < 2 ^ 55"
  shows "\<exists>t. app_token x = Inr t \<and> parseToken t = Inr x \<and> (\<forall>y. app_token y = Inr t \<longrightarrow> y = x)"
proof -
  obtain t where t: "app_token x = Inr t" "parseToken t = Inr x"
    using app_token_opens [OF assms] by blast
  have "y = x" if y: "app_token y = Inr t" for y
  proof -
    have "- (2 ^ 55) \<le> y \<and> y < 2 ^ 55"
      using app_token_panics [of y] y by (metis Inl_Inr_False)
    then show "y = x"
      using app_token_opens [of y] y t(2) by auto
  qed
  with t show ?thesis by blast
qed

theorem parseToken_app_token_witness:
  "\<exists>t. app_token 42 = Inr t \<and> parseToken t = Inr 42 \<and> (\<forall>y. app_token y = Inr t \<longrightarrow> y = 42)"
  by (rule parseToken_app_token) simp_all

text \<open>C36: issuing a token never fails with an error; it panics exactly for the ids whose varint
  does not fit the eight-byte buffer.\<close>

theorem app_token_outcome:
  "(\<exists>t. app_token x = Inr t) = (- (2 ^ 55) \<le> x \<and> x < 2 ^ 55) \<and>
   (app_token x = Inl (Panic IndexOutOfRange)) = (x < - (2 ^ 55) \<or> 2 ^ 55 \<le> x)"
proof (cases "- (2 ^ 55) \<le> x \<and> x < 2 ^ 55")
  case True
  then obtain t where "app_token x = Inr t" using app_token_opens [of x] by blast
  with True show ?thesis by auto
next
  case False
  then show ?thesis using app_token_panics [OF False] by auto
qed

text \<open>C21: a token from the network can crash the request that carries it.  \<open>parseToken\<close> panics
  exactly when the token is valid base64 of a byte string that is not a whole number of AES
  blocks, or whose deciphered last byte exceeds its length; all other tokens return.\<close>

theorem parseToken_panics_iff:
  "(\<exists>p. parseToken t = Inl (Panic p)) =
     (\<exists>c. DecodeString t = Inr c \<and>
        (0 < length c mod 16 \<or>
         c \<noteq> [] \<and>
         length c < unat (last (cbc_dec (aes_decrypt (expand_key AesKey)) AesKey c))))"
proof (cases "DecodeString t")
  case (Inl e)
  then have "\<exists>m. e = Error m"
    by (auto simp: DecodeString_def split: option.splits)
  with Inl show ?thesis by (auto simp: parseToken_def AesDecrypt_def)
next
  case (Inr c)
  have iv: "take block_size AesKey = AesKey" by (simp add: block_size_def)
  note cases = AesDecrypt_cases [of AesKey, OF _ Inr refl, unfolded iv]
  show ?thesis
    by (simp add: parseToken_def cases Inr block_size_def split: prod.split)
qed

text \<open>C23: a distribution key names its project: with a secret of 8 to 31 bytes the key issued
  for a project at any time opens to the project's id; any other secret length issues the
  empty key.\<close>

theorem parseProjectID_project_key:
  assumes "in_int64 x"
  shows "if 8 \<le> length secret \<and> length secret < 32
         then \<exists>k. project_key secret now x = Inr k \<and> parseProjectID secret k = Inr x
         else project_key secret now x = Inr ''''"
proof (cases "8 \<le> length secret \<and> length secret < 32")
  case True
  with project_key_opens [OF _ _ assms] show ?thesis by simp
next
  case False
  then have "length (padSecret secret) \<notin> {16, 24, 32}"
    by (simp only: padSecret_key not_False_eq_True)
  then have "NewCipher (padSecret secret) = Inl (Error (ErrText ''crypto/aes: invalid key size''))"
    by (simp only: NewCipher_def if_False)
  then have "project_key secret now x = Inr []"
    by (simp add: project_key_def AesEncrypt_def)
  with False show ?thesis by (simp only: if_False)
qed

theorem parseProjectID_project_key_witness:
  "\<exists>k. project_key ''0123456789'' 1500000000 255 = Inr k \<and> parseProjectID ''0123456789'' k = Inr 255"
  using parseProjectID_project_key [of 255 "''0123456789''" 1500000000]
  by (simp add: in_int64_def int64_min_def int64_max_def)

end
