(* ===== verification/Cache.thy ===== *)
theory Cache
  imports Go_Prelude
begin

text \<open>
  The expiring cache of \<open>src/_vendor/github.com/dearcode/crab/cache/cache.go\<close>, which the
  repeater keeps in front of its database.  The code holds one pointer to an entry in the map
  and one in the list, so the entries live in a store and both hold addresses.  \<open>now\<close> is the
  clock reading \<open>time.Now().Unix()\<close> of the operation.  The locale \<open>timed_cache\<close> is what the
  repeater relies on: a map whose entries disappear \<open>timeout\<close> seconds after their key was
  first added.
\<close>

section \<open>Definitions\<close>

record 'v cacheEntry =
  e_key :: string
  e_last :: int
  e_val :: 'v

record 'v Cache =
  timeout :: int
  vars :: "string \<rightharpoonup> nat"
  ll :: "nat list"
  store :: "nat \<rightharpoonup> 'v cacheEntry"
  fresh :: nat

definition NewCache :: "int \<Rightarrow> 'v Cache" where
  "NewCache t = \<lparr>timeout = t, vars = Map.empty, ll = [], store = Map.empty, fresh = 0\<rparr>"

text \<open>The loop of \<open>evict\<close>: the back of the list goes until an entry is younger than \<open>lim\<close>.\<close>

function evict_loop :: "int \<Rightarrow> 'v Cache \<Rightarrow> 'v Cache" where
  "evict_loop lim c =
     (if ll c = [] then c
      else case store c (last (ll c)) of
        None \<Rightarrow> c
      | Some e \<Rightarrow>
          if lim < e_last e then c
          else evict_loop lim (c\<lparr>ll := butlast (ll c), vars := (vars c)(e_key e := None)\<rparr>))"
  by pat_completeness auto
termination
  by (relation "measure (\<lambda>(_, c). length (ll c))") auto

definition evict :: "int \<Rightarrow> 'v Cache \<Rightarrow> 'v Cache" where
  "evict now c = evict_loop (now - timeout c) c"

definition Get :: "int \<Rightarrow> string \<Rightarrow> 'v Cache \<Rightarrow> 'v option \<times> 'v Cache" where
  "Get now k c =
     (let c1 = evict now c
      in (map_option e_val (Option.bind (vars c1 k) (store c1)), c1))"

definition Add :: "int \<Rightarrow> string \<Rightarrow> 'v \<Rightarrow> 'v Cache \<Rightarrow> 'v Cache" where
  "Add now k v c =
     (case vars c k of
        Some a \<Rightarrow> c\<lparr>store := (store c)(a := map_option (e_val_update (\<lambda>_. v)) (store c a))\<rparr>
      | None \<Rightarrow>
          c\<lparr>store := (store c)(fresh c \<mapsto> \<lparr>e_key = k, e_last = now, e_val = v\<rparr>),
            ll := fresh c # ll c, vars := (vars c)(k \<mapsto> fresh c), fresh := Suc (fresh c)\<rparr>)"

text \<open>The contents as a map, and the representation invariant at the clock reading \<open>now\<close>: the
  map and the list hold the same entries, newest first.\<close>

definition contents :: "'v Cache \<Rightarrow> string \<rightharpoonup> 'v \<times> int" where
  "contents c k =
     map_option (\<lambda>e. (e_val e, e_last e)) (Option.bind (vars c k) (store c))"

definition cache_ok :: "int \<Rightarrow> 'v Cache \<Rightarrow> bool" where
  "cache_ok now c \<longleftrightarrow>
     distinct (ll c) \<and>
     (\<forall>a \<in> set (ll c). a < fresh c \<and>
        (\<exists>e. store c a = Some e \<and> vars c (e_key e) = Some a \<and> e_last e \<le> now)) \<and>
     (\<forall>k a. vars c k = Some a \<longrightarrow> a \<in> set (ll c) \<and> (\<exists>e. store c a = Some e \<and> e_key e = k)) \<and>
     sorted (map (\<lambda>a. e_last (the (store c a))) (rev (ll c)))"

text \<open>A use of the cache: the times, keys and values of its calls, and the answers of the
  lookups, by the code and by a map that drops what is too old.\<close>

datatype 'v cacheOp = OpGet int string | OpAdd int string 'v

fun op_time :: "'v cacheOp \<Rightarrow> int" where
  "op_time (OpGet t k) = t"
| "op_time (OpAdd t k v) = t"

fun run_cache :: "'v cacheOp list \<Rightarrow> 'v Cache \<Rightarrow> 'v option list" where
  "run_cache [] c = []"
| "run_cache (OpGet t k # ops) c = (case Get t k c of (r, c1) \<Rightarrow> r # run_cache ops c1)"
| "run_cache (OpAdd t k v # ops) c = run_cache ops (Add t k v c)"

definition young :: "int \<Rightarrow> (string \<rightharpoonup> 'v \<times> int) \<Rightarrow> (string \<rightharpoonup> 'v \<times> int)" where
  "young lim m k = (case m k of Some (v, t) \<Rightarrow> if lim < t then Some (v, t) else None | None \<Rightarrow> None)"

fun run_map :: "int \<Rightarrow> 'v cacheOp list \<Rightarrow> (string \<rightharpoonup> 'v \<times> int) \<Rightarrow> 'v option list" where
  "run_map lim [] m = []"
| "run_map lim (OpGet t k # ops) m =
     map_option fst (young (t - lim) m k) # run_map lim ops (young (t - lim) m)"
| "run_map lim (OpAdd t k v # ops) m =
     run_map lim ops (m(k \<mapsto> (v, case m k of Some (_, t0) \<Rightarrow> t0 | None \<Rightarrow> t)))"

section \<open>The interface\<close>

locale timed_cache =
  fixes get :: "int \<Rightarrow> string \<Rightarrow> 'c \<Rightarrow> 'v option \<times> 'c"
    and add :: "int \<Rightarrow> string \<Rightarrow> 'v \<Rightarrow> 'c \<Rightarrow> 'c"
    and limit :: "'c \<Rightarrow> int"
    and abs :: "'c \<Rightarrow> string \<rightharpoonup> 'v \<times> int"
    and ok :: "int \<Rightarrow> 'c \<Rightarrow> bool"
  assumes get_abs: "ok now c \<Longrightarrow> abs (snd (get now k c)) = young (now - limit c) (abs c)"
    and get_result: "ok now c \<Longrightarrow> fst (get now k c) = map_option fst (abs (snd (get now k c)) k)"
    and get_ok: "ok now c \<Longrightarrow> ok now (snd (get now k c))"
    and get_limit: "limit (snd (get now k c)) = limit c"
    and add_abs: "ok now c \<Longrightarrow> abs (add now k v c) =
      (abs c)(k \<mapsto> (v, case abs c k of Some (_, t) \<Rightarrow> t | None \<Rightarrow> now))"
    and add_ok: "ok now c \<Longrightarrow> ok now (add now k v c)"
    and add_limit: "limit (add now k v c) = limit c"
    and later_ok: "ok now c \<Longrightarrow> now \<le> now' \<Longrightarrow> ok now' c"
    and abs_time: "ok now c \<Longrightarrow> abs c k = Some (v, t) \<Longrightarrow> t \<le> now"
begin

definition supported :: "(string \<Rightarrow> 'v \<Rightarrow> int \<Rightarrow> bool) \<Rightarrow> 'c \<Rightarrow> bool" where
  "supported Q c \<longleftrightarrow> (\<forall>k v t. abs c k = Some (v, t) \<longrightarrow> Q k v t)"

text \<open>A client's knowledge \<open>Q\<close> about the entries survives every operation, and a hit is backed
  by an entry younger than the timeout.\<close>

lemma supported_get:
  "ok now c \<Longrightarrow> supported Q c \<Longrightarrow> supported Q (snd (get now k c))"
  by (auto simp: supported_def get_abs young_def split: option.splits if_splits)

lemma get_hit:
  assumes "ok now c" "supported Q c" "get now k c = (Some v, c')"
  shows "\<exists>t. now - limit c < t \<and> t \<le> now \<and> Q k v t"
proof -
  have "abs c' = young (now - limit c) (abs c)" "map_option fst (abs c' k) = Some v"
    using get_abs [OF assms(1), of k] get_result [OF assms(1), of k] assms(3) by simp_all
  then obtain t where "abs c k = Some (v, t)" "now - limit c < t"
    by (auto simp: young_def split: option.splits if_splits)
  with assms(1,2) show ?thesis
    by (auto simp: supported_def dest: abs_time)
qed

lemma supported_add:
  assumes "ok now c" "supported Q c" "\<And>t. t \<le> now \<Longrightarrow> Q k v t"
  shows "supported Q (add now k v c)"
  using assms
  by (auto simp: supported_def add_abs split: option.splits dest: abs_time)

lemma supported_mono:
  "supported Q c \<Longrightarrow> (\<And>k v t. Q k v t \<Longrightarrow> R k v t) \<Longrightarrow> supported R c"
  by (auto simp: supported_def)

text \<open>What has just been added is found for as long as the timeout allows.\<close>

lemma get_after_add:
  assumes "ok now c" "now \<le> now'" "abs c k = None"
  shows "fst (get now' k (add now k v c)) = (if now' < now + limit c then Some v else None)"
proof -
  have ok: "ok now' (add now k v c)"
    using assms by (blast intro: add_ok later_ok)
  show ?thesis
    using assms(1,3)
    by (simp add: get_result [OF ok] get_abs [OF ok] young_def add_abs add_limit)
qed

end

section \<open>The code implements the interface\<close>

declare evict_loop.simps [simp del]

lemma cache_ok_listed:
  "cache_ok now c \<Longrightarrow> contents c k = Some (v, t) \<longleftrightarrow>
     (\<exists>a \<in> set (ll c). \<exists>e. store c a = Some e \<and> e_key e = k \<and> e_val e = v \<and> e_last e = t)"
  by (fastforce simp: cache_ok_def contents_def bind_eq_Some_conv)

lemma evict_step:
  assumes ok: "cache_ok now c" and ll: "ll c = xs @ [a]" and e: "store c a = Some e"
  defines "c' \<equiv> c\<lparr>ll := butlast (ll c), vars := (vars c)(e_key e := None)\<rparr>"
  shows "cache_ok now c'" "contents c' = (contents c)(e_key e := None)"
proof -
  have a: "vars c (e_key e) = Some a" "a \<notin> set xs" "distinct xs"
    using ok e by (auto simp: cache_ok_def ll)
  have xs: "\<forall>b \<in> set xs. b < fresh c \<and>
      (\<exists>d. store c b = Some d \<and> vars c (e_key d) = Some b \<and> e_last d \<le> now)"
    using ok by (simp add: cache_ok_def ll)
  then have "\<forall>b \<in> set xs. \<exists>d. store c b = Some d \<and> e_key d \<noteq> e_key e"
    using a by (metis option.inject)
  with ok xs a e show "cache_ok now c'"
    by (fastforce simp: cache_ok_def c'_def ll)
  show "contents c' = (contents c)(e_key e := None)"
    by (rule ext) (simp add: contents_def c'_def)
qed

lemma young_all:
  assumes ok: "cache_ok now c" and ll: "ll c = xs @ [a]" and e: "store c a = Some e"
    and lim: "lim < e_last e"
  shows "young lim (contents c) = contents c"
proof (rule ext)
  fix k
  have "e_last e \<le> e_last d" if "b \<in> set (ll c)" "store c b = Some d" for b d
    using ok e that by (auto simp: cache_ok_def ll)
  then show "young lim (contents c) k = contents c k"
    using lim cache_ok_listed [OF ok, of k]
    by (force simp: young_def split: option.splits)
qed

lemma young_removed:
  assumes "cache_ok now c" "a \<in> set (ll c)" "store c a = Some e" "\<not> lim < e_last e"
  shows "young lim ((contents c)(e_key e := None)) = young lim (contents c)"
proof (rule ext)
  fix k
  have "contents c (e_key e) = Some (e_val e, e_last e)"
    using cache_ok_listed [OF assms(1), of "e_key e" "e_val e" "e_last e"] assms(2,3) by blast
  then show "young lim ((contents c)(e_key e := None)) k = young lim (contents c) k"
    using assms(4) by (simp add: young_def)
qed

lemma evict_loop_spec:
  "cache_ok now c \<Longrightarrow> cache_ok now (evict_loop lim c) \<and>
     contents (evict_loop lim c) = young lim (contents c)"
proof (induction lim c rule: evict_loop.induct)
  case (1 lim c)
  show ?case
  proof (cases "ll c" rule: rev_cases)
    case Nil
    then have "contents c = Map.empty"
      using cache_ok_listed [OF 1(2)] by (metis empty_iff list.set(1) option.exhaust surj_pair)
    with 1(2) Nil show ?thesis
      by (simp add: evict_loop.simps [of lim c] young_def fun_eq_iff)
  next
    case (snoc xs a)
    then obtain e where e: "store c a = Some e"
      using 1(2) by (auto simp: cache_ok_def)
    show ?thesis
    proof (cases "lim < e_last e")
      case True
      with 1(2) snoc e young_all [OF 1(2) snoc e True] show ?thesis
        by (simp add: evict_loop.simps [of lim c])
    next
      case False
      let ?c = "c\<lparr>ll := butlast (ll c), vars := (vars c)(e_key e := None)\<rparr>"
      have step: "evict_loop lim c = evict_loop lim ?c"
        using snoc e False by (simp add: evict_loop.simps [of lim c])
      have "cache_ok now (evict_loop lim ?c) \<and> contents (evict_loop lim ?c) = young lim (contents ?c)"
        using 1(1) [OF _ _ False evict_step(1) [OF 1(2) snoc e]] snoc e by simp
      moreover have "young lim (contents ?c) = young lim (contents c)"
        using young_removed [OF 1(2) _ e False] evict_step(2) [OF 1(2) snoc e] snoc by simp
      ultimately show ?thesis by (simp only: step)
    qed
  qed
qed

lemma evict_loop_timeout [simp]: "timeout (evict_loop lim c) = timeout c"
  by (induction lim c rule: evict_loop.induct)
    (subst evict_loop.simps, auto split: option.splits)

lemma cache_ok_listedE:
  assumes "cache_ok now c" "a \<in> set (ll c)"
  obtains e where "store c a = Some e" "vars c (e_key e) = Some a" "e_last e \<le> now" "a < fresh c"
  using assms unfolding cache_ok_def by blast

lemma cache_ok_mappedE:
  assumes "cache_ok now c" "vars c k = Some a"
  obtains e where "store c a = Some e" "e_key e = k" "a \<in> set (ll c)"
  using assms unfolding cache_ok_def by blast

lemma cache_ok_fresh:
  assumes "cache_ok now c"
  shows "fresh c \<notin> set (ll c)" "vars c k \<noteq> Some (fresh c)"
  using assms by (auto elim: cache_ok_listedE cache_ok_mappedE simp: cache_ok_def)

lemma cache_ok_Add_new:
  assumes ok: "cache_ok now c" and None: "vars c k = None"
  shows "cache_ok now (Add now k v c)"
  unfolding cache_ok_def
proof (intro conjI ballI allI impI)
  let ?c = "Add now k v c" and ?e = "\<lparr>e_key = k, e_last = now, e_val = v\<rparr>"
  have c: "ll ?c = fresh c # ll c" "vars ?c = (vars c)(k \<mapsto> fresh c)"
    "store ?c = (store c)(fresh c \<mapsto> ?e)" "fresh ?c = Suc (fresh c)"
    using None by (simp_all add: Add_def)
  show "distinct (ll ?c)"
    using ok cache_ok_fresh [OF ok] by (simp add: c cache_ok_def)
  show "\<exists>e. store ?c a = Some e \<and> vars ?c (e_key e) = Some a \<and> e_last e \<le> now"
    "a < fresh ?c" if a: "a \<in> set (ll ?c)" for a
  proof -
    show "a < fresh ?c"
      using a ok by (auto simp: c less_Suc_eq elim: cache_ok_listedE)
    show "\<exists>e. store ?c a = Some e \<and> vars ?c (e_key e) = Some a \<and> e_last e \<le> now"
    proof (cases "a = fresh c")
      case False
      with a obtain e where e: "store c a = Some e" "vars c (e_key e) = Some a" "e_last e \<le> now"
        using ok by (auto simp: c elim: cache_ok_listedE)
      then have "e_key e \<noteq> k" using None by auto
      with e False show ?thesis by (intro exI [of _ e]) (simp add: c)
    qed (simp add: c)
  qed
  show "a \<in> set (ll ?c)" "\<exists>e. store ?c a = Some e \<and> e_key e = k'" if "vars ?c k' = Some a" for k' a
    using that cache_ok_fresh(2) [OF ok, of k']
    by (auto simp: c split: if_splits elim: cache_ok_mappedE [OF ok])
  have "map (\<lambda>a. e_last (the (store ?c a))) (rev (ll ?c)) =
      map (\<lambda>a. e_last (the (store c a))) (rev (ll c)) @ [now]"
    using cache_ok_fresh(1) [OF ok] by (auto simp: c)
  moreover have "e_last (the (store c a)) \<le> now" if "a \<in> set (ll c)" for a
    using that ok by (auto elim: cache_ok_listedE)
  moreover have "sorted (map (\<lambda>a. e_last (the (store c a))) (rev (ll c)))"
    using ok by (simp add: cache_ok_def)
  ultimately show "sorted (map (\<lambda>a. e_last (the (store ?c a))) (rev (ll ?c)))"
    by (simp add: sorted_append)
qed

text \<open>Replacing the value of an entry leaves its key and its age, all the invariant reads.\<close>

lemma cache_ok_store:
  assumes ok: "cache_ok now c" and e: "store c a = Some e"
  shows "cache_ok now (c\<lparr>store := (store c)(a \<mapsto> e\<lparr>e_val := v\<rparr>)\<rparr>)" (is "cache_ok now ?c")
proof -
  have same: "(\<exists>d. store ?c b = Some d \<and> P (e_key d) (e_last d)) =
      (\<exists>d. store c b = Some d \<and> P (e_key d) (e_last d))" for b P
    using e by auto
  have "(\<lambda>b. e_last (the (store ?c b))) = (\<lambda>b. e_last (the (store c b)))"
    using e by (simp add: fun_eq_iff)
  then show ?thesis
    using ok same [of _ "\<lambda>k t. vars c k = Some b \<and> t \<le> now" for b] same [of _ "\<lambda>k t. k = l" for l]
    unfolding cache_ok_def by simp
qed

lemma cache_ok_Add:
  assumes "cache_ok now c"
  shows "cache_ok now (Add now k v c)"
proof (cases "vars c k")
  case None
  with assms show ?thesis by (rule cache_ok_Add_new)
next
  case (Some a)
  then obtain e where "store c a = Some e"
    using assms by (auto elim: cache_ok_mappedE)
  with cache_ok_store [OF assms this] Some show ?thesis by (simp add: Add_def)
qed

lemma contents_Add:
  assumes "cache_ok now c"
  shows "contents (Add now k v c) =
           (contents c)(k \<mapsto> (v, case contents c k of Some (_, t) \<Rightarrow> t | None \<Rightarrow> now))"
proof (rule ext)
  fix k'
  show "contents (Add now k v c) k' =
      ((contents c)(k \<mapsto> (v, case contents c k of Some (_, t) \<Rightarrow> t | None \<Rightarrow> now))) k'"
  proof (cases "vars c k")
    case None
    moreover have "vars c k' \<noteq> Some (fresh c)"
      using assms by (rule cache_ok_fresh)
    ultimately show ?thesis
      by (cases "vars c k'") (auto simp: contents_def Add_def)
  next
    case (Some a)
    then obtain e where "store c a = Some e"
      using assms by (auto elim: cache_ok_mappedE)
    moreover have "vars c k' \<noteq> Some a" if "k' \<noteq> k"
      using assms Some that unfolding cache_ok_def by (metis option.inject)
    ultimately show ?thesis
      using Some by (cases "vars c k'") (auto simp: contents_def Add_def)
  qed
qed

lemma Add_timeout [simp]: "timeout (Add now k v c) = timeout c"
  by (simp add: Add_def split: option.split)

interpretation tc: timed_cache Get Add timeout contents cache_ok
proof
  show "contents (snd (Get now k c)) = young (now - timeout c) (contents c)"
    "cache_ok now (snd (Get now k c))"
    if "cache_ok now c" for now k and c :: "'v Cache"
    using evict_loop_spec [OF that] by (simp_all add: Get_def evict_def Let_def)
  show "fst (Get now k c) = map_option fst (contents (snd (Get now k c)) k)"
    for now k and c :: "'v Cache"
    by (simp add: Get_def Let_def contents_def option.map_comp comp_def)
  show "cache_ok now' c" if "cache_ok now c" "now \<le> now'" for now now' and c :: "'v Cache"
    using that by (fastforce simp: cache_ok_def)
  show "t \<le> now" if "cache_ok now c" "contents c k = Some (v, t)" for now c k t and v :: 'v
    using that cache_ok_listed [OF that(1), of k v t] by (auto simp: cache_ok_def)
qed (simp_all add: Get_def Let_def evict_def cache_ok_Add contents_Add)

lemma cache_ok_NewCache [simp]: "cache_ok now (NewCache t)"
  by (simp add: cache_ok_def NewCache_def)

lemma contents_NewCache [simp]: "contents (NewCache t) = Map.empty"
  by (rule ext) (simp add: contents_def NewCache_def)

lemma timeout_NewCache [simp]: "timeout (NewCache t) = t"
  by (simp add: NewCache_def)

lemma run_cache_run_map:
  assumes "cache_ok now c" "sorted (now # map op_time ops)"
  shows "run_cache ops c = run_map (timeout c) ops (contents c)"
  using assms
proof (induction ops arbitrary: now c)
  case (Cons op ops)
  have ok: "cache_ok (op_time op) c" and rest: "sorted (op_time op # map op_time ops)"
    using Cons.prems tc.later_ok by auto
  show ?case
  proof (cases op)
    case (OpGet t k)
    obtain r c1 where get: "Get t k c = (r, c1)" by force
    with ok OpGet have "cache_ok t c1" "timeout c1 = timeout c"
      "contents c1 = young (t - timeout c) (contents c)" "r = map_option fst (contents c1 k)"
      using tc.get_ok [of t c k] tc.get_limit [of t k c] tc.get_abs [of t c k]
        tc.get_result [of t c k] by simp_all
    with OpGet get rest Cons.IH [of t c1] show ?thesis by simp
  next
    case (OpAdd t k v)
    with ok rest Cons.IH [of t "Add t k v c"] show ?thesis
      by (simp add: tc.add_ok tc.add_abs fun_upd_def)
  qed
qed simp

section \<open>Properties\<close>



text \<open>C33: a value just added under a new key is returned by every lookup within the timeout and by
  none after it.\<close>

theorem cache_get_after_add:
  assumes "cache_ok now c" "contents c k = None" "now \<le> now'"
  shows "fst (Get now' k (Add now k v c)) = (if now' < now + timeout c then Some v else None)"
  using assms(1,3,2) by (rule tc.get_after_add)

theorem cache_get_after_add_witness:
  "fst (Get 9 ''k'' (Add 0 ''k'' (7 :: nat) (NewCache 10))) = Some 7 \<and>
   fst (Get 10 ''k'' (Add 0 ''k'' (7 :: nat) (NewCache 10))) = None"
  using cache_get_after_add [of 0 "NewCache 10 :: nat Cache" "''k''" 9 7]
    cache_get_after_add [of 0 "NewCache 10 :: nat Cache" "''k''" 10 7]
  by simp

end
