(* ===== verification/Json.thy ===== *)
theory Json
  imports Go_Prelude
begin

text \<open>
  \<open>encoding/json\<close> as far as the registry uses it: \<open>json.Marshal\<close> of a struct of strings and
  integers (\<open>src/meta/app.go\<close>) and the syntax that \<open>json.Unmarshal\<close> accepts
  (\<open>src/repeater/backend.go\<close>, \<open>src/distributor/watcher.go\<close>).  Strings are byte strings; bytes
  from 128 on are passed through, which is what both directions do with valid UTF-8.  The parser
  takes fuel for the nesting of values; \<open>parse_json\<close> gives it twice the length of the input, and
  at most two recursive calls pass before a character is consumed.
\<close>

section \<open>Definitions\<close>

datatype json =
    JNull
  | JBool bool
  | JNum string
  | JStr string
  | JArr "json list"
  | JObj "(string \<times> json) list"

subsection \<open>Printing\<close>

definition hex2 :: "nat \<Rightarrow> string" where
  "hex2 n = [digit_char (n div 16), digit_char (n mod 16)]"

definition escape_char :: "char \<Rightarrow> string" where
  "escape_char c =
     (let n = of_char c :: nat
      in if c = CHR 0x22 then [CHR 0x5C, CHR 0x22]
         else if c = CHR 0x5C then [CHR 0x5C, CHR 0x5C]
         else if c = CHR 0x0A then [CHR 0x5C, CHR ''n'']
         else if c = CHR 0x0D then [CHR 0x5C, CHR ''r'']
         else if c = CHR 0x09 then [CHR 0x5C, CHR ''t'']
         else if n < 32 \<or> c = CHR ''<'' \<or> c = CHR ''>'' \<or> c = CHR ''&''
         then [CHR 0x5C, CHR ''u'', CHR ''0'', CHR ''0''] @ hex2 n
         else [c])"

definition show_jstr :: "string \<Rightarrow> string" where
  "show_jstr s = CHR 0x22 # concat (map escape_char s) @ [CHR 0x22]"

fun show_json :: "json \<Rightarrow> string" where
  "show_json JNull = ''null''"
| "show_json (JBool b) = (if b then ''true'' else ''false'')"
| "show_json (JNum s) = s"
| "show_json (JStr s) = show_jstr s"
| "show_json (JArr js) = CHR ''['' # join '','' (map show_json js) @ '']''"
| "show_json (JObj ms) =
     CHR ''{'' # join '','' (map (\<lambda>(k, j). show_jstr k @ CHR '':'' # show_json j) ms) @ ''}''"

subsection \<open>Reading\<close>

definition skip_ws :: "string \<Rightarrow> string" where
  "skip_ws s = dropWhile (\<lambda>c. c = CHR '' '' \<or> c = CHR 0x09 \<or> c = CHR 0x0A \<or> c = CHR 0x0D) s"

definition utf8 :: "nat \<Rightarrow> string" where
  "utf8 u = map char_of
     (if u < 0x80 then [u]
      else if u < 0x800 then [0xC0 + u div 64, 0x80 + u mod 64]
      else if u < 0x10000 then [0xE0 + u div 4096, 0x80 + u div 64 mod 64, 0x80 + u mod 64]
      else [0xF0 + u div 262144, 0x80 + u div 4096 mod 64, 0x80 + u div 64 mod 64, 0x80 + u mod 64])"

definition hex4 :: "string \<Rightarrow> (nat \<times> string) option" where
  "hex4 s = (if length s < 4 then None
             else map_option (\<lambda>n. (n, drop 4 s)) (read_base 16 0 (take 4 s)))"

text \<open>The code point of an escape, joining a surrogate pair; a lone half is U+FFFD.\<close>

definition join_surrogate :: "nat \<Rightarrow> string \<Rightarrow> nat \<times> string" where
  "join_surrogate u s =
     (if u < 0xD800 \<or> 0xE000 \<le> u then (u, s)
      else case (if u < 0xDC00 \<and> has_prefix s [CHR 0x5C, CHR ''u''] then hex4 (drop 2 s) else None) of
             Some (v, r) \<Rightarrow>
               if 0xDC00 \<le> v \<and> v < 0xE000
               then (0x10000 + (u - 0xD800) * 1024 + (v - 0xDC00), r) else (0xFFFD, s)
           | None \<Rightarrow> (0xFFFD, s))"

definition unescape :: "char \<Rightarrow> char option" where
  "unescape c =
     (if c = CHR 0x22 \<or> c = CHR 0x5C \<or> c = CHR ''/'' then Some c
      else if c = CHR ''b'' then Some (CHR 0x08)
      else if c = CHR ''f'' then Some (CHR 0x0C)
      else if c = CHR ''n'' then Some (CHR 0x0A)
      else if c = CHR ''r'' then Some (CHR 0x0D)
      else if c = CHR ''t'' then Some (CHR 0x09)
      else None)"

lemma hex4_length: "hex4 s = Some (n, r) \<Longrightarrow> length s = length r + 4"
  by (auto simp: hex4_def split: if_splits)

lemma join_surrogate_length: "length (snd (join_surrogate u s)) \<le> length s"
  by (auto simp: join_surrogate_def split: option.splits if_splits dest: hex4_length)

text \<open>The rest of a string literal after its opening quote.\<close>

function scan_str :: "string \<Rightarrow> (string \<times> string) option" where
  "scan_str [] = None"
| "scan_str (c # cs) =
     (if c = CHR 0x22 then Some ([], cs)
      else if c = CHR 0x5C then
        (case cs of
           [] \<Rightarrow> None
         | d # ds \<Rightarrow>
             if d = CHR ''u'' then
               (case hex4 ds of
                  None \<Rightarrow> None
                | Some (u, r) \<Rightarrow>
                    map_option (map_prod (\<lambda>s. utf8 (fst (join_surrogate u r)) @ s) (\<lambda>t. t))
                      (scan_str (snd (join_surrogate u r))))
             else (case unescape d of
                     None \<Rightarrow> None
                   | Some x \<Rightarrow> map_option (map_prod (\<lambda>s. x # s) (\<lambda>t. t)) (scan_str ds)))
      else if (of_char c :: nat) < 32 then None
      else map_option (map_prod (\<lambda>s. c # s) (\<lambda>t. t)) (scan_str cs))"
  by pat_completeness auto
termination
proof (relation "measure length")
  fix c :: char and cs d ds x r
  fix u :: nat
  assume "cs = d # ds" "hex4 ds = Some x" "(u, r) = x"
  then show "(snd (join_surrogate u r), c # cs) \<in> measure length"
    using join_surrogate_length [of u r] hex4_length [of ds u r] by auto
qed auto

definition is_digit :: "char \<Rightarrow> bool" where
  "is_digit c = (48 \<le> (of_char c :: nat) \<and> (of_char c :: nat) \<le> 57)"

text \<open>The longest number at the front: sign, integer part, fraction, exponent.\<close>

definition scan_num :: "string \<Rightarrow> (string \<times> string) option" where
  "scan_num s =
     (let (sg, s1) = (if has_prefix s ''-'' then (''-'', tl s) else ([], s));
          (ip, s2) = (if has_prefix s1 ''0'' then (''0'', tl s1)
                      else (takeWhile is_digit s1, dropWhile is_digit s1));
          fp = (if has_prefix s2 ''.'' then Some (takeWhile is_digit (tl s2)) else None);
          s3 = (if has_prefix s2 ''.'' then dropWhile is_digit (tl s2) else s2);
          isE = (has_prefix s3 ''e'' \<or> has_prefix s3 ''E'');
          s4 = (if isE then tl s3 else s3);
          es = (if isE \<and> (has_prefix s4 ''+'' \<or> has_prefix s4 ''-'') then [hd s4] else []);
          s5 = (if es = [] then s4 else tl s4);
          ed = (if isE then takeWhile is_digit s5 else []);
          s6 = (if isE then dropWhile is_digit s5 else s5)
      in if ip = [] \<or> fp = Some [] \<or> isE \<and> ed = [] then None
         else Some (sg @ ip @ (case fp of None \<Rightarrow> [] | Some d \<Rightarrow> CHR ''.'' # d) @
                    (if isE then hd s3 # es @ ed else []), s6))"

fun parse_val :: "nat \<Rightarrow> string \<Rightarrow> (json \<times> string) option"
and parse_elems :: "nat \<Rightarrow> string \<Rightarrow> (json list \<times> string) option"
and parse_members :: "nat \<Rightarrow> string \<Rightarrow> ((string \<times> json) list \<times> string) option" where
  "parse_val 0 s = None"
| "parse_val (Suc n) s =
     (case skip_ws s of
        [] \<Rightarrow> None
      | c # cs \<Rightarrow>
          if c = CHR 0x22 then map_option (map_prod JStr (\<lambda>t. t)) (scan_str cs)
          else if c = CHR ''{'' then
            (if has_prefix (skip_ws cs) ''}'' then Some (JObj [], tl (skip_ws cs))
             else map_option (map_prod JObj (\<lambda>t. t)) (parse_members n cs))
          else if c = CHR ''['' then
            (if has_prefix (skip_ws cs) '']'' then Some (JArr [], tl (skip_ws cs))
             else map_option (map_prod JArr (\<lambda>t. t)) (parse_elems n cs))
          else if has_prefix (c # cs) ''true'' then Some (JBool True, drop 3 cs)
          else if has_prefix (c # cs) ''false'' then Some (JBool False, drop 4 cs)
          else if has_prefix (c # cs) ''null'' then Some (JNull, drop 3 cs)
          else map_option (map_prod JNum (\<lambda>t. t)) (scan_num (c # cs)))"
| "parse_elems 0 s = None"
| "parse_elems (Suc n) s =
     (case parse_val n s of
        None \<Rightarrow> None
      | Some (j, r) \<Rightarrow>
          (case skip_ws r of
             c # cs \<Rightarrow>
               if c = CHR '','' then map_option (map_prod (\<lambda>js. j # js) (\<lambda>t. t)) (parse_elems n cs)
               else if c = CHR '']'' then Some ([j], cs)
               else None
           | [] \<Rightarrow> None))"
| "parse_members 0 s = None"
| "parse_members (Suc n) s =
     (case skip_ws s of
        [] \<Rightarrow> None
      | q # qs \<Rightarrow>
          if q \<noteq> CHR 0x22 then None
          else (case scan_str qs of
            None \<Rightarrow> None
          | Some (k, r1) \<Rightarrow>
              if \<not> has_prefix (skip_ws r1) '':'' then None
              else (case parse_val n (tl (skip_ws r1)) of
                None \<Rightarrow> None
              | Some (j, r2) \<Rightarrow>
                  (case skip_ws r2 of
                     c # cs \<Rightarrow>
                       if c = CHR '','' then
                         map_option (map_prod (\<lambda>ms. (k, j) # ms) (\<lambda>t. t)) (parse_members n cs)
                       else if c = CHR ''}'' then Some ([(k, j)], cs)
                       else None
                   | [] \<Rightarrow> None))))"

definition parse_json :: "string \<Rightarrow> json option" where
  "parse_json s =
     (case parse_val (2 * length s + 2) s of
        Some (j, r) \<Rightarrow> if skip_ws r = [] then Some j else None
      | None \<Rightarrow> None)"

section \<open>Reading undoes printing\<close>

lemma skip_ws_Cons [simp]:
  "skip_ws (c # s) =
     (if c = CHR '' '' \<or> c = CHR 0x09 \<or> c = CHR 0x0A \<or> c = CHR 0x0D then skip_ws s else c # s)"
  "skip_ws [] = []"
  by (simp_all add: skip_ws_def)

lemma hex4_hex2:
  assumes "n < 256"
  shows "hex4 (CHR ''0'' # CHR ''0'' # hex2 n @ r) = Some (n, r)"
proof -
  have "n div 16 < 16" "n mod 16 < 16" using assms by (simp_all add: less_mult_imp_div_less)
  moreover have "digit_val CHR ''0'' = Some 0" by (simp add: digit_val_def)
  ultimately show ?thesis
    by (simp add: hex4_def hex2_def digit_char_val)
qed

lemma scan_str_escape:
  "scan_str (escape_char c @ s) = map_option (map_prod (\<lambda>t. c # t) (\<lambda>t. t)) (scan_str s)"
proof -
  let ?n = "of_char c :: nat"
  consider (quote) "c = CHR 0x22" | (bslash) "c = CHR 0x5C" | (lf) "c = CHR 0x0A" | (cr) "c = CHR 0x0D"
    | (tab) "c = CHR 0x09"
    | (hex) "c \<noteq> CHR 0x22" "c \<noteq> CHR 0x5C" "c \<noteq> CHR 0x0A" "c \<noteq> CHR 0x0D" "c \<noteq> CHR 0x09"
        "?n < 32 \<or> c = CHR ''<'' \<or> c = CHR ''>'' \<or> c = CHR ''&''"
    | (plain) "c \<noteq> CHR 0x22" "c \<noteq> CHR 0x5C" "\<not> ?n < 32" "c \<noteq> CHR ''<''" "c \<noteq> CHR ''>''" "c \<noteq> CHR ''&''"
    by blast
  then show ?thesis
  proof cases
    case hex
    from hex(6) have n: "?n < 128" by auto
    have "escape_char c = [CHR 0x5C, CHR ''u'', CHR ''0'', CHR ''0''] @ hex2 ?n"
      using hex by (simp only: escape_char_def Let_def if_False if_True)
    moreover have "join_surrogate ?n s = (?n, s)" "utf8 ?n = [c]"
      using n by (simp_all add: join_surrogate_def utf8_def)
    moreover have "(@) [c] = (#) c" by (rule ext) simp
    ultimately show ?thesis using n by (simp add: hex4_hex2)
  next
    case plain
    from plain(3) have "c \<noteq> CHR 0x0A" "c \<noteq> CHR 0x0D" "c \<noteq> CHR 0x09" by auto
    with plain have "escape_char c = [c]"
      by (simp only: escape_char_def Let_def if_False simp_thms)
    with plain show ?thesis by simp
  qed (simp_all add: escape_char_def unescape_def)
qed

lemma scan_str_show: "scan_str (concat (map escape_char s) @ CHR 0x22 # r) = Some (s, r)"
  by (induction s) (simp_all add: scan_str_escape)

lemma is_digit_show_base: "c \<in> set (show_base 10 n) \<Longrightarrow> is_digit c"
  using show_base_digits [of 10 c n]
  by (auto simp: is_digit_def digit_char_def)

lemma digit_char_zero: "digit_char 0 = CHR ''0''"
  by code_simp

lemma digit_char_0: "d < 10 \<Longrightarrow> digit_char d = CHR ''0'' \<longleftrightarrow> d = 0"
  using digit_char_val [of d] digit_char_val [of 0] digit_char_zero by auto

lemma hd_show_base: "0 < n \<Longrightarrow> hd (show_base 10 n) \<noteq> CHR ''0''"
proof (induction "10 :: nat" n rule: show_base.induct)
  case (1 n)
  show ?case
  proof (cases "n < 10")
    case True
    with 1 show ?thesis by (simp add: show_base.simps [of 10 n] digit_char_0)
  next
    case False
    then have "show_base 10 n = show_base 10 (n div 10) @ [digit_char (n mod 10)]"
      by (simp add: show_base.simps [of 10 n])
    moreover have "hd (show_base 10 (n div 10)) \<noteq> CHR ''0''"
      using False by (intro 1(1)) auto
    ultimately show ?thesis by (simp add: hd_append)
  qed
qed

definition ends_value :: "string \<Rightarrow> bool" where
  "ends_value r = (case r of [] \<Rightarrow> True | c # _ \<Rightarrow> c = CHR '','' \<or> c = CHR ''}'' \<or> c = CHR '']'')"

lemma scan_num_tail:
  assumes "ends_value r" "\<forall>c\<in>set ds. is_digit c"
  shows "takeWhile is_digit (ds @ r) = ds" "dropWhile is_digit (ds @ r) = r"
  using assms
  by (auto simp: ends_value_def is_digit_def takeWhile_append takeWhile_eq_all_conv split: list.splits)

lemma scan_num_integer:
  assumes sign: "(if has_prefix s ''-'' then (''-'', tl s) else ([], s)) = (sg, s1)"
    and digits: "(if has_prefix s1 ''0'' then (''0'', tl s1)
                  else (takeWhile is_digit s1, dropWhile is_digit s1)) = (ip, r)"
    and ip: "ip \<noteq> []" and r: "ends_value r"
  shows "scan_num s = Some (sg @ ip, r)"
proof -
  have "\<not> has_prefix r ''.''" "\<not> has_prefix r ''e''" "\<not> has_prefix r ''E''"
    using r by (auto simp: ends_value_def has_prefix_def split: list.splits)
  with ip show ?thesis
    by (simp only: scan_num_def sign Let_def prod.case digits if_False if_True simp_thms
        option.case append_Nil2 option.distinct)
qed

lemma scan_num_digits:
  assumes "ends_value r"
  shows "(if has_prefix (show_nat n @ r) ''0'' then (''0'', tl (show_nat n @ r))
          else (takeWhile is_digit (show_nat n @ r), dropWhile is_digit (show_nat n @ r)))
         = (show_nat n, r)"
proof (cases "n = 0")
  case True
  then have "show_nat n = ''0''"
    by (simp add: show_nat_def show_base.simps [of 10 0] digit_char_zero)
  then show ?thesis by (simp add: has_prefix_def)
next
  case False
  obtain d ds where dd: "show_base 10 n = d # ds"
    using show_base_not_Nil [of 10 n] by (cases "show_base 10 n") auto
  with hd_show_base [of n] False have "\<not> has_prefix (show_nat n @ r) ''0''"
    by (simp add: has_prefix_def show_nat_def)
  moreover have "\<forall>c\<in>set (show_nat n). is_digit c"
    using is_digit_show_base by (auto simp: show_nat_def)
  ultimately show ?thesis using scan_num_tail [OF assms] by simp
qed

lemma show_nat_not_Nil [simp]: "show_nat n \<noteq> []"
  by (simp add: show_nat_def)

lemma show_nat_no_minus: "\<not> has_prefix (show_nat n @ r) ''-''"
proof -
  obtain d ds where dd: "show_base 10 n = d # ds"
    using show_base_not_Nil [of 10 n] by (cases "show_base 10 n") auto
  then have "is_digit d" using is_digit_show_base [of d n] by simp
  then have "d \<noteq> CHR ''-''" by (auto simp: is_digit_def)
  with dd show ?thesis by (simp add: has_prefix_def show_nat_def)
qed

lemma scan_num_show_int:
  "ends_value r \<Longrightarrow> scan_num (show_int i @ r) = Some (show_int i, r)"
proof -
  assume r: "ends_value r"
  have "(if has_prefix (show_int i @ r) ''-'' then (''-'', tl (show_int i @ r))
         else ([], show_int i @ r)) =
      (if i < 0 then (''-'', show_nat (nat (- i)) @ r) else ([], show_nat (nat i) @ r))"
    using show_nat_no_minus by (simp add: show_int_def has_prefix_def)
  then show ?thesis
    using scan_num_integer [OF _ scan_num_digits [OF r] show_nat_not_Nil r, of "show_int i @ r"]
    by (cases "i < 0") (simp_all add: show_int_def)
qed

definition flat_json :: "json \<Rightarrow> bool" where
  "flat_json j = ((\<exists>s. j = JStr s) \<or> (\<exists>i. j = JNum (show_int i)))"

lemma show_int_first:
  obtains c cs where "show_int i = c # cs" "is_digit c \<or> c = CHR ''-''"
proof -
  have "\<exists>c cs. show_nat n = c # cs \<and> is_digit c" for n
    using is_digit_show_base [of "hd (show_nat n)" n] hd_in_set [of "show_nat n"]
    by (cases "show_nat n") (auto simp: show_nat_def)
  then show ?thesis using that by (cases "i < 0") (auto simp: show_int_def)
qed

lemma parse_val_flat:
  assumes "flat_json j" "ends_value r"
  shows "parse_val (Suc n) (show_json j @ r) = Some (j, r)"
proof (cases "\<exists>s. j = JStr s")
  case True
  then show ?thesis by (auto simp: show_jstr_def scan_str_show)
next
  case False
  then obtain i where j: "j = JNum (show_int i)" using assms by (auto simp: flat_json_def)
  obtain c cs where c: "show_int i = c # cs" "is_digit c \<or> c = CHR ''-''"
    by (rule show_int_first)
  then have ne: "c \<noteq> CHR '' ''" "c \<noteq> CHR 0x09" "c \<noteq> CHR 0x0A" "c \<noteq> CHR 0x0D" "c \<noteq> CHR 0x22"
    "c \<noteq> CHR ''{''" "c \<noteq> CHR ''[''" "c \<noteq> CHR ''t''" "c \<noteq> CHR ''f''" "c \<noteq> CHR ''n''"
    by (auto simp: is_digit_def)
  then have "\<not> has_prefix (c # cs @ r) ''true''" "\<not> has_prefix (c # cs @ r) ''false''"
    "\<not> has_prefix (c # cs @ r) ''null''"
    by (simp_all add: has_prefix_def)
  with ne c j scan_num_show_int [OF assms(2), of i] show ?thesis by simp
qed

abbreviation show_member :: "string \<times> json \<Rightarrow> string" where
  "show_member \<equiv> \<lambda>(k, j). show_jstr k @ CHR '':'' # show_json j"

lemma show_int_eq_iff [simp]: "show_int i = show_int j \<longleftrightarrow> i = j"
proof -
  have minus: "show_nat n \<noteq> CHR ''-'' # s" for n s
    using show_nat_no_minus [of n "[]"] by (auto simp: has_prefix_def)
  show ?thesis
    by (cases "i < 0"; cases "j < 0")
      (simp_all add: show_int_def minus minus [symmetric] del: show_nat_eq_iff, auto)
qed

subsection \<open>Nested values\<close>

text \<open>The values that \<open>json.Marshal\<close> makes of integers, strings, booleans, nil, slices, maps and
  structs; \<open>json_size\<close> bounds the fuel that reading one takes.\<close>

fun printed :: "json \<Rightarrow> bool" where
  "printed (JNum s) = (\<exists>i. s = show_int i)"
| "printed (JArr js) = list_all printed js"
| "printed (JObj ms) = list_all (\<lambda>m. printed (snd m)) ms"
| "printed _ = True"

fun json_size :: "json \<Rightarrow> nat" where
  "json_size (JArr js) = Suc (sum_list (map (\<lambda>j. Suc (json_size j)) js))"
| "json_size (JObj ms) = Suc (sum_list (map (\<lambda>m. Suc (json_size (snd m))) ms))"
| "json_size _ = 1"

lemma length_join: "xs \<noteq> [] \<Longrightarrow> Suc (length (join [c] xs)) = sum_list (map (\<lambda>x. Suc (length x)) xs)"
  by (induction "[c]" xs rule: join.induct) auto

lemma json_size_le: "printed j \<Longrightarrow> json_size j \<le> length (show_json j)"
proof (induction j)
  case (JNum s)
  then obtain i where "s = show_int i" by auto
  moreover obtain c cs where "show_int i = c # cs"
    by (rule show_int_first)
  ultimately show ?case by simp
next
  case (JArr js)
  have "sum_list (map (\<lambda>j. Suc (json_size j)) js) \<le> sum_list (map (\<lambda>j. Suc (length (show_json j))) js)"
    using JArr by (intro sum_list_mono) (auto simp: list_all_iff)
  then show ?case
    using length_join [of "map show_json js" "CHR '',''"] by (cases "js = []") (auto simp: comp_def)
next
  case (JObj ms)
  let ?show = "\<lambda>(k, j). show_jstr k @ CHR '':'' # show_json j"
  have "json_size (snd m) \<le> length (?show m)" if "m \<in> set ms" for m
    using JObj(1) [OF that, of "snd m"] JObj(2) that by (cases m) (fastforce simp: list_all_iff)
  then have "sum_list (map (\<lambda>m. Suc (json_size (snd m))) ms) \<le> sum_list (map (\<lambda>m. Suc (length (?show m))) ms)"
    by (intro sum_list_mono) auto
  then show ?case
    using length_join [of "map ?show ms" "CHR '',''"] by (cases "ms = []") (auto simp: comp_def)
qed (auto simp: show_jstr_def)

definition reads_back :: "json \<Rightarrow> bool" where
  "reads_back j \<longleftrightarrow> (\<forall>n r. json_size j \<le> n \<longrightarrow> ends_value r \<longrightarrow> parse_val n (show_json j @ r) = Some (j, r))"

lemma reads_backD:
  "reads_back j \<Longrightarrow> json_size j \<le> n \<Longrightarrow> ends_value r \<Longrightarrow> parse_val n (show_json j @ r) = Some (j, r)"
  by (simp add: reads_back_def)

lemma parse_elems_show:
  assumes "js \<noteq> []" "list_all reads_back js" "sum_list (map (\<lambda>j. Suc (json_size j)) js) \<le> n"
  shows "parse_elems n (join '','' (map show_json js) @ CHR '']'' # r) = Some (js, r)"
  using assms
proof (induction js arbitrary: n)
  case (Cons j js)
  obtain n' where n: "n = Suc n'" using Cons.prems(3) by (cases n) auto
  show ?case
  proof (cases "js = []")
    case True
    have "ends_value (CHR '']'' # r)" by (simp add: ends_value_def)
    from reads_backD [OF _ _ this, of j n'] show ?thesis
      using True n Cons.prems by simp
  next
    case False
    let ?rest = "join '','' (map show_json js) @ CHR '']'' # r"
    have "ends_value (CHR '','' # ?rest)" by (simp add: ends_value_def)
    moreover have "parse_elems n' ?rest = Some (js, r)"
      using Cons.prems n False by (intro Cons.IH) auto
    ultimately show ?thesis
      using reads_backD [of j n' "CHR '','' # ?rest"] False n Cons.prems by (simp add: join_Cons)
  qed
qed simp

lemma parse_members_show:
  assumes "ms \<noteq> []" "list_all (\<lambda>m. reads_back (snd m)) ms" "sum_list (map (\<lambda>m. Suc (json_size (snd m))) ms) \<le> n"
  shows "parse_members n (join '','' (map show_member ms) @ CHR ''}'' # r) = Some (ms, r)"
  using assms
proof (induction ms arbitrary: n)
  case (Cons m ms)
  obtain n' where n: "n = Suc n'" using Cons.prems(3) by (cases n) auto
  obtain k j where m: "m = (k, j)" by force
  show ?case
  proof (cases "ms = []")
    case True
    have "ends_value (CHR ''}'' # r)" by (simp add: ends_value_def)
    from reads_backD [OF _ _ this, of j n'] show ?thesis
      using True n m Cons.prems by (simp add: show_jstr_def scan_str_show has_prefix_def)
  next
    case False
    let ?rest = "join '','' (map show_member ms) @ CHR ''}'' # r"
    have "ends_value (CHR '','' # ?rest)" by (simp add: ends_value_def)
    moreover have "parse_members n' ?rest = Some (ms, r)"
      using Cons.prems n False by (intro Cons.IH) auto
    ultimately show ?thesis
      using reads_backD [of j n' "CHR '','' # ?rest"] False n m Cons.prems
      by (simp add: join_Cons show_jstr_def scan_str_show has_prefix_def)
  qed
qed simp

lemma show_json_first:
  assumes "printed j"
  shows "\<exists>c cs. show_json j = c # cs \<and> c \<noteq> CHR '']'' \<and> (\<forall>r. skip_ws (c # cs @ r) = c # cs @ r)"
proof (cases j)
  case (JNum s)
  then obtain i where "s = show_int i" using assms by auto
  moreover obtain c cs where "show_int i = c # cs" "is_digit c \<or> c = CHR ''-''"
    by (rule show_int_first)
  ultimately show ?thesis
    using JNum by (auto simp: is_digit_def)
qed (auto simp: show_jstr_def)

lemma printed_reads_back: "printed j \<Longrightarrow> reads_back j"
proof (induction j)
  case (JArr js)
  show ?case
    unfolding reads_back_def
  proof (intro allI impI)
    fix n r
    assume n: "json_size (JArr js) \<le> n" and r: "ends_value r"
    then obtain n' where n': "n = Suc n'" by (cases n) auto
    show "parse_val n (show_json (JArr js) @ r) = Some (JArr js, r)"
    proof (cases js)
      case Nil
      then show ?thesis using n' by (simp add: has_prefix_def)
    next
      case (Cons x xs)
      have "printed x" using JArr.prems Cons by simp
      then obtain c cs where c: "show_json x = c # cs" "c \<noteq> CHR '']''" "\<And>r. skip_ws (c # cs @ r) = c # cs @ r"
        using show_json_first by blast
      moreover have "list_all reads_back js"
        using JArr by (auto simp: list_all_iff)
      ultimately show ?thesis
        using parse_elems_show [of js n' r] n n' Cons
        by (cases xs) (auto simp: has_prefix_def)
    qed
  qed
next
  case (JObj ms)
  show ?case
    unfolding reads_back_def
  proof (intro allI impI)
    fix n r
    assume n: "json_size (JObj ms) \<le> n" and r: "ends_value r"
    then obtain n' where n': "n = Suc n'" by (cases n) auto
    have "list_all (\<lambda>m. reads_back (snd m)) ms"
      using JObj by (fastforce simp: list_all_iff)
    then show "parse_val n (show_json (JObj ms) @ r) = Some (JObj ms, r)"
      using parse_members_show [of ms n' r] n n'
      by (cases ms; cases "tl ms") (auto simp: has_prefix_def show_jstr_def split: prod.splits)
  qed
next
  case (JNum s)
  then obtain i where "s = show_int i" by auto
  then show ?case
    using parse_val_flat [of "JNum s"] by (auto simp: reads_back_def flat_json_def Suc_le_eq gr0_conv_Suc)
next
  case (JStr s)
  then show ?case
    using parse_val_flat [of "JStr s"] by (auto simp: reads_back_def flat_json_def Suc_le_eq gr0_conv_Suc)
qed (auto simp: reads_back_def has_prefix_def Suc_le_eq gr0_conv_Suc)

lemma parse_json_show:
  assumes "printed j"
  shows "parse_json (show_json j) = Some j"
proof -
  have "parse_val (2 * length (show_json j) + 2) (show_json j @ []) = Some (j, [])"
    using json_size_le [OF assms] by (intro reads_backD printed_reads_back assms) (auto simp: ends_value_def)
  then show ?thesis by (simp add: parse_json_def)
qed

lemma parse_json_flat:
  "\<forall>(k, j)\<in>set ms. flat_json j \<Longrightarrow> parse_json (show_json (JObj ms)) = Some (JObj ms)"
  by (rule parse_json_show) (fastforce simp: flat_json_def list_all_iff)

end
