(* ===== verification/Meta.thy ===== *)
theory Meta
  imports Json
begin

text \<open>
  The data the programs share: \<open>src/meta/common.go\<close>, \<open>src/meta/app.go\<close> and the enumerations
  \<open>VariablePostion\<close> and \<open>Method\<close> of \<open>src/_vendor/github.com/dearcode/crab/http/server/common.go\<close>.
  Go's \<open>int\<close>-based enumerations are integers here too: the database can hold any value in those
  columns, and the code's switches fall through on unknown ones.  Record fields carry a prefix
  because all records of a theory share one name space.
\<close>

section \<open>Definitions\<close>

subsection \<open>Positions and methods\<close>

definition URI :: int where "URI = 0"

definition HEADER :: int where "HEADER = 1"

definition JSON :: int where "JSON = 2"

definition FORM :: int where "FORM = 3"

definition postion_String :: "int \<Rightarrow> string" where
  "postion_String p =
     (if p = URI then ''URI'' else if p = HEADER then ''HEADER''
      else if p = JSON then ''JSON'' else if p = FORM then ''FORM'' else ''NIL'')"

definition GET :: int where "GET = 0"

definition POST :: int where "POST = 1"

definition PUT :: int where "PUT = 2"

definition DELETE :: int where "DELETE = 3"

definition RESTful :: int where "RESTful = 4"

definition NewMethod :: "string \<Rightarrow> int" where
  "NewMethod m =
     (let u = to_upper m
      in if u = ''GET'' then GET else if u = ''POST'' then POST
         else if u = ''PUT'' then PUT else if u = ''DELETE'' then DELETE else RESTful)"

definition method_String :: "int \<Rightarrow> string" where
  "method_String m =
     (if m = GET then ''GET'' else if m = POST then ''POST'' else if m = PUT then ''PUT''
      else if m = DELETE then ''DELETE'' else if m = RESTful then ''RESTful'' else ''NIL'')"

lemmas position_defs = URI_def HEADER_def JSON_def FORM_def

lemmas method_defs = GET_def POST_def PUT_def DELETE_def RESTful_def

subsection \<open>Tables\<close>

record Application =
  app_ID :: int
  app_Name :: string
  app_User :: string
  app_Email :: string
  app_Token :: string
  app_Comment :: string
  app_Ctime :: string
  app_Mtime :: string

record Service =
  svc_ID :: int
  svc_RoleID :: int
  svc_ResourceID :: int
  svc_ClusterID :: int
  svc_Name :: string
  svc_User :: string
  svc_Validate :: bool
  svc_Email :: string
  svc_Path :: string
  svc_Source :: string
  svc_Version :: int
  svc_Comment :: string
  svc_CTime :: string
  svc_MTime :: string

record Variable =
  var_ID :: int
  var_Postion :: int
  var_Name :: string
  var_Type :: string
  var_Level :: int
  var_Required :: bool
  var_Example :: string
  var_Comment :: string
  var_Ctime :: string
  var_Mtime :: string

record Interface =
  ifc_ID :: int
  ifc_Name :: string
  ifc_User :: string
  ifc_Email :: string
  ifc_State :: bool
  ifc_Service :: Service
  ifc_Path :: string
  ifc_Method :: int
  ifc_Backend :: string
  ifc_Comment :: string
  ifc_Level :: int
  ifc_Ctime :: string
  ifc_Mtime :: string

text \<open>The zero values of the structs.\<close>

definition zero_Application :: Application where
  "zero_Application =
     \<lparr>app_ID = 0, app_Name = '''', app_User = '''', app_Email = '''', app_Token = '''',
      app_Comment = '''', app_Ctime = '''', app_Mtime = ''''\<rparr>"

definition zero_Service :: Service where
  "zero_Service =
     \<lparr>svc_ID = 0, svc_RoleID = 0, svc_ResourceID = 0, svc_ClusterID = 0, svc_Name = '''',
      svc_User = '''', svc_Validate = False, svc_Email = '''', svc_Path = '''', svc_Source = '''',
      svc_Version = 0, svc_Comment = '''', svc_CTime = '''', svc_MTime = ''''\<rparr>"

definition zero_Variable :: Variable where
  "zero_Variable =
     \<lparr>var_ID = 0, var_Postion = 0, var_Name = '''', var_Type = '''', var_Level = 0,
      var_Required = False, var_Example = '''', var_Comment = '''', var_Ctime = '''',
      var_Mtime = ''''\<rparr>"

definition zero_Interface :: Interface where
  "zero_Interface =
     \<lparr>ifc_ID = 0, ifc_Name = '''', ifc_User = '''', ifc_Email = '''', ifc_State = False,
      ifc_Service = zero_Service, ifc_Path = '''', ifc_Method = 0, ifc_Backend = '''',
      ifc_Comment = '''', ifc_Level = 0, ifc_Ctime = '''', ifc_Mtime = ''''\<rparr>"

subsection \<open>Registered instances\<close>

record MicroAPP =
  ServiceKey :: string
  Host :: string
  Port :: int
  PID :: int
  GitHash :: string
  GitTime :: string
  GitMessage :: string

definition zero_MicroAPP :: MicroAPP where
  "zero_MicroAPP =
     \<lparr>ServiceKey = '''', Host = '''', Port = 0, PID = 0, GitHash = '''', GitTime = '''',
      GitMessage = ''''\<rparr>"

definition NewMicroAPP ::
  "string \<Rightarrow> int \<Rightarrow> string \<Rightarrow> int \<Rightarrow> string \<Rightarrow> string \<Rightarrow> string \<Rightarrow> MicroAPP" where
  "NewMicroAPP host port key pid hash time message =
     \<lparr>ServiceKey = key, Host = host, Port = port, PID = pid, GitHash = hash, GitTime = time,
      GitMessage = message\<rparr>"

definition MicroAPP_Version :: "MicroAPP \<Rightarrow> int" where
  "MicroAPP_Version a = fst (parse_int 10 (GitTime a))"

definition MicroAPP_String :: "MicroAPP \<Rightarrow> string" where
  "MicroAPP_String a = show_json (JObj
     [(''ServiceKey'', JStr (ServiceKey a)), (''Host'', JStr (Host a)),
      (''Port'', JNum (show_int (Port a))), (''PID'', JNum (show_int (PID a))),
      (''GitHash'', JStr (GitHash a)), (''GitTime'', JStr (GitTime a)),
      (''GitMessage'', JStr (GitMessage a))])"

text \<open>\<open>json.Unmarshal\<close> into a \<open>MicroAPP\<close>: a member sets the field its key equals up to case; a
  value of the wrong kind leaves the field as it is, a syntax error leaves the whole struct.\<close>

definition set_str :: "json \<Rightarrow> string \<Rightarrow> string" where
  "set_str j old = (case j of JStr s \<Rightarrow> s | _ \<Rightarrow> old)"

definition set_int :: "json \<Rightarrow> int \<Rightarrow> int" where
  "set_int j old = (case j of
       JNum s \<Rightarrow> (case parse_int 10 s of (i, ok) \<Rightarrow> if ok then i else old)
     | _ \<Rightarrow> old)"

definition set_member :: "MicroAPP \<Rightarrow> string \<times> json \<Rightarrow> MicroAPP" where
  "set_member a m =
     (let k = to_lower (fst m); j = snd m
      in if k = ''servicekey'' then a\<lparr>ServiceKey := set_str j (ServiceKey a)\<rparr>
         else if k = ''host'' then a\<lparr>Host := set_str j (Host a)\<rparr>
         else if k = ''port'' then a\<lparr>Port := set_int j (Port a)\<rparr>
         else if k = ''pid'' then a\<lparr>PID := set_int j (PID a)\<rparr>
         else if k = ''githash'' then a\<lparr>GitHash := set_str j (GitHash a)\<rparr>
         else if k = ''gittime'' then a\<lparr>GitTime := set_str j (GitTime a)\<rparr>
         else if k = ''gitmessage'' then a\<lparr>GitMessage := set_str j (GitMessage a)\<rparr>
         else a)"

definition Unmarshal_MicroAPP :: "string \<Rightarrow> MicroAPP" where
  "Unmarshal_MicroAPP s =
     (case parse_json s of
        Some (JObj ms) \<Rightarrow> foldl set_member zero_MicroAPP ms
      | _ \<Rightarrow> zero_MicroAPP)"

section \<open>Lemmas\<close>

text \<open>What an instance writes to the registry is what its readers get.\<close>

lemma to_lower_keys [simp]:
  "to_lower ''ServiceKey'' = ''servicekey''" "to_lower ''Host'' = ''host''"
  "to_lower ''Port'' = ''port''" "to_lower ''PID'' = ''pid''" "to_lower ''GitHash'' = ''githash''"
  "to_lower ''GitTime'' = ''gittime''" "to_lower ''GitMessage'' = ''gitmessage''"
  by code_simp+

lemma Unmarshal_MicroAPP_String:
  assumes "in_int64 (Port a)" "in_int64 (PID a)"
  shows "Unmarshal_MicroAPP (MicroAPP_String a) = a"
proof -
  have "parse_json (MicroAPP_String a) = Some (JObj
     [(''ServiceKey'', JStr (ServiceKey a)), (''Host'', JStr (Host a)),
      (''Port'', JNum (show_int (Port a))), (''PID'', JNum (show_int (PID a))),
      (''GitHash'', JStr (GitHash a)), (''GitTime'', JStr (GitTime a)),
      (''GitMessage'', JStr (GitMessage a))])"
    unfolding MicroAPP_String_def by (rule parse_json_flat) (auto simp: flat_json_def)
  with assms show ?thesis
    by (simp add: Unmarshal_MicroAPP_def set_member_def set_str_def set_int_def zero_MicroAPP_def)
qed

lemma NewMethod_method_String:
  "0 \<le> m \<Longrightarrow> m < 4 \<Longrightarrow> NewMethod (method_String m) = m"
  "NewMethod (to_lower (method_String RESTful)) = RESTful"
proof -
  have "to_upper ''GET'' = ''GET''" "to_upper ''POST'' = ''POST''" "to_upper ''PUT'' = ''PUT''"
    "to_upper ''DELETE'' = ''DELETE''" "to_upper (to_lower ''RESTful'') = ''RESTFUL''"
    by code_simp+
  moreover assume "0 \<le> m" "m < 4"
  then have "m = 0 \<or> m = 1 \<or> m = 2 \<or> m = 3" by auto
  ultimately show "NewMethod (method_String m) = m"
    by (auto simp: NewMethod_def method_String_def method_defs)
next
  have "to_upper (to_lower ''RESTful'') = ''RESTFUL''" by code_simp
  then show "NewMethod (to_lower (method_String RESTful)) = RESTful"
    by (simp add: NewMethod_def method_String_def method_defs)
qed

end
