(* ===== verification/Http.thy ===== *)
theory Http
  imports Meta "HOL-Library.List_Lexorder" "HOL-Library.Char_ord" "HOL-Library.AList"
begin

text \<open>
  The part of Go's \<open>net/http\<close> and \<open>net/url\<close> that the handlers use, and the request decoding of
  \<open>src/util/utils.go\<close> and of the HTTP library under \<open>_vendor/github.com/dearcode/crab\<close>.

  \<open>Values\<close> and \<open>Header\<close> are Go maps from a key to a list of values, here association lists with
  one entry per key.  A request carries its body in decoded form: a form, a multipart form, any
  other bytes, or the error that reading it gives.  \<open>Form\<close> is nil (\<open>None\<close>) until the form has been
  parsed.
\<close>

section \<open>Definitions\<close>

subsection \<open>Values and headers\<close>

type_synonym Values = "(string \<times> string list) list"

definition values_of :: "Values \<Rightarrow> string \<Rightarrow> string list" where
  "values_of m k = (case map_of m k of None \<Rightarrow> [] | Some vs \<Rightarrow> vs)"

definition values_get :: "Values \<Rightarrow> string \<Rightarrow> string" where
  "values_get m k = (case values_of m k of [] \<Rightarrow> [] | v # _ \<Rightarrow> v)"

definition values_add :: "Values \<Rightarrow> string \<Rightarrow> string \<Rightarrow> Values" where
  "values_add m k v = AList.update k (values_of m k @ [v]) m"

definition values_del :: "Values \<Rightarrow> string \<Rightarrow> Values" where
  "values_del m k = AList.delete k m"

definition values_set :: "Values \<Rightarrow> string \<Rightarrow> string \<Rightarrow> Values" where
  "values_set m k v = AList.update k [v] m"

definition alnum :: "char \<Rightarrow> bool" where
  "alnum c \<longleftrightarrow> (CHR ''0'' \<le> c \<and> c \<le> CHR ''9'') \<or> (CHR ''A'' \<le> c \<and> c \<le> CHR ''Z'') \<or>
     (CHR ''a'' \<le> c \<and> c \<le> CHR ''z'')"

text \<open>\<open>textproto.CanonicalMIMEHeaderKey\<close>: a key with a byte that is not allowed in a token stays
  as it is.\<close>

definition token_byte :: "char \<Rightarrow> bool" where
  "token_byte c \<longleftrightarrow>
     alnum c \<or> c \<in> set ''!#$%&*+-.^_|~'' \<or> c = CHR 0x27 \<or> c = CHR 0x60"

fun canonical_from :: "bool \<Rightarrow> string \<Rightarrow> string" where
  "canonical_from up [] = []"
| "canonical_from up (c # s) =
     (if up then to_upper_char c else to_lower_char c) # canonical_from (c = CHR ''-'') s"

definition canonical_key :: "string \<Rightarrow> string" where
  "canonical_key k = (if list_all token_byte k then canonical_from True k else k)"

definition header_get :: "Values \<Rightarrow> string \<Rightarrow> string" where
  "header_get h k = values_get h (canonical_key k)"

definition header_set :: "Values \<Rightarrow> string \<Rightarrow> string \<Rightarrow> Values" where
  "header_set h k v = values_set h (canonical_key k) v"

definition header_del :: "Values \<Rightarrow> string \<Rightarrow> Values" where
  "header_del h k = values_del h (canonical_key k)"

subsection \<open>Query strings\<close>

definition unreserved :: "char \<Rightarrow> bool" where
  "unreserved c \<longleftrightarrow> alnum c \<or> c \<in> set ''-_.~''"

definition hex_digit :: "nat \<Rightarrow> char" where
  "hex_digit n = ''0123456789ABCDEF'' ! n"

definition escape_char :: "char \<Rightarrow> string" where
  "escape_char c =
     (if unreserved c then [c]
      else if c = CHR '' '' then ''+''
      else [CHR ''%'', hex_digit (of_char c div 16), hex_digit (of_char c mod 16)])"

definition QueryEscape :: "string \<Rightarrow> string" where
  "QueryEscape s = concat (map escape_char s)"

definition err_escape :: error where
  "err_escape = ErrText ''invalid URL escape''"

text \<open>\<open>unescape\<close>; \<open>qry\<close> says whether a plus sign stands for a space, as it does in a query.\<close>

fun url_unescape :: "bool \<Rightarrow> string \<Rightarrow> error + string" where
  "url_unescape qry [] = Inr []"
| "url_unescape qry (c # s) =
     (if c = CHR ''%'' then
        (case s of
           a # b # s' \<Rightarrow>
             (case (digit_val a, digit_val b) of
                (Some i, Some j) \<Rightarrow>
                  (case url_unescape qry s' of
                     Inl e \<Rightarrow> Inl e
                   | Inr t \<Rightarrow> Inr (char_of (16 * i + j) # t))
              | _ \<Rightarrow> Inl err_escape)
         | _ \<Rightarrow> Inl err_escape)
      else
        (case url_unescape qry s of
           Inl e \<Rightarrow> Inl e
         | Inr t \<Rightarrow> Inr ((if qry \<and> c = CHR ''+'' then CHR '' '' else c) # t)))"

text \<open>\<open>ParseQuery\<close> keeps what it can decode and returns the first error with it.\<close>

fun split_amp :: "string \<Rightarrow> string list" where
  "split_amp [] = [[]]"
| "split_amp (x # xs) =
     (if x = CHR ''&'' \<or> x = CHR '';'' then [] # split_amp xs
      else case split_amp xs of [] \<Rightarrow> [[x]] | w # ws \<Rightarrow> (x # w) # ws)"

definition cut :: "char \<Rightarrow> string \<Rightarrow> string \<times> string" where
  "cut c s = (takeWhile (\<lambda>x. x \<noteq> c) s, drop 1 (dropWhile (\<lambda>x. x \<noteq> c) s))"

fun parse_pairs :: "string list \<Rightarrow> Values \<Rightarrow> error option \<Rightarrow> Values \<times> error option" where
  "parse_pairs [] m err = (m, err)"
| "parse_pairs (p # ps) m err =
     (if p = [] then parse_pairs ps m err
      else
        (case cut CHR ''='' p of (k0, v0) \<Rightarrow>
         case url_unescape True k0 of
           Inl e \<Rightarrow> parse_pairs ps m (if err = None then Some e else err)
         | Inr k \<Rightarrow>
             (case url_unescape True v0 of
                Inl e \<Rightarrow> parse_pairs ps m (if err = None then Some e else err)
              | Inr v \<Rightarrow> parse_pairs ps (values_add m k v) err)))"

definition ParseQuery :: "string \<Rightarrow> Values \<times> error option" where
  "ParseQuery q = parse_pairs (split_amp q) [] None"

definition encode_entry :: "string \<times> string list \<Rightarrow> string list" where
  "encode_entry e = map (\<lambda>v. QueryEscape (fst e) @ ''='' @ QueryEscape v) (snd e)"

definition values_Encode :: "Values \<Rightarrow> string" where
  "values_Encode m = join ''&'' (concat (map encode_entry (sort_key fst m)))"

subsection \<open>URLs\<close>

record URL =
  url_Scheme :: string
  url_Opaque :: string
  url_User :: string
  url_Host :: string
  url_Path :: string
  url_RawQuery :: string
  url_Fragment :: string

definition zero_URL :: URL where
  "zero_URL = \<lparr>url_Scheme = [], url_Opaque = [], url_User = [], url_Host = [], url_Path = [],
     url_RawQuery = [], url_Fragment = []\<rparr>"

text \<open>\<open>getscheme\<close>: letters, and after the first byte digits, plus, minus and dot, up to a colon.
  Any other byte before the colon means that there is no scheme.\<close>

fun getscheme_from :: "nat \<Rightarrow> string \<Rightarrow> string \<Rightarrow> error + string \<times> string" where
  "getscheme_from i all [] = Inr ([], all)"
| "getscheme_from i all (c # s) =
     (if (CHR ''a'' \<le> c \<and> c \<le> CHR ''z'') \<or> (CHR ''A'' \<le> c \<and> c \<le> CHR ''Z'') then getscheme_from (Suc i) all s
      else if (CHR ''0'' \<le> c \<and> c \<le> CHR ''9'') \<or> c \<in> set ''+-.'' then
        (if i = 0 then Inr ([], all) else getscheme_from (Suc i) all s)
      else if c = CHR '':'' then
        (if i = 0 then Inl (ErrText ''missing protocol scheme'') else Inr (take i all, s))
      else Inr ([], all))"

definition getscheme :: "string \<Rightarrow> error + string \<times> string" where
  "getscheme s = getscheme_from 0 s s"

text \<open>\<open>parseAuthority\<close>: the user information is everything before the last at sign; a host in
  brackets needs the closing one and nothing but a port after it; in the host only bytes beyond
  ASCII and the percent sign itself may be escaped, and reserved bytes are refused.\<close>

definition host_byte :: "char \<Rightarrow> bool" where
  "host_byte c \<longleftrightarrow> alnum c \<or> c \<in> set ''-_.~!$&()*+,;=:[]<>'' \<or> c = CHR 0x27 \<or> c = CHR 0x22 \<or>
     128 \<le> (of_char c :: nat)"

fun host_unescape :: "string \<Rightarrow> error + string" where
  "host_unescape [] = Inr []"
| "host_unescape (c # s) =
     (if c = CHR ''%'' then
        (case s of
           a # b # s' \<Rightarrow>
             (case (digit_val a, digit_val b) of
                (Some i, Some j) \<Rightarrow>
                  if i < 8 \<and> \<not> (i = 2 \<and> j = 5) then Inl err_escape
                  else
                  (case host_unescape s' of
                     Inl e \<Rightarrow> Inl e
                   | Inr t \<Rightarrow> Inr (char_of (16 * i + j) # t))
              | _ \<Rightarrow> Inl err_escape)
         | _ \<Rightarrow> Inl err_escape)
      else if \<not> host_byte c then Inl (ErrText ''invalid character in host name'')
      else (case host_unescape s of Inl e \<Rightarrow> Inl e | Inr t \<Rightarrow> Inr (c # t)))"

definition validOptionalPort :: "string \<Rightarrow> bool" where
  "validOptionalPort s \<longleftrightarrow>
     s = [] \<or> has_prefix s '':'' \<and> list_all (\<lambda>c. CHR ''0'' \<le> c \<and> c \<le> CHR ''9'') (tl s)"

definition parseHost :: "string \<Rightarrow> error + string" where
  "parseHost h =
     (if has_prefix h ''['' then
        (case last_index h CHR '']'' of
           None \<Rightarrow> Inl (ErrText ''missing bracket in host'')
         | Some i \<Rightarrow> if validOptionalPort (drop (Suc i) h) then host_unescape h
             else Inl (ErrText ''invalid port after host''))
      else host_unescape h)"

definition validUserinfo :: "string \<Rightarrow> bool" where
  "validUserinfo s \<longleftrightarrow> list_all (\<lambda>c. alnum c \<or> c \<in> set ''-._:~!$&()*+,;=%@'' \<or> c = CHR 0x27) s"

definition parseAuthority :: "string \<Rightarrow> error + string \<times> string" where
  "parseAuthority a =
     (let (user, host) = (case last_index a CHR ''@'' of
            None \<Rightarrow> ([], a) | Some i \<Rightarrow> (take i a, drop (Suc i) a)) in
      case parseHost host of
        Inl e \<Rightarrow> Inl e
      | Inr h \<Rightarrow>
          if \<not> validUserinfo user then Inl (ErrText ''invalid userinfo'')
          else (case url_unescape False user of Inl e \<Rightarrow> Inl e | Inr u \<Rightarrow> Inr (u, h)))"

definition url_rest :: "URL \<Rightarrow> string \<Rightarrow> error + URL" where
  "url_rest u rest =
     (case url_unescape False rest of Inl e \<Rightarrow> Inl e | Inr p \<Rightarrow> Inr (u\<lparr>url_Path := p\<rparr>))"

definition url_parse :: "string \<Rightarrow> error + URL" where
  "url_parse raw =
     (if raw = ''*'' then Inr (zero_URL\<lparr>url_Path := ''*''\<rparr>)
      else case getscheme raw of
        Inl e \<Rightarrow> Inl e
      | Inr (scheme, rest0) \<Rightarrow>
          (case cut CHR ''?'' rest0 of (rest, q) \<Rightarrow>
           let u = zero_URL\<lparr>url_Scheme := to_lower scheme, url_RawQuery := q\<rparr> in
           if \<not> has_prefix rest ''/'' \<and> scheme \<noteq> [] then Inr (u\<lparr>url_Opaque := rest\<rparr>)
           else if \<not> has_prefix rest ''/'' \<and> CHR '':'' \<in> set (takeWhile (\<lambda>c. c \<noteq> CHR ''/'') rest)
           then Inl (ErrText ''first path segment in URL cannot contain colon'')
           else if has_prefix rest ''//'' \<and> (scheme \<noteq> [] \<or> \<not> has_prefix rest ''///'') then
             (let auth = takeWhile (\<lambda>c. c \<noteq> CHR ''/'') (drop 2 rest);
                  path = dropWhile (\<lambda>c. c \<noteq> CHR ''/'') (drop 2 rest) in
              case parseAuthority auth of
                Inl e \<Rightarrow> Inl e
              | Inr (user, host) \<Rightarrow> url_rest (u\<lparr>url_User := user, url_Host := host\<rparr>) path)
           else url_rest u rest))"

definition url_Parse :: "string \<Rightarrow> error + URL" where
  "url_Parse raw =
     (case cut CHR ''#'' raw of (u0, frag) \<Rightarrow>
      case url_parse u0 of
        Inl e \<Rightarrow> Inl e
      | Inr u \<Rightarrow>
          (case url_unescape False frag of
             Inl e \<Rightarrow> Inl e
           | Inr f \<Rightarrow> Inr (u\<lparr>url_Fragment := f\<rparr>)))"

definition url_Query :: "URL \<Rightarrow> Values" where
  "url_Query u = fst (ParseQuery (url_RawQuery u))"

subsection \<open>Requests\<close>

datatype body =
    FormBody string
  | MultipartBody Values
  | RawBody string
  | BadBody error

record Request =
  rq_Method :: string
  rq_URL :: URL
  rq_Header :: Values
  rq_Body :: body
  rq_Host :: string
  rq_RequestURI :: string
  rq_PostForm :: "Values option"
  rq_Form :: "Values option"

definition copyValues :: "Values \<Rightarrow> Values \<Rightarrow> Values" where
  "copyValues dst src = foldl (\<lambda>m (k, vs). foldl (\<lambda>m v. values_add m k v) m vs) dst src"

definition parsePostForm :: "Request \<Rightarrow> Values \<times> error option" where
  "parsePostForm r =
     (case rq_Body r of
        FormBody s \<Rightarrow> ParseQuery s
      | BadBody e \<Rightarrow> ([], Some e)
      | _ \<Rightarrow> ([], None))"

text \<open>\<open>ParseForm\<close>: the body's values come before those of the query.\<close>

definition ParseForm :: "Request \<Rightarrow> error option \<times> Request" where
  "ParseForm r =
     (let (post, err) = (case rq_PostForm r of
            Some p \<Rightarrow> (p, None)
          | None \<Rightarrow> if rq_Method r \<in> set [''POST'', ''PUT'', ''PATCH''] then parsePostForm r else ([], None));
          r1 = r\<lparr>rq_PostForm := Some post\<rparr> in
      case rq_Form r of
        Some _ \<Rightarrow> (err, r1)
      | None \<Rightarrow>
          (case ParseQuery (url_RawQuery (rq_URL r)) of (q, e) \<Rightarrow>
           (if err = None then e else err, r1\<lparr>rq_Form := Some (copyValues post q)\<rparr>)))"

text \<open>\<open>FormValue\<close> parses the form if that has not happened, a multipart form included, and drops
  the error.\<close>

definition ParseMultipartForm :: "Request \<Rightarrow> Request" where
  "ParseMultipartForm r =
     (let r1 = snd (ParseForm r) in
      case rq_Body r of
        MultipartBody m \<Rightarrow> r1\<lparr>rq_Form := Some (copyValues (case rq_Form r1 of None \<Rightarrow> [] | Some f \<Rightarrow> f) m)\<rparr>
      | _ \<Rightarrow> r1)"

definition FormValue :: "Request \<Rightarrow> string \<Rightarrow> string \<times> Request" where
  "FormValue r k =
     (let r1 = (case rq_Form r of None \<Rightarrow> ParseMultipartForm r | Some _ \<Rightarrow> r) in
      (case rq_Form r1 of None \<Rightarrow> [] | Some f \<Rightarrow> values_get f k, r1))"

section \<open>Values\<close>

lemma map_of_update [simp]: "map_of (AList.update k v m) = (map_of m)(k \<mapsto> v)"
  by (rule update_conv')

lemma values_of_add: "values_of (values_add m k v) j = values_of m j @ (if j = k then [v] else [])"
  by (simp add: values_of_def values_add_def)

lemma values_of_set [simp]: "values_of (values_set m k v) j = (if j = k then [v] else values_of m j)"
  by (simp add: values_of_def values_set_def)

lemma values_of_del [simp]: "values_of (values_del m k) j = (if j = k then [] else values_of m j)"
  by (simp add: values_of_def values_del_def delete_conv')

lemma values_of_Nil [simp]: "values_of [] k = []"
  by (simp add: values_of_def)

lemma values_of_fold_add:
  "values_of (foldl (\<lambda>m (k, v). values_add m k v) m ps) j = values_of m j @ map snd (filter (\<lambda>p. fst p = j) ps)"
  by (induction ps arbitrary: m) (auto simp: values_of_add)

section \<open>Escaping\<close>

lemma hex_digit_val:
  assumes "n < 16"
  shows "digit_val (hex_digit n) = Some n" "hex_digit n \<notin> set ''&;=?#/''"
proof -
  have "\<forall>n \<in> set [0..<16]. digit_val (hex_digit n) = Some n \<and> hex_digit n \<notin> set ''&;=?#/''"
    by (simp add: upt_rec hex_digit_def digit_val_def Let_def)
  with assms show "digit_val (hex_digit n) = Some n" "hex_digit n \<notin> set ''&;=?#/''" by simp_all
qed

lemma unreserved_plain: "unreserved c \<Longrightarrow> c \<notin> set ''&;=?#/%+''"
  by (auto simp: unreserved_def alnum_def)

lemma of_char_div [simp]: "(of_char c :: nat) div 16 < 16"
  using of_char_mod_256 [of c] by (simp add: less_mult_imp_div_less)

lemma escape_char_unescape:
  "url_unescape True (escape_char c @ s) = (case url_unescape True s of Inl e \<Rightarrow> Inl e | Inr t \<Rightarrow> Inr (c # t))"
proof (cases "unreserved c \<or> c = CHR '' ''")
  case True
  with unreserved_plain [of c] show ?thesis
    by (auto simp: escape_char_def split: sum.split)
next
  case False
  then have "escape_char c = [CHR ''%'', hex_digit (of_char c div 16), hex_digit (of_char c mod 16)]"
    by (simp add: escape_char_def)
  moreover have "char_of (16 * (of_char c div 16) + of_char c mod 16 :: nat) = c"
    by (simp only: mult_div_mod_eq char_of_char)
  ultimately show ?thesis
    by (simp add: hex_digit_val(1) split: sum.split)
qed

lemma escape_char_plain: "x \<in> set (escape_char c) \<Longrightarrow> x \<notin> set ''&;=?#/''"
  using unreserved_plain [of c] hex_digit_val(2) [of "of_char c div 16"] hex_digit_val(2) [of "of_char c mod 16"]
  by (auto simp: escape_char_def split: if_splits)

lemma unescape_QueryEscape [simp]: "url_unescape True (QueryEscape s) = Inr s"
  by (induction s) (simp_all add: QueryEscape_def escape_char_unescape)

lemma QueryEscape_plain: "x \<in> set (QueryEscape s) \<Longrightarrow> x \<notin> set ''&;=?#/''"
  using escape_char_plain by (auto simp: QueryEscape_def)

lemma split_amp_join:
  "ws \<noteq> [] \<Longrightarrow> \<forall>w\<in>set ws. CHR ''&'' \<notin> set w \<and> CHR '';'' \<notin> set w \<Longrightarrow> split_amp (join ''&'' ws) = ws"
proof (induction ws)
  case (Cons w ws)
  have *: "split_amp (u @ CHR ''&'' # t) = u # split_amp t" "split_amp u = [u]"
    if "CHR ''&'' \<notin> set u" "CHR '';'' \<notin> set u" for u t
    using that by (induction u) auto
  from Cons show ?case by (cases ws) (auto simp: *)
qed simp

lemma cut_absent [simp]: "c \<notin> set s \<Longrightarrow> cut c s = (s, [])"
  by (induction s) (auto simp: cut_def)

lemma cut_append [simp]: "c \<notin> set s \<Longrightarrow> cut c (s @ c # t) = (s, t)"
  by (induction s) (auto simp: cut_def)

text \<open>The pairs of a map, and their encoding.\<close>

definition pairs_of :: "Values \<Rightarrow> (string \<times> string) list" where
  "pairs_of m = concat (map (\<lambda>(k, vs). map (Pair k) vs) m)"

definition encode_pair :: "string \<times> string \<Rightarrow> string" where
  "encode_pair p = QueryEscape (fst p) @ ''='' @ QueryEscape (snd p)"

lemma values_Encode_pairs: "values_Encode m = join ''&'' (map encode_pair (pairs_of (sort_key fst m)))"
  by (simp add: values_Encode_def pairs_of_def encode_entry_def [abs_def] encode_pair_def map_concat
      comp_def case_prod_beta)

lemma cut_encode_pair: "cut CHR ''='' (encode_pair p) = (QueryEscape (fst p), QueryEscape (snd p))"
proof -
  have "\<forall>x\<in>set (QueryEscape (fst p)). x \<noteq> CHR ''=''" using QueryEscape_plain by fastforce
  then show ?thesis
    by (simp add: cut_def encode_pair_def takeWhile_append2 dropWhile_append2)
qed

lemma parse_pairs_encoded:
  "parse_pairs (map encode_pair ps) m err = (foldl (\<lambda>m (k, v). values_add m k v) m ps, err)"
proof (induction ps arbitrary: m)
  case (Cons p ps)
  have "encode_pair p \<noteq> []" by (simp add: encode_pair_def)
  with Cons show ?case by (simp add: cut_encode_pair case_prod_beta)
qed simp

lemma filter_pairs_of:
  "distinct (map fst m) \<Longrightarrow> map snd (filter (\<lambda>p. fst p = k) (pairs_of m)) = values_of m k"
proof (induction m)
  case (Cons e m)
  obtain j vs where e: "e = (j, vs)" by force
  have "map snd (filter (\<lambda>p. fst p = k) (map (Pair j) vs)) = (if j = k then vs else [])"
    by (induction vs) auto
  moreover have "values_of m j = []" using Cons.prems e by (simp add: values_of_def map_of_eq_None_iff [THEN iffD2])
  ultimately show ?case using Cons e
    by (simp add: pairs_of_def values_of_def)
qed (simp add: pairs_of_def)

text \<open>What \<open>Encode\<close> writes, \<open>ParseQuery\<close> reads back, for every key.\<close>

lemma ParseQuery_Encode:
  assumes "distinct (map fst m)"
  shows "snd (ParseQuery (values_Encode m)) = None"
    and "values_of (fst (ParseQuery (values_Encode m))) k = values_of m k"
proof -
  let ?ps = "pairs_of (sort_key fst m)"
  have "\<forall>w\<in>set (map encode_pair ?ps). CHR ''&'' \<notin> set w \<and> CHR '';'' \<notin> set w"
    using QueryEscape_plain by (fastforce simp: encode_pair_def)
  then have "ParseQuery (values_Encode m) = (foldl (\<lambda>m (k, v). values_add m k v) [] ?ps, None)"
    using split_amp_join [of "map encode_pair ?ps"]
    by (cases "?ps = []") (simp_all add: ParseQuery_def values_Encode_pairs parse_pairs_encoded)
  moreover have "distinct (map fst (sort_key fst m))"
    using assms by (metis distinct_map inj_on_cong mset_map mset_sort distinct_sort set_sort distinct_count_atmost_1)
  moreover have "values_of (sort_key fst m) k = values_of m k"
    using assms calculation(2)
    by (metis values_of_def map_of_eqI map_of_inject_set set_sort)
  ultimately show "snd (ParseQuery (values_Encode m)) = None"
    "values_of (fst (ParseQuery (values_Encode m))) k = values_of m k"
    by (simp_all add: values_of_fold_add filter_pairs_of)
qed

end
