(* ===== verification/Decode.thy ===== *)
theory Decode
  imports Http
begin

text \<open>
  How a handler's variables are filled from a request: \<open>DecodeRequestValue\<close> of
  \<open>src/util/utils.go\<close>, \<open>UnmarshalForm\<close> and the \<open>Parse...Vars\<close> functions of the HTTP library,
  and the validators that the struct tags name (\<open>_vendor/github.com/dearcode/crab/validation\<close>).

  The code walks over a struct type with reflection.  Here a struct type is the list of its fields
  with their tags, and the filled struct is the list of its fields' names and values.
\<close>

section \<open>Definitions\<close>

subsection \<open>Struct types\<close>

datatype kind = KInt | KUint | KBool | KString | KSlice | KStruct

datatype validator = Required | AlphaNumeric | Email

record sfield =
  f_Name :: string
  f_Kind :: kind
  f_json :: string
  f_db :: string
  f_default :: string
  f_valid :: "validator list"

datatype goval = GInt int | GUint nat | GBool bool | GStr string | GOther

type_synonym vars = "(string \<times> goval) list"

fun zero_val :: "kind \<Rightarrow> goval" where
  "zero_val KInt = GInt 0"
| "zero_val KUint = GUint 0"
| "zero_val KBool = GBool False"
| "zero_val KString = GStr []"
| "zero_val KSlice = GOther"
| "zero_val KStruct = GOther"

text \<open>A field of a handler's variables: its name, kind, \<open>json\<close> tag and \<open>valid\<close> tag.\<close>

definition var :: "string \<Rightarrow> kind \<Rightarrow> string \<Rightarrow> validator list \<Rightarrow> sfield" where
  "var n k json valid =
     \<lparr>f_Name = n, f_Kind = k, f_json = json, f_db = [], f_default = [], f_valid = valid\<rparr>"

definition int_of :: "vars \<Rightarrow> string \<Rightarrow> int" where
  "int_of vs n = (case map_of vs n of Some (GInt i) \<Rightarrow> i | _ \<Rightarrow> 0)"

definition str_of :: "vars \<Rightarrow> string \<Rightarrow> string" where
  "str_of vs n = (case map_of vs n of Some (GStr s) \<Rightarrow> s | _ \<Rightarrow> [])"

definition bool_of :: "vars \<Rightarrow> string \<Rightarrow> bool" where
  "bool_of vs n = (case map_of vs n of Some (GBool b) \<Rightarrow> b | _ \<Rightarrow> False)"

subsection \<open>Validators\<close>

definition word_char :: "char \<Rightarrow> bool" where
  "word_char c \<longleftrightarrow> alnum c \<or> c = CHR ''_''"

definition email_char :: "char \<Rightarrow> bool" where
  "email_char c \<longleftrightarrow> word_char c \<or> c \<in> set ''!#$%&*+/=?^{|}~-'' \<or> c = CHR 0x27 \<or> c = CHR 0x60"

text \<open>The part of \<open>emailPattern\<close> after the at sign: labels of word characters and hyphens that
  begin and end with a word character, each followed by a dot, then a letter or digit.\<close>

function email_domain :: "string \<Rightarrow> bool" where
  "email_domain s =
     (let l = takeWhile (\<lambda>c. word_char c \<or> c = CHR ''-'') s;
          r = dropWhile (\<lambda>c. word_char c \<or> c = CHR ''-'') s in
      if l \<noteq> [] \<and> word_char (hd l) \<and> word_char (last l) \<and> has_prefix r ''.''
      then (tl r \<noteq> [] \<and> alnum (hd (tl r))) \<or> email_domain (tl r)
      else False)"
  by pat_completeness auto
termination
proof (relation "measure length", goal_cases)
  case (2 s l r)
  have "length r \<le> length s" using 2(2) by (simp add: length_dropWhile_le)
  moreover have "r \<noteq> []" using 2(3) by (cases r) (auto simp: has_prefix_def)
  ultimately show ?case by (cases r) auto
qed simp

text \<open>The pattern is not anchored: a match anywhere in the string is enough.\<close>

fun email_at :: "char option \<Rightarrow> string \<Rightarrow> bool" where
  "email_at p [] = False"
| "email_at p (c # s) =
     ((c = CHR ''@'' \<and> (case p of None \<Rightarrow> False | Some a \<Rightarrow> email_char a) \<and> email_domain s) \<or>
      email_at (Some c) s)"

fun IsSatisfied :: "validator \<Rightarrow> goval \<Rightarrow> bool" where
  "IsSatisfied Required (GStr s) = (s \<noteq> [])"
| "IsSatisfied Required (GInt i) = (i \<noteq> 0)"
| "IsSatisfied Required (GUint n) = (n \<noteq> 0)"
| "IsSatisfied Required v = True"
| "IsSatisfied AlphaNumeric (GStr s) = list_all alnum s"
| "IsSatisfied AlphaNumeric v = False"
| "IsSatisfied Email (GStr s) = email_at None s"
| "IsSatisfied Email v = False"

fun DefaultMessage :: "validator \<Rightarrow> string" where
  "DefaultMessage Required = ''Can not be empty''"
| "DefaultMessage AlphaNumeric = ''Must be valid alpha or numeric characters''"
| "DefaultMessage Email = ''Must be a valid email address''"

text \<open>\<open>Valid\<close> stops at the first validator that fails; the error names the field.\<close>

fun valid_field :: "string \<Rightarrow> validator list \<Rightarrow> goval \<Rightarrow> error option" where
  "valid_field n [] v = None"
| "valid_field n (c # cs) v =
     (if IsSatisfied c v then valid_field n cs v else Some (ErrText (n @ '' '' @ DefaultMessage c)))"

fun Valid :: "sfield list \<Rightarrow> vars \<Rightarrow> error option" where
  "Valid [] vs = None"
| "Valid (f # fs) vs =
     (case valid_field (f_Name f) (f_valid f)
             (case map_of vs (f_Name f) of None \<Rightarrow> zero_val (f_Kind f) | Some v \<Rightarrow> v) of
        Some e \<Rightarrow> Some e
      | None \<Rightarrow> Valid fs vs)"

subsection \<open>Decoding\<close>

definition field_key :: "sfield \<Rightarrow> string" where
  "field_key f = (if f_json f = [] then f_Name f else f_json f)"

definition format_error :: "string \<Rightarrow> string \<Rightarrow> fault" where
  "format_error key val = Error (ErrText (''key:'' @ key @ '' value:'' @ val @ '' format error''))"

text \<open>One field of \<open>DecodeRequestValue\<close>: a number that does not parse is an error only for a field
  with a \<open>valid\<close> tag, and otherwise leaves the zero value.  \<open>ptr\<close> says whether the caller passed a
  pointer: without one a field cannot be set.\<close>

definition decode_int :: "bool \<Rightarrow> sfield \<Rightarrow> string \<Rightarrow> goval result" where
  "decode_int ptr f val =
     (case parse_int 10 val of (i, ok) \<Rightarrow>
      if ok then (if ptr then Inr (GInt i) else Inl (Panic NotSettable))
      else if f_valid f = [] then Inr (GInt 0)
      else Inl (format_error (field_key f) val))"

definition decode_field :: "bool \<Rightarrow> (string \<Rightarrow> string) \<Rightarrow> sfield \<Rightarrow> goval result" where
  "decode_field ptr look f =
     (case f_Kind f of
        KInt \<Rightarrow> decode_int ptr f (look (field_key f))
      | KString \<Rightarrow> if ptr then Inr (GStr (look (field_key f))) else Inl (Panic NotSettable)
      | k \<Rightarrow> Inr (zero_val k))"

fun decode_fields :: "(sfield \<Rightarrow> goval result) \<Rightarrow> sfield list \<Rightarrow> vars result" where
  "decode_fields dec [] = Inr []"
| "decode_fields dec (f # fs) =
     rbind (dec f) (\<lambda>v. rbind (decode_fields dec fs) (\<lambda>vs. Inr ((f_Name f, v) # vs)))"

definition validated :: "sfield list \<Rightarrow> vars \<Rightarrow> vars result" where
  "validated fs vs = (case Valid fs vs of Some e \<Rightarrow> Inl (Error e) | None \<Rightarrow> Inr vs)"

definition DecodeRequestValue :: "bool \<Rightarrow> Request \<Rightarrow> sfield list \<Rightarrow> vars result" where
  "DecodeRequestValue ptr req fs =
     (case ParseForm req of
        (Some e, _) \<Rightarrow> Inl (Error e)
      | (None, r) \<Rightarrow>
          rbind (decode_fields (decode_field ptr (\<lambda>k. fst (FormValue r k))) fs) (validated fs))"

definition decode_uint :: "sfield \<Rightarrow> string \<Rightarrow> goval result" where
  "decode_uint f val =
     (case read_digits 10 val of
        Some n \<Rightarrow>
          if n < 2 ^ 64 then Inr (GUint n)
          else if f_valid f = [] then Inr (GUint 0) else Inl (format_error (field_key f) val)
      | None \<Rightarrow> if f_valid f = [] then Inr (GUint 0) else Inl (format_error (field_key f) val))"

definition unmarshal_field :: "(string \<Rightarrow> string) \<Rightarrow> sfield \<Rightarrow> goval result" where
  "unmarshal_field look f =
     (let val = look (field_key f) in
      case f_Kind f of
        KBool \<Rightarrow> Inr (GBool (val \<noteq> []))
      | KInt \<Rightarrow> decode_int True f val
      | KUint \<Rightarrow> decode_uint f val
      | KString \<Rightarrow> Inr (GStr val)
      | k \<Rightarrow> Inr (zero_val k))"

definition UnmarshalForm :: "Request \<Rightarrow> int \<Rightarrow> sfield list \<Rightarrow> vars result" where
  "UnmarshalForm req postion fs =
     (case (if postion = FORM then ParseForm req else (None, req)) of
        (Some e, _) \<Rightarrow> Inl (Error e)
      | (None, r) \<Rightarrow>
          decode_fields (unmarshal_field (\<lambda>k.
            if postion \<in> {FORM, URI} then fst (FormValue r k)
            else if postion = HEADER then header_get (rq_Header r) k else [])) fs)"

definition ParseFormVars :: "Request \<Rightarrow> sfield list \<Rightarrow> vars result" where
  "ParseFormVars req fs = rbind (UnmarshalForm req FORM fs) (validated fs)"

definition ParseURLVars :: "Request \<Rightarrow> sfield list \<Rightarrow> vars result" where
  "ParseURLVars req fs = rbind (UnmarshalForm req URI fs) (validated fs)"

definition ParseHeaderVars :: "Request \<Rightarrow> sfield list \<Rightarrow> vars result" where
  "ParseHeaderVars req fs = rbind (UnmarshalForm req HEADER fs) (validated fs)"

section \<open>What a handler may rely on\<close>

text \<open>A value of a kind.\<close>

fun has_kind :: "kind \<Rightarrow> goval \<Rightarrow> bool" where
  "has_kind KInt (GInt i) = in_int64 i"
| "has_kind KUint (GUint n) = (n < 2 ^ 64)"
| "has_kind KBool (GBool b) = True"
| "has_kind KString (GStr s) = True"
| "has_kind KSlice GOther = True"
| "has_kind KStruct GOther = True"
| "has_kind _ _ = False"

definition well_typed :: "sfield list \<Rightarrow> vars \<Rightarrow> bool" where
  "well_typed fs vs \<longleftrightarrow> list_all2 (\<lambda>f nv. fst nv = f_Name f \<and> has_kind (f_Kind f) (snd nv)) fs vs"

lemma has_kind_zero: "has_kind k (zero_val k)"
  by (cases k) (simp_all add: in_int64_def int64_min_def int64_max_def)

lemma parse_int_range: "parse_int 10 s = (i, True) \<Longrightarrow> in_int64 i"
  by (auto simp: parse_int_def in_int64_def Let_def not_less
      split: if_splits option.splits prod.splits)

lemma decode_field_kind: "decode_field ptr look f = Inr v \<Longrightarrow> has_kind (f_Kind f) v"
  using has_kind_zero [of "f_Kind f"]
  by (auto simp: decode_field_def decode_int_def in_int64_def int64_min_def int64_max_def
      split: kind.splits if_splits prod.splits dest: parse_int_range)

lemma decode_fields_typed:
  assumes "\<And>f v. dec f = Inr v \<Longrightarrow> has_kind (f_Kind f) v" "decode_fields dec fs = Inr vs"
  shows "well_typed fs vs"
  using assms(2)
  by (induction fs arbitrary: vs) (auto simp: well_typed_def go_simps dest: assms(1))

lemma valid_field_None: "valid_field n cs v = None \<longleftrightarrow> (\<forall>c\<in>set cs. IsSatisfied c v)"
  by (induction cs) auto

lemma Valid_None:
  "Valid fs vs = None \<longleftrightarrow>
     (\<forall>f\<in>set fs. \<forall>c\<in>set (f_valid f). IsSatisfied c
        (case map_of vs (f_Name f) of None \<Rightarrow> zero_val (f_Kind f) | Some v \<Rightarrow> v))"
proof (induction fs)
  case (Cons f fs)
  let ?v = "case map_of vs (f_Name f) of None \<Rightarrow> zero_val (f_Kind f) | Some v \<Rightarrow> v"
  from Cons valid_field_None [of "f_Name f" "f_valid f" ?v] show ?case
    by (cases "valid_field (f_Name f) (f_valid f) ?v") simp_all
qed simp

lemma validated_Inr: "validated fs vs = Inr ws \<longleftrightarrow> ws = vs \<and> Valid fs vs = None"
  by (auto simp: validated_def split: option.splits)

lemma DecodeRequestValue_Inr:
  assumes "DecodeRequestValue ptr req fs = Inr vs"
  obtains r where "ParseForm req = (None, r)"
    "decode_fields (decode_field ptr (\<lambda>k. fst (FormValue r k))) fs = Inr vs" "Valid fs vs = None"
  using assms by (auto simp: DecodeRequestValue_def go_simps validated_Inr split: prod.splits option.splits)

section \<open>Properties\<close>


definition sample_request :: "string \<Rightarrow> string \<Rightarrow> Values \<Rightarrow> string \<Rightarrow> Request" where
  "sample_request method path hdr query =
     \<lparr>rq_Method = method, rq_URL = zero_URL\<lparr>url_Path := path, url_RawQuery := query\<rparr>, rq_Header = hdr,
      rq_Body = RawBody [], rq_Host = [], rq_RequestURI = [], rq_PostForm = None, rq_Form = None\<rparr>"


end
