(* ===== verification/Sql.thy ===== *)
theory Sql
  imports Decode
begin

text \<open>
  The database as the programs see it: Go's \<open>database/sql\<close> over a MySQL server.

  The server is a parameter \<open>D\<close> of every function that talks to it.  It acts on a world of any type
  \<open>'w\<close>, takes the text of a statement with its arguments, and answers with rows, with the last
  inserted id and the number of affected rows, or with an error; opening a connection may fail too.
  What the development assumes of the server is stated where it is used.

  A Go struct type that a statement reads or writes is a \<open>gotype\<close>: its fields, the scan of a row
  into it, and the values of its fields.
\<close>

section \<open>Definitions\<close>

subsection \<open>Rows\<close>

datatype sqlval = SNull | SInt int | SStr string

type_synonym row = "sqlval list"

definition scan_error :: "'a result" where
  "scan_error = Inl (Error (ErrText ''sql: Scan error''))"

fun scan_int :: "sqlval \<Rightarrow> int result" where
  "scan_int SNull = scan_error"
| "scan_int (SInt i) = (if in_int64 i then Inr i else scan_error)"
| "scan_int (SStr s) = (case parse_int 10 s of (i, ok) \<Rightarrow> if ok then Inr i else scan_error)"

fun scan_string :: "sqlval \<Rightarrow> string result" where
  "scan_string SNull = scan_error"
| "scan_string (SInt i) = Inr (show_int i)"
| "scan_string (SStr s) = Inr s"

fun scan_bool :: "sqlval \<Rightarrow> bool result" where
  "scan_bool SNull = scan_error"
| "scan_bool (SInt i) = (if i = 0 then Inr False else if i = 1 then Inr True else scan_error)"
| "scan_bool (SStr s) =
     (if s \<in> set [''1'', ''t'', ''T'', ''TRUE'', ''true'', ''True''] then Inr True
      else if s \<in> set [''0'', ''f'', ''F'', ''FALSE'', ''false'', ''False''] then Inr False
      else scan_error)"

fun scan_val :: "kind \<Rightarrow> sqlval \<Rightarrow> goval result" where
  "scan_val KInt v = rbind (scan_int v) (\<lambda>i. Inr (GInt i))"
| "scan_val KString v = rbind (scan_string v) (\<lambda>s. Inr (GStr s))"
| "scan_val KBool v = rbind (scan_bool v) (\<lambda>b. Inr (GBool b))"
| "scan_val _ v = scan_error"

text \<open>\<open>Rows.Scan\<close> into the fields of a struct: as many columns as fields, each converted.\<close>

fun scan_fields :: "sfield list \<Rightarrow> row \<Rightarrow> goval list result" where
  "scan_fields [] [] = Inr []"
| "scan_fields (f # fs) (v # vs) =
     rbind (scan_val (f_Kind f) v) (\<lambda>x. rbind (scan_fields fs vs) (\<lambda>xs. Inr (x # xs)))"
| "scan_fields _ _ = scan_error"

subsection \<open>Struct types of tables\<close>

record 'a gotype =
  ty_fields :: "sfield list"
  ty_make :: "goval list \<Rightarrow> 'a"
  ty_vals :: "'a \<Rightarrow> goval list"

definition ty_scan :: "'a gotype \<Rightarrow> row \<Rightarrow> 'a result" where
  "ty_scan T r = rbind (scan_fields (ty_fields T) r) (\<lambda>vs. Inr (ty_make T vs))"

fun scan_rows :: "'a gotype \<Rightarrow> row list \<Rightarrow> 'a list result" where
  "scan_rows T [] = Inr []"
| "scan_rows T (r # rs) = rbind (ty_scan T r) (\<lambda>x. rbind (scan_rows T rs) (\<lambda>xs. Inr (x # xs)))"

text \<open>A column: the field's name, kind, \<open>db\<close> tag and \<open>db_default\<close> tag.\<close>

definition tcol :: "string \<Rightarrow> kind \<Rightarrow> string \<Rightarrow> string \<Rightarrow> sfield" where
  "tcol n k db def =
     \<lparr>f_Name = n, f_Kind = k, f_json = [], f_db = db, f_default = def, f_valid = []\<rparr>"

fun gint :: "goval \<Rightarrow> int" where
  "gint (GInt i) = i"
| "gint _ = 0"

fun gstr :: "goval \<Rightarrow> string" where
  "gstr (GStr s) = s"
| "gstr _ = []"

fun gbool :: "goval \<Rightarrow> bool" where
  "gbool (GBool b) = b"
| "gbool _ = False"

subsection \<open>The server\<close>

record 'w dbms =
  db_open :: "'w \<Rightarrow> error option \<times> 'w"
  db_query :: "string \<Rightarrow> sqlval list \<Rightarrow> 'w \<Rightarrow> (error + row list) \<times> 'w"
  db_exec :: "string \<Rightarrow> sqlval list \<Rightarrow> 'w \<Rightarrow> (error + int \<times> int) \<times> 'w"

definition GetConnection :: "'w dbms \<Rightarrow> ('w, unit) call" where
  "GetConnection D w =
     (case db_open D w of (Some e, w') \<Rightarrow> (Inl (Error e), w') | (None, w') \<Rightarrow> (Inr (), w'))"

definition db_Query :: "'w dbms \<Rightarrow> string \<Rightarrow> sqlval list \<Rightarrow> ('w, row list) call" where
  "db_Query D sql arg w =
     (case db_query D sql arg w of (Inl e, w') \<Rightarrow> (Inl (Error e), w') | (Inr rows, w') \<Rightarrow> (Inr rows, w'))"

definition db_Exec :: "'w dbms \<Rightarrow> string \<Rightarrow> sqlval list \<Rightarrow> ('w, int \<times> int) call" where
  "db_Exec D sql arg w =
     (case db_exec D sql arg w of (Inl e, w') \<Rightarrow> (Inl (Error e), w') | (Inr r, w') \<Rightarrow> (Inr r, w'))"

definition cret :: "'a result \<Rightarrow> ('w, 'a) call" where
  "cret r w = (r, w)"

text \<open>A server that also keeps the texts of the statements it was sent, in order.\<close>

definition traced :: "'w dbms \<Rightarrow> ('w \<times> string list) dbms" where
  "traced D =
     \<lparr>db_open = (\<lambda>(w, l). case db_open D w of (r, w') \<Rightarrow> (r, (w', l))),
      db_query = (\<lambda>sql arg (w, l). case db_query D sql arg w of (r, w') \<Rightarrow> (r, (w', l @ [sql]))),
      db_exec = (\<lambda>sql arg (w, l). case db_exec D sql arg w of (r, w') \<Rightarrow> (r, (w', l @ [sql])))\<rparr>"

section \<open>Lemmas\<close>

lemma scan_error_simps [simp]: "scan_error \<noteq> Inr x" "rbind scan_error f = scan_error"
  by (simp_all add: scan_error_def)

lemma GetConnection_cases:
  assumes "cbind (GetConnection D) f w = (r, w')"
  obtains e where "db_open D w = (Some e, w')" "r = Inl (Error e)"
  | w1 where "db_open D w = (None, w1)" "f () w1 = (r, w')"
  using assms by (auto simp: cbind_def GetConnection_def split: prod.splits option.splits)

lemma scan_rows_length: "scan_rows T rows = Inr xs \<Longrightarrow> length xs = length rows"
  by (induction rows arbitrary: xs) (auto simp: go_simps)

end
