(* ===== verification/Stats.thy ===== *)
theory Stats
  imports Go_Prelude "HOL-Library.AList"
begin

text \<open>
  The call statistics of the repeater, \<open>src/repeater/stats.go\<close>: calls are counted per interface
  and application and drained by a timer.  Counters and times are Go's 64-bit integers and wrap.
  The nested maps are association lists, whose order stands for one of the orders Go's map range
  may take; what the theorems say of a drained list does not depend on the order.
\<close>

section \<open>Definitions\<close>

type_synonym int64 = "64 word"

record errorEntry =
  ee_Session :: string
  ee_App :: int
  ee_Iface :: int
  ee_Info :: string
  ee_Time :: int

record entry =
  e_App :: int
  e_Iface :: int
  e_Count :: int64
  e_Time :: int64

record ifaceEntry =
  ie_apps :: "(int \<times> entry) list"

record statsCache =
  ies :: "(int \<times> ifaceEntry) list"
  ees :: "errorEntry list"

definition newStatsCache :: statsCache where
  "newStatsCache = \<lparr>ies = [], ees = []\<rparr>"

text \<open>\<open>now\<close> is the Unix time; the code stores it eight hours ahead.\<close>

definition failed :: "int \<Rightarrow> string \<Rightarrow> int \<Rightarrow> int \<Rightarrow> string \<Rightarrow> statsCache \<Rightarrow> statsCache" where
  "failed now sid app iface info s =
     s\<lparr>ees := ees s @ [\<lparr>ee_Session = sid, ee_App = app, ee_Iface = iface, ee_Info = info,
                        ee_Time = now + 8 * 3600\<rparr>]\<rparr>"

definition success :: "int \<Rightarrow> int \<Rightarrow> int64 \<Rightarrow> statsCache \<Rightarrow> statsCache" where
  "success app iface tm s =
     (let ie = (case map_of (ies s) iface of Some ie \<Rightarrow> ie | None \<Rightarrow> \<lparr>ie_apps = []\<rparr>);
          e = (case map_of (ie_apps ie) app of
                 Some e \<Rightarrow> e
               | None \<Rightarrow> \<lparr>e_App = app, e_Iface = iface, e_Count = 0, e_Time = 0\<rparr>);
          e1 = e\<lparr>e_Count := e_Count e + 1, e_Time := e_Time e + tm\<rparr>
      in s\<lparr>ies := AList.update iface (ie\<lparr>ie_apps := AList.update app e1 (ie_apps ie)\<rparr>) (ies s)\<rparr>)"

text \<open>The nested loops of \<open>entrys\<close>: every entry is copied out and every key deleted.\<close>

definition entrys :: "statsCache \<Rightarrow> entry list \<times> statsCache" where
  "entrys s = (concat (map (\<lambda>(ii, ie). map snd (ie_apps ie)) (ies s)), s\<lparr>ies := []\<rparr>)"

definition errorEntrys :: "statsCache \<Rightarrow> errorEntry list \<times> statsCache" where
  "errorEntrys s = (ees s, s\<lparr>ees := []\<rparr>)"

text \<open>A use of the statistics by the requests and the timer, with what the timer drained.\<close>

datatype statsOp = Success int int int64 | Failed int string int int string | Drain

fun run_stats :: "statsOp list \<Rightarrow> statsCache \<Rightarrow> entry list \<times> errorEntry list \<times> statsCache" where
  "run_stats [] s = ([], [], s)"
| "run_stats (Success app iface tm # ops) s = run_stats ops (success app iface tm s)"
| "run_stats (Failed now sid app iface info # ops) s = run_stats ops (failed now sid app iface info s)"
| "run_stats (Drain # ops) s =
     (case entrys s of (es, s1) \<Rightarrow>
      case errorEntrys s1 of (fs, s2) \<Rightarrow>
      case run_stats ops s2 of (es', fs', s') \<Rightarrow> (es @ es', fs @ fs', s'))"

text \<open>Per interface and application: the calls and the time a list of entries accounts for, and
  those of a sequence of operations.\<close>

definition counted :: "int \<Rightarrow> int \<Rightarrow> entry list \<Rightarrow> int64 \<times> int64" where
  "counted app iface es =
     (let mine = filter (\<lambda>e. e_App e = app \<and> e_Iface e = iface) es
      in (sum_list (map e_Count mine), sum_list (map e_Time mine)))"

fun recorded :: "int \<Rightarrow> int \<Rightarrow> statsOp list \<Rightarrow> int64 \<times> int64" where
  "recorded app iface [] = (0, 0)"
| "recorded app iface (Success a i tm # ops) =
     (if a = app \<and> i = iface
      then (fst (recorded app iface ops) + 1, snd (recorded app iface ops) + tm)
      else recorded app iface ops)"
| "recorded app iface (_ # ops) = recorded app iface ops"

definition failures :: "statsOp list \<Rightarrow> string list" where
  "failures ops = List.map_filter (\<lambda>op. case op of Failed now sid app iface info \<Rightarrow> Some sid | _ \<Rightarrow> None) ops"

definition stats_ok :: "statsCache \<Rightarrow> bool" where
  "stats_ok s \<longleftrightarrow>
     distinct (map fst (ies s)) \<and>
     (\<forall>(i, ie) \<in> set (ies s). distinct (map fst (ie_apps ie)) \<and>
        (\<forall>(a, e) \<in> set (ie_apps ie). e_App e = a \<and> e_Iface e = i))"

section \<open>Lemmas\<close>

lemma stats_ok_new [simp]: "stats_ok newStatsCache"
  by (simp add: stats_ok_def newStatsCache_def)

lemma stats_ok_clear [simp]: "stats_ok (s\<lparr>ies := []\<rparr>)"
  by (simp add: stats_ok_def)

lemma counted_Nil [simp]: "counted a i [] = (0, 0)"
  by (simp add: counted_def)

lemma counted_append:
  "counted a i (xs @ ys) = (fst (counted a i xs) + fst (counted a i ys),
     snd (counted a i xs) + snd (counted a i ys))"
  by (simp add: counted_def Let_def)

text \<open>Under the invariant the entries of one interface and application are one or none.\<close>

definition pending :: "int \<Rightarrow> int \<Rightarrow> statsCache \<Rightarrow> entry option" where
  "pending app iface s =
     Option.bind (map_of (ies s) iface) (\<lambda>ie. map_of (ie_apps ie) app)"

definition own :: "int \<Rightarrow> int \<Rightarrow> entry list \<Rightarrow> entry list" where
  "own app iface es = filter (\<lambda>e. e_App e = app \<and> e_Iface e = iface) es"

lemma own_apps:
  assumes "distinct (map fst as)" "\<forall>(a, e) \<in> set as. e_App e = a \<and> e_Iface e = j"
  shows "own app iface (map snd as) =
           (if iface = j then (case map_of as app of Some e \<Rightarrow> [e] | None \<Rightarrow> []) else [])"
  using assms
proof (induction as)
  case (Cons x as)
  obtain a e where x: "x = (a, e)" by force
  have "map_of as a = None" using Cons.prems(1) x by (simp add: map_of_eq_None_iff)
  with Cons x show ?case by (auto simp: own_def)
qed (simp add: own_def)

lemma own_entrys:
  assumes "stats_ok s"
  shows "own app iface (fst (entrys s)) =
           (case pending app iface s of Some e \<Rightarrow> [e] | None \<Rightarrow> [])"
proof -
  have main: "own app iface (concat (map (\<lambda>(ii, ie). map snd (ie_apps ie)) l)) =
      (case Option.bind (map_of l iface) (\<lambda>ie. map_of (ie_apps ie) app) of
         Some e \<Rightarrow> [e] | None \<Rightarrow> [])"
    if "distinct (map fst l)" "\<forall>(i, ie) \<in> set l. distinct (map fst (ie_apps ie)) \<and>
        (\<forall>(a, e) \<in> set (ie_apps ie). e_App e = a \<and> e_Iface e = i)" for l
    using that
  proof (induction l)
    case (Cons x l)
    obtain i ie where x: "x = (i, ie)" by force
    have none: "map_of l i = None" using Cons.prems(1) x by (simp add: map_of_eq_None_iff)
    have "own app iface (map snd (ie_apps ie)) =
        (if iface = i then (case map_of (ie_apps ie) app of Some e \<Rightarrow> [e] | None \<Rightarrow> []) else [])"
      using Cons.prems(2) x by (intro own_apps) auto
    with Cons x none show ?case by (auto simp: own_def)
  qed (simp add: own_def)
  show ?thesis
    using assms unfolding entrys_def pending_def fst_conv stats_ok_def
    by (intro main) simp_all
qed

lemma counted_entrys:
  assumes "stats_ok s"
  shows "counted app iface (fst (entrys s)) =
           (case pending app iface s of Some e \<Rightarrow> (e_Count e, e_Time e) | None \<Rightarrow> (0, 0))"
  using own_entrys [OF assms, of app iface]
  by (simp add: counted_def own_def split: option.split)

lemma pending_success:
  "pending a i (success app iface tm s) =
     (if a = app \<and> i = iface
      then Some (case pending app iface s of
                   Some e \<Rightarrow> e\<lparr>e_Count := e_Count e + 1, e_Time := e_Time e + tm\<rparr>
                 | None \<Rightarrow> \<lparr>e_App = app, e_Iface = iface, e_Count = 1, e_Time = tm\<rparr>)
      else pending a i s)"
  by (simp add: pending_def success_def Let_def update_conv' split: option.split)

lemma ball_update:
  "\<forall>x\<in>set al. P x \<Longrightarrow> P (k, v) \<Longrightarrow> \<forall>x\<in>set (AList.update k v al). P x"
  by (induction al) auto

lemma stats_ok_update:
  assumes "stats_ok s" "distinct (map fst (ie_apps x))"
    "\<forall>(a, e) \<in> set (ie_apps x). e_App e = a \<and> e_Iface e = i"
  shows "stats_ok (s\<lparr>ies := AList.update i x (ies s)\<rparr>)"
proof -
  let ?P = "\<lambda>(i, ie). distinct (map fst (ie_apps ie)) \<and>
    (\<forall>(a, e) \<in> set (ie_apps ie). e_App e = a \<and> e_Iface e = i)"
  have "\<forall>p\<in>set (AList.update i x (ies s)). ?P p"
    by (rule ball_update) (use assms in \<open>auto simp: stats_ok_def\<close>)
  then show ?thesis
    using assms(1) by (simp add: stats_ok_def distinct_update)
qed

lemma stats_ok_success:
  assumes "stats_ok s"
  shows "stats_ok (success app iface tm s)"
proof -
  define ie where
    "ie = (case map_of (ies s) iface of Some ie \<Rightarrow> ie | None \<Rightarrow> \<lparr>ie_apps = []\<rparr>)"
  define e where "e = (case map_of (ie_apps ie) app of Some e \<Rightarrow> e
      | None \<Rightarrow> \<lparr>e_App = app, e_Iface = iface, e_Count = 0, e_Time = 0\<rparr>)"
  let ?e = "e\<lparr>e_Count := e_Count e + 1, e_Time := e_Time e + tm\<rparr>"
  let ?as = "AList.update app ?e (ie_apps ie)"
  have ie: "distinct (map fst (ie_apps ie))" "\<forall>(a, e) \<in> set (ie_apps ie). e_App e = a \<and> e_Iface e = iface"
    using assms by (auto simp: ie_def stats_ok_def split: option.splits dest!: map_of_SomeD)
  then have "e_App e = app \<and> e_Iface e = iface"
    by (auto simp: e_def split: option.splits dest!: map_of_SomeD)
  then have "\<forall>(a, e) \<in> set ?as. e_App e = a \<and> e_Iface e = iface"
    by (intro ball_update ie(2)) simp
  moreover have "distinct (map fst ?as)"
    using ie(1) by (rule distinct_update)
  moreover have "success app iface tm s = s\<lparr>ies := AList.update iface (ie\<lparr>ie_apps := ?as\<rparr>) (ies s)\<rparr>"
    by (simp add: success_def Let_def ie_def e_def)
  ultimately show ?thesis
    using stats_ok_update [OF assms, of "ie\<lparr>ie_apps := ?as\<rparr>" iface] by simp
qed

lemma counted_success:
  assumes "stats_ok s"
  shows "counted a i (fst (entrys (success app iface tm s))) =
           (let (c, t) = counted a i (fst (entrys s))
            in if a = app \<and> i = iface then (c + 1, t + tm) else (c, t))"
  using assms by (simp add: counted_entrys stats_ok_success pending_success split: option.split)

lemma entrys_failed [simp]:
  "fst (entrys (failed now sid app iface info s)) = fst (entrys s)"
  "stats_ok (failed now sid app iface info s) = stats_ok s"
  by (simp_all add: entrys_def failed_def stats_ok_def)

lemma run_stats_conserves:
  assumes "stats_ok s" "run_stats ops s = (es, fs, s')"
  shows "counted a i (es @ fst (entrys s')) =
           (fst (counted a i (fst (entrys s))) + fst (recorded a i ops),
            snd (counted a i (fst (entrys s))) + snd (recorded a i ops))"
  using assms
proof (induction ops arbitrary: s es fs)
  case (Cons op ops)
  show ?case
  proof (cases op)
    case (Success app iface tm)
    with Cons.IH [of "success app iface tm s" es fs] Cons.prems show ?thesis
      by (auto simp: stats_ok_success counted_success Let_def split: prod.splits)
  next
    case (Failed now sid app iface info)
    with Cons.IH [of "failed now sid app iface info s" es fs] Cons.prems show ?thesis by simp
  next
    case Drain
    let ?s = "s\<lparr>ies := [], ees := []\<rparr>"
    obtain es1 fs1 where run: "run_stats ops ?s = (es1, fs1, s')" "es = fst (entrys s) @ es1"
      using Cons.prems(2) Drain by (auto simp: entrys_def errorEntrys_def split: prod.splits)
    have "stats_ok ?s" "fst (entrys ?s) = []" by (simp_all add: stats_ok_def entrys_def)
    with Cons.IH [OF _ run(1)] run(2) Drain show ?thesis
      by (simp add: counted_append prod_eq_iff add.assoc)
  qed
qed simp

lemma run_stats_failures:
  assumes "run_stats ops s = (es, fs, s')"
  shows "map ee_Session (fs @ ees s') = map ee_Session (ees s) @ failures ops"
  using assms
proof (induction ops arbitrary: s es fs)
  case (Cons op ops)
  show ?case
  proof (cases op)
    case (Success app iface tm)
    with Cons.IH [of "success app iface tm s" es fs] Cons.prems show ?thesis
      by (simp add: success_def Let_def failures_def map_filter_simps)
  next
    case (Failed now sid app iface info)
    with Cons.IH [of "failed now sid app iface info s" es fs] Cons.prems show ?thesis
      by (simp add: failed_def failures_def map_filter_simps)
  next
    case Drain
    let ?s = "s\<lparr>ies := [], ees := []\<rparr>"
    obtain es1 fs1 where run: "run_stats ops ?s = (es1, fs1, s')" "fs = ees s @ fs1"
      using Cons.prems Drain by (auto simp: entrys_def errorEntrys_def split: prod.splits)
    with Cons.IH [OF run(1)] Drain show ?thesis
      by (simp add: failures_def map_filter_simps)
  qed
qed (simp add: failures_def map_filter_simps)

section \<open>Properties\<close>

text \<open>C8: no call is lost or counted twice.  However requests and the timer interleave, for every
  interface and application the calls and milliseconds in what was drained plus what is still
  cached are the calls and milliseconds recorded, modulo 64 bits.\<close>

theorem stats_conserved:
  assumes "run_stats ops newStatsCache = (drained, errs, s)"
  shows "counted app iface (drained @ fst (entrys s)) = recorded app iface ops"
  using run_stats_conserves [OF stats_ok_new assms, of app iface]
  by (simp add: counted_def entrys_def newStatsCache_def)

theorem stats_conserved_witness:
  "counted 7 3 (fst (run_stats
     [Success 7 3 20, Success 8 3 1, Drain, Success 7 3 22, Failed 0 ''s'' 7 3 ''e'', Drain]
     newStatsCache)) = (2, 42)"
proof -
  let ?ops = "[Success 7 3 20, Success 8 3 1, Drain, Success 7 3 22, Failed 0 ''s'' 7 3 ''e'', Drain]"
  obtain es fs s where run: "run_stats ?ops newStatsCache = (es, fs, s)"
    by (cases "run_stats ?ops newStatsCache") auto
  have "fst (entrys s) = []"
    using run by (auto simp: entrys_def errorEntrys_def failed_def)
  with stats_conserved [OF run, of 7 3] run show ?thesis by simp
qed

text \<open>C34: every failed call is reported exactly once and in order: the sessions of the drained
  error entries followed by the cached ones are those of the failures.\<close>

theorem stats_failures_reported:
  assumes "run_stats ops newStatsCache = (drained, errs, s)"
  shows "map ee_Session (errs @ ees s) = failures ops"
  using run_stats_failures [OF assms] by (simp add: newStatsCache_def)

theorem stats_failures_reported_witness:
  "map ee_Session (fst (snd (run_stats [Failed 0 ''s'' 7 3 ''e'', Drain] newStatsCache))) = [''s'']"
proof -
  obtain es fs s where run: "run_stats [Failed 0 ''s'' 7 3 ''e'', Drain] newStatsCache = (es, fs, s)"
    by (cases "run_stats [Failed 0 ''s'' 7 3 ''e'', Drain] newStatsCache") auto
  have "ees s = []"
    using run by (auto simp: entrys_def errorEntrys_def failed_def)
  with stats_failures_reported [OF run] run show ?thesis
    by (simp add: failures_def map_filter_simps)
qed

end
