(* ===== verification/DbCache.thy ===== *)
theory DbCache
  imports Token Cache Sql Stats
begin

text \<open>
  The repeater's database access, \<open>src/repeater/cache.go\<close>: seven prepared statements behind a
  connection that is re-established on demand, and an expiring cache in front of them.

  The MySQL server is not part of the sources.  It is a parameter \<open>srv\<close> that answers the n-th
  interaction arbitrarily: a connection attempt, a prepare, a query or an exec may fail at any
  time, and a query may return any rows.  The state keeps a log of the rows the server returned,
  with the Unix time of the operation; what the cache may serve is stated against that log.  The
  clock reads the same throughout one operation.  Pointers to the connection and to the prepared
  statements matter only by being nil or not.
\<close>

section \<open>Definitions\<close>

subsection \<open>The server\<close>

datatype sqlstmt = SelService | SelIface | SelVar | SelApp | SelRelation | InstStats | InstErrorStats

fun sqlText :: "sqlstmt \<Rightarrow> string" where
  "sqlText SelService = ''select id, validate, version from service where path=?''"
| "sqlText SelIface =
     ''select id, method, backend, email from interface where service_id = ? and path=?''"
| "sqlText SelVar = ''select postion, name, type, required from variable where interface_id = ?''"
| "sqlText SelApp = ''select name, email from application where id = ? and token=?''"
| "sqlText SelRelation = ''select id from relation where application_id = ? and interface_id=?''"
| "sqlText InstStats = ''insert into stats (iface_id, app_id, cnt, cost, event_time) values (?,?,?,?,?) ON DUPLICATE KEY UPDATE cnt = cnt + ?, cost =  cost + ?''"
| "sqlText InstErrorStats =
     ''insert into stats_error (session, iface_id, app_id, info, ctime) values (?,?,?,?,?)''"

text \<open>\<open>database/sql\<close> refuses a call whose arguments are not as many as the placeholders.\<close>

definition numInput :: "sqlstmt \<Rightarrow> nat" where
  "numInput s = length (filter (\<lambda>c. c = CHR ''?'') (sqlText s))"

record dbServer =
  srv_connect :: "nat \<Rightarrow> error option"
  srv_prepare :: "nat \<Rightarrow> sqlstmt \<Rightarrow> error option"
  srv_query :: "nat \<Rightarrow> sqlstmt \<Rightarrow> sqlval list \<Rightarrow> error + row list"
  srv_exec :: "nat \<Rightarrow> sqlstmt \<Rightarrow> sqlval list \<Rightarrow> error + int"

datatype dbEvent = Answer sqlstmt "sqlval list" "row list" | Executed sqlstmt "sqlval list"

datatype cacheVal =
    CIface Interface
  | CApp Application
  | CVars "Variable list"
  | CRel int

record dbCache =
  cache :: "cacheVal Cache"
  dbc :: bool
  stmts :: "sqlstmt \<Rightarrow> bool"
  now :: int
  sent :: nat
  dblog :: "(int \<times> dbEvent) list"

definition count_call :: "dbCache \<Rightarrow> dbCache" where
  "count_call dc = dc\<lparr>sent := Suc (sent dc)\<rparr>"

definition log_event :: "dbEvent \<Rightarrow> dbCache \<Rightarrow> dbCache" where
  "log_event ev dc = dc\<lparr>dblog := dblog dc @ [(now dc, ev)]\<rparr>"

text \<open>\<open>Stmt.Query\<close> and \<open>Stmt.Exec\<close> on a statement pointer: \<open>live\<close> says that it is not nil.\<close>

definition stmt_query :: "dbServer \<Rightarrow> bool \<Rightarrow> sqlstmt \<Rightarrow> sqlval list \<Rightarrow> (dbCache, error + row list) call" where
  "stmt_query srv live s arg dc =
     (if \<not> live then (Inl (Panic NilDereference), dc)
      else if length arg \<noteq> numInput s then (Inr (Inl (ErrArgs (numInput s) (length arg))), dc)
      else (case srv_query srv (sent dc) s arg of
              Inl e \<Rightarrow> (Inr (Inl e), count_call dc)
            | Inr rows \<Rightarrow> (Inr (Inr rows), log_event (Answer s arg rows) (count_call dc))))"

definition stmt_exec :: "dbServer \<Rightarrow> bool \<Rightarrow> sqlstmt \<Rightarrow> sqlval list \<Rightarrow> (dbCache, error + int) call" where
  "stmt_exec srv live s arg dc =
     (if \<not> live then (Inl (Panic NilDereference), dc)
      else if length arg \<noteq> numInput s then (Inr (Inl (ErrArgs (numInput s) (length arg))), dc)
      else (case srv_exec srv (sent dc) s arg of
              Inl e \<Rightarrow> (Inr (Inl e), count_call dc)
            | Inr n \<Rightarrow> (Inr (Inr n), log_event (Executed s arg) (count_call dc))))"

subsection \<open>Connecting\<close>

definition closeAll :: "dbCache \<Rightarrow> dbCache" where
  "closeAll dc = dc\<lparr>dbc := False, stmts := (\<lambda>_. False)\<rparr>"

definition statements :: "sqlstmt list" where
  "statements = [SelService, SelIface, SelVar, SelApp, SelRelation, InstStats, InstErrorStats]"

fun prepare_all :: "dbServer \<Rightarrow> sqlstmt list \<Rightarrow> dbCache \<Rightarrow> error option \<times> dbCache" where
  "prepare_all srv [] dc = (None, dc)"
| "prepare_all srv (s # ss) dc =
     (case srv_prepare srv (sent dc) s of
        Some e \<Rightarrow> (Some e, (count_call dc)\<lparr>stmts := (stmts dc)(s := False)\<rparr>)
      | None \<Rightarrow> prepare_all srv ss ((count_call dc)\<lparr>stmts := (stmts dc)(s := True)\<rparr>))"

text \<open>The deferred function of \<open>conectDB\<close> closes everything when an error is returned.\<close>

definition conectDB :: "dbServer \<Rightarrow> dbCache \<Rightarrow> error option \<times> dbCache" where
  "conectDB srv dc =
     (case srv_connect srv (sent dc) of
        Some e \<Rightarrow> (Some e, closeAll ((count_call dc)\<lparr>dbc := False\<rparr>))
      | None \<Rightarrow>
          (case prepare_all srv statements ((count_call dc)\<lparr>dbc := True\<rparr>) of
             (Some e, dc1) \<Rightarrow> (Some e, closeAll dc1)
           | (None, dc1) \<Rightarrow> (None, dc1)))"

definition maxRetry :: nat where
  "maxRetry = 5"

subsection \<open>The retry loops\<close>

text \<open>
  Each loop runs \<open>maxRetry\<close> times and ends with the last error and, if a call succeeded, its
  result; \<open>None\<close> for the result is Go's nil.
\<close>

fun query_loop :: "dbServer \<Rightarrow> nat \<Rightarrow> bool \<Rightarrow> sqlstmt \<Rightarrow> sqlval list \<Rightarrow> error option \<Rightarrow>
    (dbCache, row list option \<times> error option) call" where
  "query_loop srv 0 live s arg err dc = (Inr (None, err), dc)"
| "query_loop srv (Suc i) live s arg err dc =
     (if dbc dc then
        (case stmt_query srv live s arg dc of
           (Inl f, dc1) \<Rightarrow> (Inl f, dc1)
         | (Inr (Inl e), dc1) \<Rightarrow> query_loop srv i live s arg (Some e) dc1
         | (Inr (Inr rows), dc1) \<Rightarrow> (Inr (Some rows, None), dc1))
      else (case conectDB srv dc of (err1, dc1) \<Rightarrow> query_loop srv i live s arg err1 dc1))"

text \<open>\<open>queryDB\<close>; the statement pointer is read from the struct by the caller, before the lock.\<close>

definition queryDB :: "dbServer \<Rightarrow> sqlstmt \<Rightarrow> sqlval list \<Rightarrow> (row \<Rightarrow> 'a result) \<Rightarrow> (dbCache, 'a) call" where
  "queryDB srv s arg scan =
     cbind (\<lambda>dc. query_loop srv maxRetry (stmts dc s) s arg None dc) (\<lambda>(rows, err) dc.
     case err of
       Some e \<Rightarrow> (Inl (Error e), dc)
     | None \<Rightarrow>
         (case rows of
            None \<Rightarrow> (Inl (Panic NilDereference), dc)
          | Some [] \<Rightarrow> (Inl (Error ErrNotFound), dc)
          | Some (r # rs) \<Rightarrow> (scan r, dc)))"

text \<open>\<open>dbQuery\<close> with the closure of \<open>getVariable\<close>, which reads the statement when it runs.\<close>

fun dbQuery :: "dbServer \<Rightarrow> nat \<Rightarrow> sqlstmt \<Rightarrow> sqlval list \<Rightarrow> error option \<Rightarrow>
    (dbCache, row list option \<times> error option) call" where
  "dbQuery srv 0 s arg err dc = (Inr (None, err), dc)"
| "dbQuery srv (Suc i) s arg err dc =
     (if dbc dc then
        (case stmt_query srv (stmts dc s) s arg dc of
           (Inl f, dc1) \<Rightarrow> (Inl f, dc1)
         | (Inr (Inl e), dc1) \<Rightarrow> (case conectDB srv dc1 of (err1, dc2) \<Rightarrow> dbQuery srv i s arg err1 dc2)
         | (Inr (Inr rows), dc1) \<Rightarrow> (Inr (Some rows, None), dc1))
      else (case conectDB srv dc of (err1, dc1) \<Rightarrow> dbQuery srv i s arg err1 dc1))"

fun exec_loop :: "dbServer \<Rightarrow> nat \<Rightarrow> bool \<Rightarrow> sqlstmt \<Rightarrow> sqlval list \<Rightarrow> error option \<Rightarrow>
    (dbCache, int option \<times> error option) call" where
  "exec_loop srv 0 live s arg err dc = (Inr (None, err), dc)"
| "exec_loop srv (Suc i) live s arg err dc =
     (if dbc dc then
        (case stmt_exec srv live s arg dc of
           (Inl f, dc1) \<Rightarrow> (Inl f, dc1)
         | (Inr (Inl e), dc1) \<Rightarrow> exec_loop srv i live s arg (Some e) dc1
         | (Inr (Inr n), dc1) \<Rightarrow> (Inr (Some n, None), dc1))
      else (case conectDB srv dc of (err1, dc1) \<Rightarrow> exec_loop srv i live s arg err1 dc1))"

definition executeDB :: "dbServer \<Rightarrow> sqlstmt \<Rightarrow> sqlval list \<Rightarrow>
    (dbCache, int option \<times> error option) call" where
  "executeDB srv s arg dc = exec_loop srv maxRetry (stmts dc s) s arg None dc"

definition insertDB :: "dbServer \<Rightarrow> sqlstmt \<Rightarrow> sqlval list \<Rightarrow> (dbCache, int) call" where
  "insertDB srv s arg =
     cbind (executeDB srv s arg) (\<lambda>(res, err) dc.
     case err of
       Some e \<Rightarrow> (Inl (Error e), dc)
     | None \<Rightarrow> (case res of None \<Rightarrow> (Inl (Panic NilDereference), dc) | Some n \<Rightarrow> (Inr n, dc)))"

subsection \<open>Scanning rows\<close>

definition scan_service :: "row \<Rightarrow> Service result" where
  "scan_service r =
     (case r of
        [a, b, c] \<Rightarrow>
          rbind (scan_int a) (\<lambda>ID. rbind (scan_bool b) (\<lambda>validate. rbind (scan_int c) (\<lambda>version.
          Inr (zero_Service\<lparr>svc_ID := ID, svc_Validate := validate, svc_Version := version\<rparr>))))
      | _ \<Rightarrow> scan_error)"

definition scan_iface :: "row \<Rightarrow> Interface result" where
  "scan_iface r =
     (case r of
        [a, b, c, d] \<Rightarrow>
          rbind (scan_int a) (\<lambda>ID. rbind (scan_int b) (\<lambda>method.
          rbind (scan_string c) (\<lambda>backend. rbind (scan_string d) (\<lambda>email.
          Inr (zero_Interface\<lparr>ifc_ID := ID, ifc_Method := method, ifc_Backend := backend,
                 ifc_Email := email\<rparr>)))))
      | _ \<Rightarrow> scan_error)"

definition scan_var :: "row \<Rightarrow> Variable result" where
  "scan_var r =
     (case r of
        [a, b, c, d] \<Rightarrow>
          rbind (scan_int a) (\<lambda>postion. rbind (scan_string b) (\<lambda>name.
          rbind (scan_string c) (\<lambda>ty. rbind (scan_bool d) (\<lambda>required.
          Inr (zero_Variable\<lparr>var_Postion := postion, var_Name := name, var_Type := ty,
                 var_Required := required\<rparr>)))))
      | _ \<Rightarrow> scan_error)"

definition scan_app :: "int \<Rightarrow> row \<Rightarrow> Application result" where
  "scan_app appID r =
     (case r of
        [a, b] \<Rightarrow>
          rbind (scan_string a) (\<lambda>name. rbind (scan_string b) (\<lambda>email.
          Inr (zero_Application\<lparr>app_ID := appID, app_Name := name, app_Email := email\<rparr>)))
      | _ \<Rightarrow> scan_error)"

definition scan_id :: "row \<Rightarrow> int result" where
  "scan_id r = (case r of [a] \<Rightarrow> scan_int a | _ \<Rightarrow> scan_error)"

fun scan_vars :: "row list \<Rightarrow> Variable list result" where
  "scan_vars [] = Inr []"
| "scan_vars (r # rs) = rbind (scan_var r) (\<lambda>v. rbind (scan_vars rs) (\<lambda>vs. Inr (v # vs)))"

subsection \<open>Cached lookups\<close>

definition cache_get :: "string \<Rightarrow> (dbCache, cacheVal option) call" where
  "cache_get k dc = (case Get (now dc) k (cache dc) of (v, c) \<Rightarrow> (Inr v, dc\<lparr>cache := c\<rparr>))"

definition cache_add :: "string \<Rightarrow> cacheVal \<Rightarrow> (dbCache, unit) call" where
  "cache_add k v dc = (Inr (), dc\<lparr>cache := Add (now dc) k v (cache dc)\<rparr>)"

definition bad_assertion :: fault where
  "bad_assertion = Panic (PanicText ''interface conversion'')"

text \<open>The type assertions on cached values.\<close>

fun as_app :: "cacheVal \<Rightarrow> Application result" where
  "as_app (CApp a) = Inr a"
| "as_app _ = Inl bad_assertion"

fun as_iface :: "cacheVal \<Rightarrow> Interface result" where
  "as_iface (CIface i) = Inr i"
| "as_iface _ = Inl bad_assertion"

fun as_vars :: "cacheVal \<Rightarrow> Variable list result" where
  "as_vars (CVars vs) = Inr vs"
| "as_vars _ = Inl bad_assertion"

definition clift :: "'a result \<Rightarrow> (dbCache, 'a) call" where
  "clift r dc = (r, dc)"

definition app_key :: "int \<Rightarrow> string" where
  "app_key i = CHR 0x01 # show_int i"

definition var_key :: "int \<Rightarrow> string" where
  "var_key i = CHR 0x02 # show_int i"

definition rel_key :: "int \<Rightarrow> int \<Rightarrow> string" where
  "rel_key appID ifaceID = CHR 0x03 # show_int appID @ show_int ifaceID"

text \<open>The path of the interface in the key: the third part, or for a function service everything
  after the service's name up to the last question mark.\<close>

definition iface_path :: "string \<Rightarrow> string list \<Rightarrow> Service \<Rightarrow> string result" where
  "iface_path key ps p =
     (if svc_Version p = 1 then
        rbind (go_slice key (int (length (ps ! 1)) + 1) (int (length key))) (\<lambda>path.
        case last_index path CHR ''?'' of
          None \<Rightarrow> Inr path
        | Some idx \<Rightarrow> go_slice path 0 (int idx))
      else Inr (ps ! 2))"

text \<open>The part of \<open>getInterface\<close> after a miss.\<close>

definition lookup_interface :: "dbServer \<Rightarrow> string \<Rightarrow> (dbCache, Interface) call" where
  "lookup_interface srv key =
     (let ps = split_on CHR ''/'' key in
      if length ps < 3 then craise (Error ErrInvalidPath)
      else
        cbind (queryDB srv SelService [SStr (ps ! 1)] scan_service) (\<lambda>p.
        cbind (clift (iface_path key ps p)) (\<lambda>path.
        cbind (queryDB srv SelIface [SInt (svc_ID p), SStr path] scan_iface) (\<lambda>i.
        cbind (cache_add key (CIface (i\<lparr>ifc_Path := path, ifc_Service := p\<rparr>))) (\<lambda>_.
        creturn (i\<lparr>ifc_Path := path, ifc_Service := p\<rparr>))))))"

definition getInterface :: "dbServer \<Rightarrow> string \<Rightarrow> (dbCache, Interface) call" where
  "getInterface srv key =
     cbind (cache_get key) (\<lambda>hit.
     case hit of
       Some v \<Rightarrow> clift (as_iface v)
     | None \<Rightarrow> lookup_interface srv key)"

definition validateRelation :: "dbServer \<Rightarrow> int \<Rightarrow> int \<Rightarrow> (dbCache, unit) call" where
  "validateRelation srv appID ifaceID =
     (let key = rel_key appID ifaceID in
      cbind (cache_get key) (\<lambda>hit.
      case hit of
        Some _ \<Rightarrow> creturn ()
      | None \<Rightarrow>
          cbind (queryDB srv SelRelation [SInt appID, SInt ifaceID] scan_id) (\<lambda>rid.
          cache_add key (CRel rid))))"

definition getApplication :: "dbServer \<Rightarrow> int \<Rightarrow> string \<Rightarrow> (dbCache, Application) call" where
  "getApplication srv appID token =
     (let key = app_key appID in
      cbind (cache_get key) (\<lambda>hit.
      case hit of
        Some v \<Rightarrow> clift (as_app v)
      | None \<Rightarrow>
          cbind (queryDB srv SelApp [SInt appID, SStr token] (scan_app appID)) (\<lambda>a.
          cbind (cache_add key (CApp a)) (\<lambda>_. creturn a))))"

text \<open>\<open>getApp\<close> opens the token like \<open>parseToken\<close> of the rbac server, with the same errors.\<close>

definition getApp :: "dbServer \<Rightarrow> string \<Rightarrow> (dbCache, Application) call" where
  "getApp srv token =
     cbind (clift (parseToken token)) (\<lambda>appID. getApplication srv appID token)"

text \<open>The part of \<open>getVariable\<close> after a miss.\<close>

definition lookup_variable :: "dbServer \<Rightarrow> int \<Rightarrow> (dbCache, Variable list) call" where
  "lookup_variable srv ident =
     cbind (dbQuery srv maxRetry SelVar [SInt ident] None) (\<lambda>(rows, err).
     case err of
       Some e \<Rightarrow> craise (Error e)
     | None \<Rightarrow>
         (case rows of
            None \<Rightarrow> craise (Panic NilDereference)
          | Some rs \<Rightarrow>
              cbind (clift (scan_vars rs)) (\<lambda>vs.
              cbind (cache_add (var_key ident) (CVars vs)) (\<lambda>_. creturn vs))))"

definition getVariable :: "dbServer \<Rightarrow> int \<Rightarrow> (dbCache, Variable list) call" where
  "getVariable srv ident =
     cbind (cache_get (var_key ident)) (\<lambda>hit.
     case hit of Some v \<Rightarrow> clift (as_vars v) | None \<Rightarrow> lookup_variable srv ident)"

subsection \<open>Statistics\<close>

text \<open>\<open>minute\<close> is the clock formatted as \<open>2006-01-02 15:04\<close>.\<close>

definition insertStats :: "dbServer \<Rightarrow> string \<Rightarrow> int \<Rightarrow> int \<Rightarrow> int64 \<Rightarrow> int64 \<Rightarrow> (dbCache, unit) call" where
  "insertStats srv minute iface app cnt cost =
     cbind (insertDB srv InstStats
       [SInt iface, SInt app, SInt (sint cnt), SInt (sint cost), SStr minute, SInt (sint cnt), SInt (sint cost)])
       (\<lambda>_. creturn ())"

definition insertErrorStats :: "dbServer \<Rightarrow> string \<Rightarrow> int \<Rightarrow> int \<Rightarrow> string \<Rightarrow> int \<Rightarrow> (dbCache, unit) call" where
  "insertErrorStats srv session iface app info tm =
     cbind (insertDB srv InstErrorStats [SStr session, SInt iface, SInt app, SStr info])
       (\<lambda>_. creturn ())"

text \<open>One round of the timer loop of \<open>statsCache.run\<close>; errors are logged and dropped, a panic is
  not recovered in that goroutine.\<close>

fun flush_entries :: "dbServer \<Rightarrow> string \<Rightarrow> entry list \<Rightarrow> (dbCache, unit) call" where
  "flush_entries srv minute [] dc = (Inr (), dc)"
| "flush_entries srv minute (e # es) dc =
     (case insertStats srv minute (e_Iface e) (e_App e) (e_Count e) (e_Time e) dc of
        (Inl (Panic p), dc1) \<Rightarrow> (Inl (Panic p), dc1)
      | (_, dc1) \<Rightarrow> flush_entries srv minute es dc1)"

fun flush_errors :: "dbServer \<Rightarrow> errorEntry list \<Rightarrow> (dbCache, unit) call" where
  "flush_errors srv [] dc = (Inr (), dc)"
| "flush_errors srv (e # es) dc =
     (case insertErrorStats srv (ee_Session e) (ee_Iface e) (ee_App e) (ee_Info e) (ee_Time e) dc of
        (Inl (Panic p), dc1) \<Rightarrow> (Inl (Panic p), dc1)
      | (_, dc1) \<Rightarrow> flush_errors srv es dc1)"

definition stats_round :: "dbServer \<Rightarrow> string \<Rightarrow> statsCache \<Rightarrow> dbCache \<Rightarrow> unit result \<times> statsCache \<times> dbCache" where
  "stats_round srv minute s dc =
     (case entrys s of (es, s1) \<Rightarrow>
      case flush_entries srv minute es dc of
        (Inl f, dc1) \<Rightarrow> (Inl f, s1, dc1)
      | (Inr _, dc1) \<Rightarrow>
          (case errorEntrys s1 of (fs, s2) \<Rightarrow>
           case flush_errors srv fs dc1 of (r, dc2) \<Rightarrow> (r, s2, dc2)))"

subsection \<open>What the cache may hold\<close>

text \<open>
  \<open>answered l t s arg rows\<close>: at time \<open>t\<close> or later the server returned these rows.  An entry of the
  cache is supported when the server returned the rows it was made from at or after the entry's
  time stamp; the key fits the kind of value.
\<close>

type_synonym dbLog = "(int \<times> dbEvent) list"

definition answered :: "dbLog \<Rightarrow> int \<Rightarrow> sqlstmt \<Rightarrow> sqlval list \<Rightarrow> row list \<Rightarrow> bool" where
  "answered l t s arg rows = (\<exists>u \<ge> t. (u, Answer s arg rows) \<in> set l)"

definition resolved :: "dbLog \<Rightarrow> int \<Rightarrow> string \<Rightarrow> Interface \<Rightarrow> bool" where
  "resolved l t key i =
     (\<exists>p path i0 r rs r' rs'.
        3 \<le> length (split_on CHR ''/'' key) \<and>
        answered l t SelService [SStr (split_on CHR ''/'' key ! 1)] (r # rs) \<and>
        scan_service r = Inr p \<and>
        iface_path key (split_on CHR ''/'' key) p = Inr path \<and>
        answered l t SelIface [SInt (svc_ID p), SStr path] (r' # rs') \<and>
        scan_iface r' = Inr i0 \<and> i = i0\<lparr>ifc_Path := path, ifc_Service := p\<rparr>)"

definition authentic :: "dbLog \<Rightarrow> int \<Rightarrow> Application \<Rightarrow> bool" where
  "authentic l t a =
     (\<exists>tok r rs. parseToken tok = Inr (app_ID a) \<and>
        answered l t SelApp [SInt (app_ID a), SStr tok] (r # rs) \<and> scan_app (app_ID a) r = Inr a)"

definition related :: "dbLog \<Rightarrow> int \<Rightarrow> int \<Rightarrow> int \<Rightarrow> bool" where
  "related l t appID ifaceID =
     (\<exists>r rs. answered l t SelRelation [SInt appID, SInt ifaceID] (r # rs))"

definition declared :: "dbLog \<Rightarrow> int \<Rightarrow> int \<Rightarrow> Variable list \<Rightarrow> bool" where
  "declared l t ident vs =
     (\<exists>rows. answered l t SelVar [SInt ident] rows \<and> scan_vars rows = Inr vs)"

fun support :: "dbLog \<Rightarrow> string \<Rightarrow> cacheVal \<Rightarrow> int \<Rightarrow> bool" where
  "support l k (CApp a) t = (k = app_key (app_ID a) \<and> authentic l t a)"
| "support l k (CRel rid) t = (\<exists>a i. k = rel_key a i \<and> related l t a i)"
| "support l k (CIface i) t = (has_prefix k ''/'' \<and> resolved l t k i)"
| "support l k (CVars vs) t = (\<exists>i. k = var_key i \<and> declared l t i vs)"

definition dc_ok :: "dbCache \<Rightarrow> bool" where
  "dc_ok dc \<longleftrightarrow> cache_ok (now dc) (cache dc) \<and> tc.supported (support (dblog dc)) (cache dc)"

definition handles_ok :: "dbCache \<Rightarrow> bool" where
  "handles_ok dc \<longleftrightarrow> (\<forall>s. stmts dc s = dbc dc)"

text \<open>The oldest second whose answers may still be served.\<close>

definition horizon :: "dbCache \<Rightarrow> int" where
  "horizon dc = min (now dc) (now dc - timeout (cache dc) + 1)"

text \<open>What every operation respects.\<close>

definition evolves :: "dbCache \<Rightarrow> dbCache \<Rightarrow> bool" where
  "evolves dc dc' \<longleftrightarrow>
     now dc' = now dc \<and> timeout (cache dc') = timeout (cache dc) \<and>
     (\<exists>l. dblog dc' = dblog dc @ l) \<and> (dc_ok dc \<longrightarrow> dc_ok dc') \<and> (handles_ok dc \<longrightarrow> handles_ok dc')"

section \<open>The connection\<close>

lemma answered_mono:
  "answered l t s arg rows \<Longrightarrow> t' \<le> t \<Longrightarrow> answered (l @ l') t' s arg rows"
proof -
  assume "answered l t s arg rows" "t' \<le> t"
  then obtain u where "t' \<le> u" "(u, Answer s arg rows) \<in> set l"
    unfolding answered_def by (blast intro: order.trans)
  then show ?thesis unfolding answered_def by (intro exI [of _ u]) simp
qed

lemma support_mono:
  assumes "support l k v t" "t' \<le> t"
  shows "support (l @ l') k v t'"
  using assms(1)
proof (cases v)
  case (CIface i)
  with assms(1) show ?thesis
    by (simp add: resolved_def) (blast intro: answered_mono [OF _ assms(2)])
next
  case (CApp a)
  with assms(1) show ?thesis
    by (simp add: authentic_def) (blast intro: answered_mono [OF _ assms(2)])
next
  case (CVars vs)
  with assms(1) show ?thesis
    by (simp add: declared_def) (blast intro: answered_mono [OF _ assms(2)])
next
  case (CRel rid)
  with assms(1) show ?thesis
    by (simp add: related_def) (blast intro: answered_mono [OF _ assms(2)])
qed

lemma evolves_refl [simp]: "evolves dc dc"
  by (simp add: evolves_def)

lemma evolves_trans: "evolves a b \<Longrightarrow> evolves b c \<Longrightarrow> evolves a c"
  by (auto simp: evolves_def)

lemma dc_ok_log:
  assumes "dc_ok dc" "cache dc' = cache dc" "now dc' = now dc" "dblog dc' = dblog dc @ l"
  shows "dc_ok dc'"
  using assms support_mono [of "dblog dc" _ _ _ _ l]
  by (auto simp: dc_ok_def intro: tc.supported_mono)

lemma evolves_log:
  assumes "cache dc' = cache dc" "now dc' = now dc" "dblog dc' = dblog dc @ l"
    "handles_ok dc \<Longrightarrow> handles_ok dc'"
  shows "evolves dc dc'"
  using assms dc_ok_log by (auto simp: evolves_def)

lemma prepare_all_keeps:
  "prepare_all srv ss dc = (err, dc') \<Longrightarrow>
     cache dc' = cache dc \<and> now dc' = now dc \<and> dblog dc' = dblog dc \<and> dbc dc' = dbc dc"
  by (induction ss arbitrary: dc) (auto simp: count_call_def split: option.splits)

lemma prepare_all_stmts:
  "prepare_all srv ss dc = (None, dc') \<Longrightarrow> stmts dc' s = (stmts dc s \<or> s \<in> set ss)"
  by (induction ss arbitrary: dc) (auto simp: count_call_def split: option.splits if_splits)

lemma statements_complete: "s \<in> set statements"
  by (cases s) (simp_all add: statements_def)

lemma conectDB_spec:
  assumes "conectDB srv dc = (err, dc')"
  shows "cache dc' = cache dc" "now dc' = now dc" "dblog dc' = dblog dc"
    "handles_ok dc'" "dbc dc' = (err = None)"
proof -
  have "cache dc' = cache dc \<and> now dc' = now dc \<and> dblog dc' = dblog dc \<and> handles_ok dc' \<and>
      dbc dc' = (err = None)"
  proof (cases "srv_connect srv (sent dc)")
    case (Some e)
    with assms show ?thesis
      by (auto simp: conectDB_def closeAll_def count_call_def handles_ok_def)
  next
    case None
    obtain e1 dc1 where p: "prepare_all srv statements ((count_call dc)\<lparr>dbc := True\<rparr>) = (e1, dc1)"
      by force
    note k = prepare_all_keeps [OF p]
    show ?thesis
    proof (cases e1)
      case None
      with p have "stmts dc1 s" for s
        using prepare_all_stmts [of srv statements _ dc1 s] statements_complete by simp
      with None p k \<open>srv_connect srv (sent dc) = None\<close> assms show ?thesis
        by (auto simp: conectDB_def count_call_def handles_ok_def)
    next
      case (Some e)
      with p k \<open>srv_connect srv (sent dc) = None\<close> assms show ?thesis
        by (auto simp: conectDB_def count_call_def closeAll_def handles_ok_def)
    qed
  qed
  then show "cache dc' = cache dc" "now dc' = now dc" "dblog dc' = dblog dc"
    "handles_ok dc'" "dbc dc' = (err = None)" by auto
qed

lemma conectDB_evolves: "conectDB srv dc = (err, dc') \<Longrightarrow> evolves dc dc'"
  using conectDB_spec [of srv dc err dc'] by (intro evolves_log [where l = "[]"]) auto

section \<open>Queries\<close>

lemma stmt_query_spec:
  assumes "stmt_query srv live s arg dc = (r, dc')"
  shows "evolves dc dc'" "dbc dc' = dbc dc"
    "r = Inr (Inr rows) \<Longrightarrow> answered (dblog dc') (now dc) s arg rows"
    "live \<Longrightarrow> \<exists>x. r = Inr x"
proof -
  have "(\<exists>l. cache dc' = cache dc \<and> now dc' = now dc \<and> dblog dc' = dblog dc @ l) \<and> dbc dc' = dbc dc \<and>
      stmts dc' = stmts dc \<and> (r = Inr (Inr rows) \<longrightarrow> (now dc, Answer s arg rows) \<in> set (dblog dc')) \<and>
      (live \<longrightarrow> (\<exists>x. r = Inr x))"
    using assms
    by (auto simp: stmt_query_def count_call_def log_event_def split: if_splits sum.splits)
  then show "evolves dc dc'" "dbc dc' = dbc dc"
    "r = Inr (Inr rows) \<Longrightarrow> answered (dblog dc') (now dc) s arg rows"
    "live \<Longrightarrow> \<exists>x. r = Inr x"
    by (auto simp: answered_def handles_ok_def intro: evolves_log)
qed

lemma query_loop_spec:
  assumes "query_loop srv n live s arg err dc = (r, dc')"
  shows "evolves dc dc' \<and>
    (\<forall>rows e. r = Inr (Some rows, e) \<longrightarrow> e = None \<and> answered (dblog dc') (now dc) s arg rows)"
  using assms
proof (induction n arbitrary: err dc)
  case (Suc n)
  show ?case
  proof (cases "dbc dc")
    case True
    obtain q dc1 where q: "stmt_query srv live s arg dc = (q, dc1)" by force
    note spec = stmt_query_spec [OF q]
    show ?thesis
    proof (cases "\<exists>e. q = Inr (Inl e)")
      case True
      then obtain e where "query_loop srv n live s arg (Some e) dc1 = (r, dc')"
        using \<open>dbc dc\<close> Suc.prems q by auto
      note Suc.IH [OF this]
      moreover have "now dc1 = now dc" using spec(1) by (simp add: evolves_def)
      ultimately show ?thesis using spec(1) evolves_trans by auto
    next
      case False
      with \<open>dbc dc\<close> Suc.prems q spec show ?thesis
        by (auto split: sum.splits)
    qed
  next
    case False
    then obtain err1 dc1 where c: "conectDB srv dc = (err1, dc1)"
      "query_loop srv n live s arg err1 dc1 = (r, dc')"
      using Suc.prems by (auto split: prod.splits)
    with Suc.IH [OF c(2)] conectDB_evolves [OF c(1)] conectDB_spec(2) [OF c(1)]
    show ?thesis using evolves_trans by auto
  qed
qed auto

lemma dbQuery_spec:
  assumes "dbQuery srv n s arg err dc = (r, dc')"
  shows "evolves dc dc' \<and>
    (\<forall>rows e. r = Inr (Some rows, e) \<longrightarrow> e = None \<and> answered (dblog dc') (now dc) s arg rows)"
  using assms
proof (induction n arbitrary: err dc)
  case (Suc n)
  show ?case
  proof (cases "dbc dc")
    case True
    obtain q dc1 where q: "stmt_query srv (stmts dc s) s arg dc = (q, dc1)" by force
    note spec = stmt_query_spec [OF q]
    show ?thesis
    proof (cases "\<exists>e. q = Inr (Inl e)")
      case True
      then obtain err1 dc2 where c: "conectDB srv dc1 = (err1, dc2)"
        "dbQuery srv n s arg err1 dc2 = (r, dc')"
        using \<open>dbc dc\<close> Suc.prems q by (auto split: prod.splits)
      have e: "evolves dc dc2"
        using spec(1) conectDB_evolves [OF c(1)] by (rule evolves_trans)
      moreover from e have "now dc2 = now dc" by (simp add: evolves_def)
      ultimately show ?thesis using Suc.IH [OF c(2)] evolves_trans by auto
    next
      case False
      with \<open>dbc dc\<close> Suc.prems q spec show ?thesis
        by (auto split: sum.splits)
    qed
  next
    case False
    then obtain err1 dc1 where c: "conectDB srv dc = (err1, dc1)"
      "dbQuery srv n s arg err1 dc1 = (r, dc')"
      using Suc.prems by (auto split: prod.splits)
    with Suc.IH [OF c(2)] conectDB_evolves [OF c(1)] conectDB_spec(2) [OF c(1)]
    show ?thesis using evolves_trans by auto
  qed
qed auto

lemma queryDB_spec:
  assumes "queryDB srv s arg scan dc = (r, dc')"
  shows "evolves dc dc'"
    "r = Inr x \<Longrightarrow> \<exists>row rows. answered (dblog dc') (now dc) s arg (row # rows) \<and> scan row = Inr x"
proof -
  obtain q dc1 where q: "query_loop srv maxRetry (stmts dc s) s arg None dc = (q, dc1)" by force
  note spec = query_loop_spec [OF q]
  have dc': "dc' = dc1"
    using assms q by (auto simp: queryDB_def cbind_def split: sum.splits option.splits list.splits)
  with spec show "evolves dc dc'" by simp
  assume "r = Inr x"
  with assms q obtain row rows where "q = Inr (Some (row # rows), None)" "scan row = Inr x"
    by (auto simp: queryDB_def cbind_def split: sum.splits option.splits list.splits)
  with spec dc' show "\<exists>row rows. answered (dblog dc') (now dc) s arg (row # rows) \<and> scan row = Inr x"
    by auto
qed

text \<open>On a live connection a query never panics and never reconnects.\<close>

lemma query_loop_connected:
  assumes "dbc dc" "live"
  shows "\<exists>rows err dc'. query_loop srv n live s arg err0 dc = (Inr (rows, err), dc') \<and> dbc dc' \<and>
    (rows = None \<longrightarrow> err \<noteq> None \<or> n = 0)"
  using assms
proof (induction n arbitrary: err0 dc)
  case (Suc n)
  obtain q dc1 where q: "stmt_query srv live s arg dc = (q, dc1)" by force
  obtain y where y: "q = Inr y" using stmt_query_spec(4) [OF q] Suc.prems by auto
  have d: "dbc dc1" using stmt_query_spec(2) [OF q] Suc.prems by simp
  show ?case
  proof (cases y)
    case (Inl e)
    obtain rows err dc' where "query_loop srv n live s arg (Some e) dc1 = (Inr (rows, err), dc')"
      "dbc dc'" "rows = None \<longrightarrow> err \<noteq> None \<or> n = 0"
      using Suc.IH [OF d Suc.prems(2)] by blast
    with Inl y q Suc.prems show ?thesis by (cases n) auto
  next
    case (Inr rows)
    with y q Suc.prems d show ?thesis by auto
  qed
qed simp

section \<open>Cached lookups\<close>

lemma support_antimono: "support l k v t \<Longrightarrow> t' \<le> t \<Longrightarrow> support l k v t'"
  using support_mono [of l k v t t' "[]"] by simp

lemma horizon_le [simp]: "horizon dc \<le> now dc"
  by (simp add: horizon_def)

lemma evolves_horizon: "evolves dc dc' \<Longrightarrow> horizon dc' = horizon dc"
  by (simp add: evolves_def horizon_def)

lemma evolves_support:
  "evolves dc dc' \<Longrightarrow> support (dblog dc) k v t \<Longrightarrow> t' \<le> t \<Longrightarrow> support (dblog dc') k v t'"
  by (auto simp: evolves_def intro: support_mono)

lemma cache_get_spec:
  assumes "cache_get k dc = (r, dc')"
  obtains v where "r = Inr v" "evolves dc dc'"
    "\<And>x. dc_ok dc \<Longrightarrow> v = Some x \<Longrightarrow> support (dblog dc') k x (horizon dc)"
proof -
  obtain v c where g: "Get (now dc) k (cache dc) = (v, c)" by force
  then have r: "r = Inr v" "dc' = dc\<lparr>cache := c\<rparr>"
    using assms by (simp_all add: cache_get_def)
  have "timeout c = timeout (cache dc)"
    using tc.get_limit [of "now dc" k "cache dc"] g by simp
  moreover have "dc_ok dc'" if "dc_ok dc"
    using that tc.get_ok [of "now dc" "cache dc" k] tc.supported_get [of "now dc" "cache dc" _ k] g r
    by (simp add: dc_ok_def)
  ultimately have ev: "evolves dc dc'"
    by (auto simp: r evolves_def handles_ok_def)
  have "support (dblog dc') k x (horizon dc)" if ok: "dc_ok dc" and v: "v = Some x" for x
  proof -
    obtain t where "now dc - timeout (cache dc) < t" "t \<le> now dc" "support (dblog dc) k x t"
      using tc.get_hit [of "now dc" "cache dc" "support (dblog dc)" k x c] ok v g
      by (auto simp: dc_ok_def)
    then show ?thesis
      by (auto intro: support_antimono simp: horizon_def r)
  qed
  with that r(1) ev show ?thesis by blast
qed

lemma cache_add_spec:
  assumes "cache_add k v dc = (r, dc')" "dc_ok dc \<Longrightarrow> support (dblog dc) k v (now dc)"
  shows "r = Inr ()" "evolves dc dc'" "dblog dc' = dblog dc"
proof -
  have dc': "r = Inr ()" "dc' = dc\<lparr>cache := Add (now dc) k v (cache dc)\<rparr>"
    using assms(1) by (simp_all add: cache_add_def)
  have "dc_ok dc'" if "dc_ok dc"
    using that assms(2) support_antimono
    by (auto simp: dc' dc_ok_def intro!: tc.add_ok tc.supported_add)
  with dc' show "r = Inr ()" "evolves dc dc'" "dblog dc' = dblog dc"
    by (auto simp: evolves_def handles_ok_def)
qed

lemma evolves_answered:
  "evolves dc dc' \<Longrightarrow> answered (dblog dc) t s arg rows \<Longrightarrow> answered (dblog dc') t s arg rows"
  by (auto simp: evolves_def intro: answered_mono)

text \<open>The faults of the database code: returned errors and the dereference of a nil pointer.\<close>

definition db_fault :: "fault \<Rightarrow> bool" where
  "db_fault f \<longleftrightarrow> (\<exists>e. f = Error e) \<or> f = Panic NilDereference"

lemma db_fault_Error [simp]: "db_fault (Error e)"
  by (simp add: db_fault_def)

lemma db_fault_nil [simp]: "db_fault (Panic NilDereference)"
  by (simp add: db_fault_def)

lemma scan_basic_fault:
  "scan_int v = Inl f \<Longrightarrow> db_fault f" "scan_string v = Inl f \<Longrightarrow> db_fault f"
  "scan_bool v = Inl f \<Longrightarrow> db_fault f" "scan_error = Inl f \<Longrightarrow> db_fault f"
  by (cases v; auto simp: scan_error_def split: if_splits prod.splits)+

lemma scan_fault:
  "scan_service r = Inl f \<Longrightarrow> db_fault f" "scan_iface r = Inl f \<Longrightarrow> db_fault f"
  "scan_var r = Inl f \<Longrightarrow> db_fault f" "scan_app n r = Inl f \<Longrightarrow> db_fault f"
  "scan_id r = Inl f \<Longrightarrow> db_fault f"
  by (auto simp: scan_service_def scan_iface_def scan_var_def scan_app_def scan_id_def go_simps
      split: list.splits dest: scan_basic_fault)

lemma scan_vars_fault: "scan_vars rs = Inl f \<Longrightarrow> db_fault f"
  by (induction rs arbitrary: f) (auto simp: go_simps dest: scan_fault)

lemma query_loop_fault:
  "query_loop srv n live s arg err dc = (Inl f, dc') \<Longrightarrow> db_fault f"
  by (induction n arbitrary: err dc)
    (auto simp: stmt_query_def split: if_splits sum.splits prod.splits)

lemma dbQuery_fault: "dbQuery srv n s arg err dc = (Inl f, dc') \<Longrightarrow> db_fault f"
  by (induction n arbitrary: err dc)
    (auto simp: stmt_query_def split: if_splits sum.splits prod.splits)

lemma queryDB_fault:
  assumes "queryDB srv s arg scan dc = (Inl f, dc')" "\<And>r. scan r = Inl f \<Longrightarrow> db_fault f"
  shows "db_fault f"
  using assms
  by (auto simp: queryDB_def go_simps split: option.splits list.splits dest: query_loop_fault)

text \<open>A lookup starts with the cache: a hit is supported since the horizon, a miss goes on.\<close>

lemma cached_lookup:
  assumes run: "cbind (cache_get k) f dc = (r, dc')"
    and hit: "\<And>x d. evolves dc d \<Longrightarrow> (dc_ok dc \<Longrightarrow> support (dblog d) k x (horizon dc)) \<Longrightarrow>
      f (Some x) d = (r, dc') \<Longrightarrow> P"
    and miss: "\<And>d. evolves dc d \<Longrightarrow> f None d = (r, dc') \<Longrightarrow> P"
  shows P
proof -
  obtain g d where g: "cache_get k dc = (g, d)" by force
  then show P
  proof (rule cache_get_spec)
    fix v
    assume v: "g = Inr v" "evolves dc d"
      "\<And>x. dc_ok dc \<Longrightarrow> v = Some x \<Longrightarrow> support (dblog d) k x (horizon dc)"
    have "f v d = (r, dc')" using run g v(1) by (simp add: cbind_def)
    with v hit [of d] miss [of d] show P by (cases v) auto
  qed
qed

lemma load_and_add:
  assumes run: "cbind (queryDB srv s arg scan) (\<lambda>x. cbind (cache_add k (g x)) (\<lambda>_. creturn (h x))) d = (r, d')"
    and sup: "\<And>x row rows d1. evolves d d1 \<Longrightarrow> scan row = Inr x \<Longrightarrow>
      answered (dblog d1) (now d) s arg (row # rows) \<Longrightarrow> support (dblog d1) k (g x) (now d)"
  shows "evolves d d'"
    "r = Inr y \<Longrightarrow> \<exists>x. y = h x \<and> support (dblog d') k (g x) (now d)"
    "r = Inl f \<Longrightarrow> (\<And>row. scan row = Inl f \<Longrightarrow> db_fault f) \<Longrightarrow> db_fault f"
proof -
  obtain q d1 where q: "queryDB srv s arg scan d = (q, d1)" by force
  have ev: "evolves d d1" using queryDB_spec(1) [OF q] .
  show "evolves d d'" "r = Inr y \<Longrightarrow> \<exists>x. y = h x \<and> support (dblog d') k (g x) (now d)"
    "r = Inl f \<Longrightarrow> (\<And>row. scan row = Inl f \<Longrightarrow> db_fault f) \<Longrightarrow> db_fault f"
  proof (atomize (full), cases q)
    case (Inl e)
    with run q have "r = Inl e" "d' = d1" by (simp_all add: cbind_def)
    with ev q Inl queryDB_fault [of srv s arg scan d e d1]
    show "evolves d d' \<and> (r = Inr y \<longrightarrow> (\<exists>x. y = h x \<and> support (dblog d') k (g x) (now d))) \<and>
        (r = Inl f \<longrightarrow> (\<forall>row. scan row = Inl f \<longrightarrow> db_fault f) \<longrightarrow> db_fault f)"
      by auto
  next
    case (Inr x)
    obtain row rows where row: "answered (dblog d1) (now d) s arg (row # rows)" "scan row = Inr x"
      using queryDB_spec(2) [OF q Inr] by blast
    have now: "now d1 = now d" using ev by (simp add: evolves_def)
    have sup1: "support (dblog d1) k (g x) (now d)" using sup [OF ev row(2,1)] .
    obtain u d2 where add: "cache_add k (g x) d1 = (u, d2)" by force
    note cache_add_spec [OF add]
    with sup1 now have "u = Inr ()" "evolves d1 d2" "dblog d2 = dblog d1" by simp_all
    moreover from this run q Inr add have "r = Inr (h x)" "d' = d2" by (simp_all add: cbind_def)
    ultimately show "evolves d d' \<and> (r = Inr y \<longrightarrow> (\<exists>x. y = h x \<and> support (dblog d') k (g x) (now d))) \<and>
        (r = Inl f \<longrightarrow> (\<forall>row. scan row = Inl f \<longrightarrow> db_fault f) \<longrightarrow> db_fault f)"
      using ev sup1 evolves_trans by auto
  qed
qed

lemma key_simps [simp]:
  "app_key i = app_key j \<longleftrightarrow> i = j" "var_key i = var_key j \<longleftrightarrow> i = j"
  "app_key i \<noteq> rel_key a b" "app_key i \<noteq> var_key j" "var_key j \<noteq> app_key i"
  "rel_key a b \<noteq> app_key i" "rel_key a b \<noteq> var_key i"
  "var_key i \<noteq> rel_key a b" "\<not> has_prefix (app_key i) ''/''" "\<not> has_prefix (var_key i) ''/''"
  "\<not> has_prefix (rel_key a b) ''/''"
  by (simp_all add: app_key_def var_key_def rel_key_def has_prefix_def)

lemma cached_fetch:
  assumes run: "cbind (cache_get k) (\<lambda>hit.
      case hit of
        Some v \<Rightarrow> clift (unwrap v)
      | None \<Rightarrow> cbind (queryDB srv s arg scan) (\<lambda>x.
                cbind (cache_add k (wrap x)) (\<lambda>_. creturn x))) dc = (r, dc')"
    and sup: "\<And>x row rows l t. scan row = Inr x \<Longrightarrow> answered l t s arg (row # rows) \<Longrightarrow>
      support l k (wrap x) t"
    and hit: "\<And>v l t. support l k v t \<Longrightarrow> \<exists>x. unwrap v = Inr x \<and> v = wrap x"
    and scan: "\<And>row f. scan row = Inl f \<Longrightarrow> db_fault f"
  shows "evolves dc dc' \<and>
    (dc_ok dc \<longrightarrow> (\<forall>x. r = Inr x \<longrightarrow> support (dblog dc') k (wrap x) (horizon dc)) \<and>
       (\<forall>f. r = Inl f \<longrightarrow> db_fault f))"
  using run
proof (rule cached_lookup)
  fix v d
  assume "evolves dc d" and v: "dc_ok dc \<Longrightarrow> support (dblog d) k v (horizon dc)"
    "(case Some v of Some v \<Rightarrow> clift (unwrap v)
      | None \<Rightarrow> cbind (queryDB srv s arg scan) (\<lambda>x.
                cbind (cache_add k (wrap x)) (\<lambda>_. creturn x))) d = (r, dc')"
  with hit [of "dblog d" v] show ?thesis by (fastforce simp: clift_def)
next
  fix d
  assume ev: "evolves dc d" and "(case None of Some v \<Rightarrow> clift (unwrap v)
      | None \<Rightarrow> cbind (queryDB srv s arg scan) (\<lambda>x.
                cbind (cache_add k (wrap x)) (\<lambda>_. creturn x))) d = (r, dc')"
  then have load: "cbind (queryDB srv s arg scan) (\<lambda>x.
      cbind (cache_add k (wrap x)) (\<lambda>_. creturn x)) d = (r, dc')" by simp
  have h: "horizon dc \<le> now d" using ev by (simp add: evolves_def horizon_def)
  have "evolves d dc'"
    by (rule load_and_add(1) [OF load]) (erule (1) sup)
  moreover have "support (dblog dc') k (wrap x) (horizon dc)" if "r = Inr x" for x
  proof -
    have "\<exists>y. x = y \<and> support (dblog dc') k (wrap y) (now d)"
      by (rule load_and_add(2) [OF load _ that]) (erule (1) sup)
    with h show ?thesis by (auto intro: support_antimono)
  qed
  moreover have "db_fault f" if "r = Inl f" for f
    by (rule load_and_add(3) [OF load _ that]) (auto intro: sup scan simp del: support.simps)
  ultimately show ?thesis
    using ev evolves_trans by blast
qed

lemma getApplication_spec:
  assumes run: "getApplication srv appID token dc = (r, dc')" and tok: "parseToken token = Inr appID"
  shows "evolves dc dc' \<and>
    (dc_ok dc \<longrightarrow>
       (\<forall>a. r = Inr a \<longrightarrow> app_ID a = appID \<and> authentic (dblog dc') (horizon dc) a) \<and>
       (\<forall>f. r = Inl f \<longrightarrow> db_fault f))"
proof -
  have ID: "app_ID a = appID" if "scan_app appID row = Inr a" for row a
    using that by (auto simp: scan_app_def go_simps scan_error_def split: list.splits)
  have "evolves dc dc' \<and>
    (dc_ok dc \<longrightarrow> (\<forall>a. r = Inr a \<longrightarrow> support (dblog dc') (app_key appID) (CApp a) (horizon dc)) \<and>
       (\<forall>f. r = Inl f \<longrightarrow> db_fault f))"
  proof (rule cached_fetch [OF run [unfolded getApplication_def Let_def]])
    show "support l (app_key appID) (CApp x) t"
      if "scan_app appID row = Inr x" "answered l t SelApp [SInt appID, SStr token] (row # rows)"
      for x row rows l t
      using that ID [OF that(1)] tok by (auto simp: authentic_def)
    show "\<exists>x. as_app v = Inr x \<and> v = CApp x" if "support l (app_key appID) v t" for v l t
      using that by (cases v) auto
  qed (rule scan_fault)
  then show ?thesis by auto
qed

lemma getApp_spec:
  assumes "getApp srv token dc = (r, dc')"
  shows "evolves dc dc'"
    "dc_ok dc \<Longrightarrow> r = Inr a \<Longrightarrow>
       parseToken token = Inr (app_ID a) \<and> authentic (dblog dc') (horizon dc) a"
    "dc_ok dc \<Longrightarrow> r = Inl f \<Longrightarrow> db_fault f \<or> parseToken token = Inl f"
proof -
  have "evolves dc dc' \<and> (dc_ok dc \<longrightarrow>
      (\<forall>a. r = Inr a \<longrightarrow> parseToken token = Inr (app_ID a) \<and> authentic (dblog dc') (horizon dc) a) \<and>
      (\<forall>f. r = Inl f \<longrightarrow> db_fault f \<or> parseToken token = Inl f))"
  proof (cases "parseToken token")
    case (Inl e)
    with assms show ?thesis by (auto simp: getApp_def cbind_def clift_def)
  next
    case (Inr n)
    with assms have "getApplication srv n token dc = (r, dc')"
      by (simp add: getApp_def cbind_def clift_def)
    from getApplication_spec [OF this Inr] Inr show ?thesis by auto
  qed
  then show "evolves dc dc'"
    "dc_ok dc \<Longrightarrow> r = Inr a \<Longrightarrow>
       parseToken token = Inr (app_ID a) \<and> authentic (dblog dc') (horizon dc) a"
    "dc_ok dc \<Longrightarrow> r = Inl f \<Longrightarrow> db_fault f \<or> parseToken token = Inl f"
    by auto
qed

lemma validateRelation_spec:
  assumes run: "validateRelation srv appID ifaceID dc = (r, dc')"
  shows "evolves dc dc' \<and>
    (dc_ok dc \<longrightarrow>
       (r = Inr () \<longrightarrow> (\<exists>a i. rel_key appID ifaceID = rel_key a i \<and> related (dblog dc') (horizon dc) a i)) \<and>
       (\<forall>f. r = Inl f \<longrightarrow> db_fault f))"
  using run unfolding validateRelation_def Let_def
proof (rule cached_lookup)
  fix v d
  let ?k = "rel_key appID ifaceID"
  assume "evolves dc d" "dc_ok dc \<Longrightarrow> support (dblog d) ?k v (horizon dc)"
    "(case Some v of Some _ \<Rightarrow> creturn ()
      | None \<Rightarrow> cbind (queryDB srv SelRelation [SInt appID, SInt ifaceID] scan_id)
          (\<lambda>rid. cache_add ?k (CRel rid))) d = (r, dc')"
  then show ?thesis
    by (cases v) auto
next
  fix d
  let ?k = "rel_key appID ifaceID"
  assume ev: "evolves dc d" and "(case None of Some _ \<Rightarrow> creturn ()
      | None \<Rightarrow> cbind (queryDB srv SelRelation [SInt appID, SInt ifaceID] scan_id)
          (\<lambda>rid. cache_add ?k (CRel rid))) d = (r, dc')"
  moreover have "cache_add ?k v = cbind (cache_add ?k v) (\<lambda>_. creturn ())" for v
    by (rule ext) (simp add: cbind_def cache_add_def)
  ultimately have load: "cbind (queryDB srv SelRelation [SInt appID, SInt ifaceID] scan_id)
      (\<lambda>rid. cbind (cache_add ?k (CRel rid)) (\<lambda>_. creturn ())) d = (r, dc')" by simp
  have sup: "support l ?k (CRel x) t"
    if "answered l t SelRelation [SInt appID, SInt ifaceID] (row # rows)" for l t x row rows
    using that by (auto simp: related_def)
  have h: "horizon dc \<le> now d" using ev by (simp add: evolves_def horizon_def)
  have "evolves d dc'"
    by (rule load_and_add(1) [OF load]) (erule sup)
  moreover have "\<exists>x. support (dblog dc') ?k (CRel x) (horizon dc)" if "r = Inr ()"
  proof -
    have "\<exists>x. () = () \<and> support (dblog dc') ?k (CRel x) (now d)"
      by (rule load_and_add(2) [OF load _ that]) (erule sup)
    with h show ?thesis by (auto intro: support_antimono simp del: support.simps)
  qed
  moreover have "db_fault f" if "r = Inl f" for f
    by (rule load_and_add(3) [OF load _ that]) (auto intro: sup scan_fault simp del: support.simps)
  ultimately show ?thesis
    using evolves_trans [OF ev] by auto
qed

lemma iface_path_total:
  assumes "3 \<le> length (split_on CHR ''/'' key)"
  shows "\<exists>path. iface_path key (split_on CHR ''/'' key) p = Inr path"
proof -
  obtain a b c rest where ps: "split_on CHR ''/'' key = a # b # c # rest"
    using assms by (auto simp: numeral_eq_Suc Suc_le_length_iff)
  then have "key = a @ ''/'' @ b @ ''/'' @ join ''/'' (c # rest)"
    using join_split_on [of "CHR ''/''" key] by simp
  then have "length b + 1 \<le> length key" by simp
  with ps show ?thesis
    by (auto simp: iface_path_def go_slice_def split: option.splits dest!: last_index_Some)
qed

lemma resolvedI:
  assumes "3 \<le> length (split_on CHR ''/'' key)"
    "answered l t SelService [SStr (split_on CHR ''/'' key ! 1)] (r # rs)" "scan_service r = Inr p"
    "iface_path key (split_on CHR ''/'' key) p = Inr path"
    "answered l t SelIface [SInt (svc_ID p), SStr path] (r' # rs')" "scan_iface r' = Inr i0"
  shows "resolved l t key (i0\<lparr>ifc_Path := path, ifc_Service := p\<rparr>)"
  unfolding resolved_def using assms by blast

lemma lookup_interface_spec:
  assumes run: "lookup_interface srv key d = (r, d')" and slash: "has_prefix key ''/''"
  shows "evolves d d' \<and> (\<forall>i. r = Inr i \<longrightarrow> resolved (dblog d') (now d) key i) \<and>
    (\<forall>f. r = Inl f \<longrightarrow> db_fault f)"
proof (cases "length (split_on CHR ''/'' key) < 3")
  case True
  with run show ?thesis by (auto simp: lookup_interface_def)
next
  case False
  let ?ps = "split_on CHR ''/'' key"
  from False have len: "3 \<le> length ?ps" by simp
  obtain q d1 where q: "queryDB srv SelService [SStr (?ps ! 1)] scan_service d = (q, d1)" by force
  have ev: "evolves d d1" using queryDB_spec(1) [OF q] .
  then have now: "now d1 = now d" by (simp add: evolves_def)
  show ?thesis
  proof (cases q)
    case (Inl e)
    with run q len have "r = Inl e" "d' = d1"
      by (simp_all add: lookup_interface_def Let_def cbind_def)
    with ev queryDB_fault [OF q [unfolded Inl]] scan_fault(1) show ?thesis by auto
  next
    case (Inr p)
    obtain path where path: "iface_path key ?ps p = Inr path" using iface_path_total [OF len] by blast
    obtain row rows where row: "scan_service row = Inr p"
      "answered (dblog d1) (now d) SelService [SStr (?ps ! 1)] (row # rows)"
      using queryDB_spec(2) [OF q Inr] by blast
    let ?i = "\<lambda>i0. i0\<lparr>ifc_Path := path, ifc_Service := p\<rparr>"
    have load: "cbind (queryDB srv SelIface [SInt (svc_ID p), SStr path] scan_iface) (\<lambda>i0.
        cbind (cache_add key (CIface (?i i0))) (\<lambda>_. creturn (?i i0))) d1 = (r, d')"
      using run q Inr path len by (simp add: lookup_interface_def Let_def cbind_def clift_def)
    have sup: "support (dblog d2) key (CIface (?i x)) (now d1)"
      if "evolves d1 d2" "scan_iface row2 = Inr x"
        "answered (dblog d2) (now d1) SelIface [SInt (svc_ID p), SStr path] (row2 # rows2)"
      for x row2 rows2 d2
      using resolvedI [OF len evolves_answered [OF that(1) row(2)] row(1) path] that now slash
      by simp
    have "evolves d1 d'"
      by (rule load_and_add(1) [OF load]) (rule sup)
    moreover have "resolved (dblog d') (now d) key i" if "r = Inr i" for i
    proof -
      have "\<exists>x. i = ?i x \<and> support (dblog d') key (CIface (?i x)) (now d1)"
        by (rule load_and_add(2) [OF load _ that]) (rule sup)
      with now show ?thesis by auto
    qed
    moreover have "db_fault f" if "r = Inl f" for f
      by (rule load_and_add(3) [OF load _ that]) (auto intro: sup scan_fault simp del: support.simps)
    ultimately show ?thesis using evolves_trans [OF ev] by blast
  qed
qed

lemma getInterface_spec:
  assumes run: "getInterface srv key dc = (r, dc')" and slash: "has_prefix key ''/''"
  shows "evolves dc dc' \<and>
    (dc_ok dc \<longrightarrow> (\<forall>i. r = Inr i \<longrightarrow> resolved (dblog dc') (horizon dc) key i) \<and>
       (\<forall>f. r = Inl f \<longrightarrow> db_fault f))"
  using run unfolding getInterface_def
proof (rule cached_lookup)
  fix v d
  assume "evolves dc d" "dc_ok dc \<Longrightarrow> support (dblog d) key v (horizon dc)"
    "(case Some v of Some v \<Rightarrow> clift (as_iface v) | None \<Rightarrow> lookup_interface srv key) d = (r, dc')"
  then show ?thesis using slash by (cases v) (auto simp: clift_def)
next
  fix d
  assume ev: "evolves dc d"
    and "(case None of Some v \<Rightarrow> clift (as_iface v) | None \<Rightarrow> lookup_interface srv key) d = (r, dc')"
  then have l: "lookup_interface srv key d = (r, dc')" by simp
  have "horizon dc \<le> now d" using ev by (simp add: evolves_def horizon_def)
  then have "resolved (dblog dc') (horizon dc) key i" if "resolved (dblog dc') (now d) key i" for i
    using support_antimono [of "dblog dc'" key "CIface i" "now d" "horizon dc"] slash that by simp
  with lookup_interface_spec [OF l slash] evolves_trans [OF ev] show ?thesis by blast
qed

lemma lookup_variable_spec:
  assumes "lookup_variable srv ident d = (r, d')"
  shows "evolves d d' \<and> (\<forall>vs. r = Inr vs \<longrightarrow> declared (dblog d') (now d) ident vs) \<and>
    (\<forall>f. r = Inl f \<longrightarrow> db_fault f)"
proof -
  obtain q d1 where q: "dbQuery srv maxRetry SelVar [SInt ident] None d = (q, d1)" by force
  note spec = dbQuery_spec [OF q]
  consider (stop) f where "d' = d1" "r = Inl f" "db_fault f"
    | (scan) rs vs where "q = Inr (Some rs, None)" "scan_vars rs = Inr vs"
        "cbind (cache_add (var_key ident) (CVars vs)) (\<lambda>_. creturn vs) d1 = (r, d')"
  proof (cases q)
    case (Inl f)
    with assms q stop dbQuery_fault [OF q [unfolded Inl]] show ?thesis
      by (auto simp: lookup_variable_def cbind_def)
  next
    case (Inr x)
    obtain rows err where x: "x = (rows, err)" by force
    show ?thesis
    proof (cases "\<exists>rs. rows = Some rs \<and> err = None")
      case True
      then obtain rs where rs: "rows = Some rs" "err = None" by blast
      show ?thesis
      proof (cases "scan_vars rs")
        case (Inl f)
        with assms q Inr x rs have "r = Inl f" "d' = d1"
          by (simp_all add: lookup_variable_def cbind_def clift_def)
        with stop scan_vars_fault [OF Inl] show ?thesis by blast
      next
        case (Inr vs)
        with assms q \<open>q = Inr x\<close> x rs
        have "cbind (cache_add (var_key ident) (CVars vs)) (\<lambda>_. creturn vs) d1 = (r, d')"
          by (simp add: lookup_variable_def cbind_def clift_def)
        with scan Inr \<open>q = Inr x\<close> x rs show ?thesis by blast
      qed
    next
      case False
      with assms q Inr x stop show ?thesis
        by (cases err; cases rows) (auto simp: lookup_variable_def cbind_def)
    qed
  qed
  then show ?thesis
  proof cases
    case scan
    then have decl: "declared (dblog d1) (now d) ident vs"
      using spec by (auto simp: declared_def)
    obtain u d2 where add: "cache_add (var_key ident) (CVars vs) d1 = (u, d2)" by force
    have "support (dblog d1) (var_key ident) (CVars vs) (now d1)"
      using decl spec by (auto simp: evolves_def)
    note a = cache_add_spec [OF add this]
    with scan(3) add have "r = Inr vs" "d' = d2" by (simp_all add: cbind_def)
    with a decl spec evolves_trans show ?thesis by auto
  qed (use spec in auto)
qed

lemma getVariable_spec:
  assumes run: "getVariable srv ident dc = (r, dc')"
  shows "evolves dc dc' \<and>
    (dc_ok dc \<longrightarrow> (\<forall>vs. r = Inr vs \<longrightarrow> declared (dblog dc') (horizon dc) ident vs) \<and>
       (\<forall>f. r = Inl f \<longrightarrow> db_fault f))"
  using run unfolding getVariable_def
proof (rule cached_lookup)
  fix v d
  assume "evolves dc d" "dc_ok dc \<Longrightarrow> support (dblog d) (var_key ident) v (horizon dc)"
    "(case Some v of Some v \<Rightarrow> clift (as_vars v) | None \<Rightarrow> lookup_variable srv ident) d = (r, dc')"
  then show ?thesis by (cases v) (auto simp: clift_def)
next
  fix d
  assume ev: "evolves dc d"
    and "(case None of Some v \<Rightarrow> clift (as_vars v) | None \<Rightarrow> lookup_variable srv ident) d = (r, dc')"
  then have m: "lookup_variable srv ident d = (r, dc')" by simp
  have "horizon dc \<le> now d" using ev by (simp add: evolves_def horizon_def)
  then have "declared (dblog dc') (horizon dc) ident vs" if "declared (dblog dc') (now d) ident vs" for vs
    using support_antimono [of "dblog dc'" "var_key ident" "CVars vs" "now d" "horizon dc"] that by simp
  with lookup_variable_spec [OF m] evolves_trans [OF ev] show ?thesis by blast
qed

section \<open>Retries\<close>

lemma query_loop_answers:
  assumes "dbc dc" "live" "length arg = numInput s" "k < n"
    and "\<forall>j<k. \<exists>e. srv_query srv (sent dc + j) s arg = Inl e"
    and "srv_query srv (sent dc + k) s arg = Inr rows"
  shows "\<exists>dc'. query_loop srv n live s arg err dc = (Inr (Some rows, None), dc') \<and>
           sent dc' = sent dc + k + 1 \<and> dbc dc'"
  using assms
proof (induction k arbitrary: n err dc)
  case 0
  then show ?case
    by (cases n) (auto simp: stmt_query_def count_call_def log_event_def)
next
  case (Suc k)
  then obtain m where n: "n = Suc m" by (cases n) auto
  from Suc.prems(5) obtain e where "srv_query srv (sent dc) s arg = Inl e" by (metis add_0_right zero_less_Suc)
  then have step: "query_loop srv n live s arg err dc = query_loop srv m live s arg (Some e) (count_call dc)"
    using Suc.prems n by (simp add: stmt_query_def)
  have "\<exists>e. srv_query srv (sent (count_call dc) + j) s arg = Inl e" if "j < k" for j
    using Suc.prems(5) that by (auto simp: count_call_def dest: spec [of _ "Suc j"])
  then have "\<exists>dc'. query_loop srv m live s arg (Some e) (count_call dc) = (Inr (Some rows, None), dc') \<and>
      sent dc' = sent (count_call dc) + k + 1 \<and> dbc dc'"
    using Suc.prems n by (intro Suc.IH) (auto simp: count_call_def)
  with step show ?case by (simp add: count_call_def)
qed

lemma prepare_all_ok:
  "\<forall>n s. srv_prepare srv n s = None \<Longrightarrow> \<exists>dc'. prepare_all srv ss dc = (None, dc')"
  by (induction ss arbitrary: dc) auto

lemma conectDB_ok:
  assumes "\<forall>n. srv_connect srv n = None" "\<forall>n s. srv_prepare srv n s = None"
  shows "\<exists>dc'. conectDB srv dc = (None, dc')"
  using prepare_all_ok [OF assms(2), of statements "(count_call dc)\<lparr>dbc := True\<rparr>"] assms(1)
  by (auto simp: conectDB_def)

lemma numInput_simps [simp]:
  "numInput SelService = 1" "numInput SelIface = 2" "numInput SelVar = 1" "numInput SelApp = 2"
  "numInput SelRelation = 2" "numInput InstStats = 7" "numInput InstErrorStats = 5"
  by (simp_all add: numInput_def)

lemma exec_loop_args:
  assumes "dbc dc" "live" "length arg \<noteq> numInput s"
  shows "exec_loop srv (Suc n) live s arg err dc =
           (Inr (None, Some (ErrArgs (numInput s) (length arg))), dc)"
proof (induction n arbitrary: err)
  case 0
  with assms show ?case by (simp add: stmt_exec_def)
next
  case (Suc n)
  with assms show ?case
    by (subst exec_loop.simps(2)) (simp add: stmt_exec_def del: exec_loop.simps)
qed

text \<open>A query leaves the cache alone.\<close>

lemma conectDB_cache: "conectDB srv dc = (err, dc') \<Longrightarrow> cache dc' = cache dc \<and> now dc' = now dc"
  using conectDB_spec(1,2) by simp

lemma query_loop_cache:
  "query_loop srv n live s arg err dc = (r, dc') \<Longrightarrow> cache dc' = cache dc \<and> now dc' = now dc"
  by (induction n arbitrary: err dc)
    (auto simp: stmt_query_def count_call_def log_event_def split: if_splits sum.splits prod.splits
      dest!: conectDB_cache)

lemma queryDB_cache:
  assumes "queryDB srv s arg scan dc = (r, dc')"
  shows "cache dc' = cache dc" "now dc' = now dc"
proof -
  obtain q d where q: "query_loop srv maxRetry (stmts dc s) s arg None dc = (q, d)" by force
  with assms have "dc' = d"
    by (auto simp: queryDB_def cbind_def split: sum.splits option.splits list.splits)
  with query_loop_cache [OF q] show "cache dc' = cache dc" "now dc' = now dc" by simp_all
qed

section \<open>Properties\<close>

text \<open>C11: on a live connection a query is retried past failures: if one of the five attempts is
  answered, the first answer's first row is the result, an empty answer is "not found", and no
  further statement is sent.\<close>

theorem queryDB_retries:
  assumes "dbc dc" "handles_ok dc" "length arg = numInput s" "k < 5"
    and "\<forall>j<k. \<exists>e. srv_query srv (sent dc + j) s arg = Inl e"
    and "srv_query srv (sent dc + k) s arg = Inr rows"
  shows "fst (queryDB srv s arg scan dc) = (case rows of [] \<Rightarrow> Inl (Error ErrNotFound) | r # rs \<Rightarrow> scan r) \<and>
         sent (snd (queryDB srv s arg scan dc)) = sent dc + k + 1"
proof -
  have "stmts dc s" using assms(1,2) by (simp add: handles_ok_def)
  then obtain dc' where "query_loop srv maxRetry (stmts dc s) s arg None dc = (Inr (Some rows, None), dc')"
    "sent dc' = sent dc + k + 1"
    using query_loop_answers [OF assms(1) _ assms(3) _ assms(5,6), of "stmts dc s" maxRetry None]
      assms(4) by (auto simp: maxRetry_def)
  then show ?thesis
    by (simp add: queryDB_def cbind_def split: list.split)
qed

definition idle_dc :: dbCache where
  "idle_dc = \<lparr>cache = NewCache 60, dbc = True, stmts = (\<lambda>_. True), now = 100, sent = 0, dblog = []\<rparr>"

definition flaky_srv :: dbServer where
  "flaky_srv = \<lparr>srv_connect = (\<lambda>_. None), srv_prepare = (\<lambda>_ _. None),
     srv_query = (\<lambda>n s arg. if n < 2 then Inl (ErrDB 1)
                  else if arg = [SInt 1, SInt 23] then Inr [[SInt 5]] else Inr []),
     srv_exec = (\<lambda>_ _ _. Inr 1)\<rparr>"

theorem queryDB_retries_witness:
  "fst (queryDB flaky_srv SelRelation [SInt 1, SInt 23] scan_id idle_dc) = Inr 5 \<and>
   sent (snd (queryDB flaky_srv SelRelation [SInt 1, SInt 23] scan_id idle_dc)) = 3"
  using queryDB_retries [of idle_dc "[SInt 1, SInt 23]" SelRelation 2 flaky_srv "[[SInt 5]]" scan_id]
  by (simp add: idle_dc_def flaky_srv_def handles_ok_def scan_id_def in_int64_def int64_min_def
      int64_max_def)

text \<open>C26: after a lost connection the first lookup crashes instead of recovering: the statement
  pointer was read while it was nil, the reconnect succeeds, and the next attempt dereferences
  it.  The request after that finds the connection up.\<close>

theorem queryDB_reconnect_panics:
  assumes "\<not> dbc dc" "handles_ok dc" "conectDB srv dc = (None, dc1)"
  shows "queryDB srv s arg scan dc = (Inl (Panic NilDereference), dc1) \<and> dbc dc1 \<and> handles_ok dc1"
proof -
  have "dbc dc1" "handles_ok dc1" "\<not> stmts dc s"
    using conectDB_spec [OF assms(3)] assms(1,2) by (simp_all add: handles_ok_def)
  with assms show ?thesis
    by (simp add: queryDB_def maxRetry_def numeral_eq_Suc stmt_query_def cbind_def)
qed

theorem queryDB_reconnect_panics_witness:
  "\<exists>dc1. queryDB flaky_srv SelApp [SInt 1, SStr ''t''] scan_id (closeAll idle_dc) =
     (Inl (Panic NilDereference), dc1)"
proof -
  obtain dc1 where "conectDB flaky_srv (closeAll idle_dc) = (None, dc1)"
    using conectDB_ok [of flaky_srv] by (auto simp: flaky_srv_def)
  with queryDB_reconnect_panics [of "closeAll idle_dc" flaky_srv dc1] show ?thesis
    by (auto simp: closeAll_def idle_dc_def handles_ok_def)
qed

text \<open>C27: error statistics never reach the database: the statement has five placeholders and the
  code passes four arguments, so every attempt fails before anything is sent.\<close>

theorem insertErrorStats_never_stores:
  assumes "dbc dc" "handles_ok dc"
  shows "insertErrorStats srv session iface app info tm dc = (Inl (Error (ErrArgs 5 4)), dc)"
proof -
  have "stmts dc InstErrorStats" using assms by (simp add: handles_ok_def)
  then have "exec_loop srv (Suc 4) (stmts dc InstErrorStats) InstErrorStats
      [SStr session, SInt iface, SInt app, SStr info] None dc = (Inr (None, Some (ErrArgs 5 4)), dc)"
    using exec_loop_args [OF assms(1), of "stmts dc InstErrorStats"
        "[SStr session, SInt iface, SInt app, SStr info]" InstErrorStats srv 4 None] by simp
  then show ?thesis
    by (simp add: insertErrorStats_def insertDB_def executeDB_def maxRetry_def cbind_def
        numeral_eq_Suc)
qed

theorem insertErrorStats_never_stores_witness:
  "insertErrorStats flaky_srv ''s'' 1 2 ''bad'' 0 idle_dc = (Inl (Error (ErrArgs 5 4)), idle_dc)"
  by (rule insertErrorStats_never_stores) (simp_all add: idle_dc_def handles_ok_def)

text \<open>A key that was found or has just been stored is found again in the same second.\<close>

lemma get_again:
  assumes "cache_ok t c" "Get t k c = (Some v, c')"
  shows "fst (Get t k c') = Some v"
proof -
  have c': "c' = snd (Get t k c)" using assms(2) by simp
  have "fst (Get t k c') = map_option fst (contents (snd (Get t k c')) k)"
    using assms(1) unfolding c' by (intro tc.get_result tc.get_ok)
  also have "contents (snd (Get t k c')) = contents c'"
    using tc.get_abs [OF tc.get_ok [OF assms(1), of k], of k] tc.get_abs [OF assms(1), of k]
      tc.get_limit [of t k c]
    by (auto simp: c' young_def fun_eq_iff split: option.splits)
  also have "map_option fst (contents c' k) = Some v"
    using tc.get_result [OF assms(1), of k] assms(2) by simp
  finally show ?thesis .
qed

lemma get_added:
  assumes "cache_ok t c" "Get t k c = (None, c')" "0 < timeout c"
  shows "fst (Get t k (Add t k v c')) = Some v"
proof -
  have c': "c' = snd (Get t k c)" using assms(2) by simp
  have "contents c' k = None"
    using tc.get_result [OF assms(1), of k] assms(2) by simp
  moreover have "cache_ok t c'" "timeout c' = timeout c"
    using tc.get_ok [OF assms(1), of k] tc.get_limit [of t k c] by (simp_all add: c')
  ultimately show ?thesis using tc.get_after_add [of t c' t k v] assms(3) by simp
qed

lemma validateRelation_known:
  assumes "fst (Get (now dc) (rel_key b j) (cache dc)) = Some v"
  shows "\<exists>dc2. validateRelation srv b j dc = (Inr (), dc2) \<and> dblog dc2 = dblog dc"
  using assms
  by (cases "Get (now dc) (rel_key b j) (cache dc)")
    (simp add: validateRelation_def Let_def cbind_def cache_get_def)

text \<open>C25: a grant is remembered under the decimal digits of both ids written together, so once an
  application was admitted to an interface, any application and interface whose digits give the
  same string are admitted without asking the database, whatever their relation.\<close>

theorem validateRelation_shares_key:
  assumes "dc_ok dc" "0 < timeout (cache dc)" "rel_key a i = rel_key b j"
    and "validateRelation srv a i dc = (Inr (), dc1)"
  shows "\<exists>dc2. validateRelation srv b j dc1 = (Inr (), dc2) \<and> dblog dc2 = dblog dc1"
proof -
  let ?k = "rel_key b j"
  have ok: "cache_ok (now dc) (cache dc)" using assms(1) by (simp add: dc_ok_def)
  obtain v c where g: "Get (now dc) ?k (cache dc) = (v, c)" by force
  have "\<exists>x. fst (Get (now dc1) ?k (cache dc1)) = Some x"
  proof (cases v)
    case (Some x)
    with assms(3,4) g have "dc1 = dc\<lparr>cache := c\<rparr>"
      by (simp add: validateRelation_def Let_def cbind_def cache_get_def)
    with get_again [OF ok g [unfolded Some]] show ?thesis by simp
  next
    case None
    obtain q d where q: "queryDB srv SelRelation [SInt a, SInt i] scan_id (dc\<lparr>cache := c\<rparr>) = (q, d)"
      by force
    with assms(3,4) g None obtain rid where rid: "dc1 = d\<lparr>cache := Add (now d) ?k (CRel rid) (cache d)\<rparr>"
      by (cases q) (auto simp: validateRelation_def Let_def cbind_def cache_get_def cache_add_def)
    have "cache d = c" "now d = now dc"
      using queryDB_cache [OF q] by simp_all
    with rid get_added [OF ok g [unfolded None] assms(2)] show ?thesis by simp
  qed
  then show ?thesis by (elim exE) (rule validateRelation_known)
qed

theorem validateRelation_shares_key_witness:
  "\<exists>dc1 dc2. validateRelation flaky_srv 1 23 idle_dc = (Inr (), dc1) \<and>
     validateRelation flaky_srv 12 3 dc1 = (Inr (), dc2) \<and> dblog dc2 = dblog dc1"
proof -
  have ok: "dc_ok idle_dc"
    by (simp add: dc_ok_def idle_dc_def tc.supported_def)
  have "rel_key 1 23 = rel_key 12 3" by code_simp
  moreover have "0 < timeout (cache idle_dc)" by (simp add: idle_dc_def NewCache_def)
  moreover have "fst (validateRelation flaky_srv 1 23 idle_dc) = Inr ()" by code_simp
  then obtain dc1 where "validateRelation flaky_srv 1 23 idle_dc = (Inr (), dc1)"
    by (metis prod.collapse)
  ultimately show ?thesis using validateRelation_shares_key [OF ok, of 1 23 12 3 flaky_srv dc1] by blast
qed

end
