(* ===== verification/Registry.thy ===== *)
theory Registry
  imports Meta
begin

text \<open>
  The registry protocol.  An instance announces itself under a key of the shared etcd
  (\<open>src/service/keepalive.go\<close>); the repeater (\<open>src/repeater/backend.go\<close>) and the distributor
  (\<open>src/distributor/watcher.go\<close>) follow the keys below the prefix and keep their own view of the
  live instances.  This theory has the writer's side, the events as the watchers receive them and
  the parsing of a key, which both watchers spell out in the same way.  The locale
  \<open>instance_view\<close> is the contract of such a view; it says when a view that processes every event
  holds exactly the instances whose keys are alive.
\<close>

section \<open>Definitions\<close>

definition apigatePrefix :: string where
  "apigatePrefix = ''/api/''"

definition apiKey :: "string \<Rightarrow> string \<Rightarrow> int \<Rightarrow> string" where
  "apiKey project local port = apigatePrefix @ project @ ''/'' @ local @ ''/'' @ show_int port"

text \<open>\<open>bindInfo\<close> with the address \<open>util.LocalAddr()\<close> found; without a colon \<open>LastIndex\<close> is -1 and the
  whole string is taken for the port.\<close>

definition bindInfo :: "string \<Rightarrow> string \<Rightarrow> string \<times> int" where
  "bindInfo local bind =
     (let port = (case last_index bind CHR '':'' of Some i \<Rightarrow> drop (i + 1) bind | None \<Rightarrow> bind)
      in (local, atoi port))"

text \<open>The key and value \<open>newKeepalive\<close> puts, from the build information linked into the binary.\<close>

record debugInfo =
  d_Project :: string
  d_ServiceKey :: string
  d_GitHash :: string
  d_GitTime :: string
  d_GitMessage :: string

definition newKeepalive :: "debugInfo \<Rightarrow> string \<Rightarrow> int \<Rightarrow> string \<Rightarrow> string \<times> string" where
  "newKeepalive debug addr pid bind =
     (let (local, port) = bindInfo addr bind
      in (apiKey (d_Project debug) local port,
          MicroAPP_String (NewMicroAPP local port (d_ServiceKey debug) pid (d_GitHash debug)
            (d_GitTime debug) (d_GitMessage debug))))"

datatype event = PutEvent string string | DeleteEvent string

text \<open>A key split as both watchers do it: \<open>None\<close> for fewer than four parts, else the name, the host
  and the text of the port.  The slices carry Go's bounds checks.\<close>

definition parseKey :: "string \<Rightarrow> (string \<times> string \<times> string) option result" where
  "parseKey k =
     (let ss = split_on CHR ''/'' k; n = int (length ss)
      in if length ss < 4 then Inr None
         else rbind (go_slice ss 2 (n - 2)) (\<lambda>names.
              rbind (go_index ss (n - 2)) (\<lambda>host.
              rbind (go_index ss (n - 1)) (\<lambda>port.
              Inr (Some (join ''/'' names, host, port))))))"

text \<open>What a watcher receives when the instance with this key comes up or goes away.\<close>

datatype ('k, 'm) change = Up 'k 'm | Down 'k

fun change_event :: "(string \<times> string \<times> int, MicroAPP) change \<Rightarrow> event" where
  "change_event (Up (name, host, port) a) = PutEvent (apiKey name host port) (MicroAPP_String a)"
| "change_event (Down (name, host, port)) = DeleteEvent (apiKey name host port)"

definition announces :: "string \<times> string \<times> int \<Rightarrow> MicroAPP \<Rightarrow> bool" where
  "announces k a = (case k of (name, host, port) \<Rightarrow>
     Host a = host \<and> Port a = port \<and> in_int64 (PID a))"

definition sane_key :: "string \<times> string \<times> int \<Rightarrow> bool" where
  "sane_key k = (case k of (name, host, port) \<Rightarrow> CHR ''/'' \<notin> set host \<and> in_int64 port)"

section \<open>Keys\<close>

lemma parseKey_no_panic: "\<exists>r. parseKey k = Inr r"
  by (simp add: parseKey_def Let_def)

lemma split_api_key:
  assumes "CHR ''/'' \<notin> set local"
  shows "split_on CHR ''/'' (apiKey project local port) =
           ['''', ''api''] @ split_on CHR ''/'' project @ [local, show_int port]"
proof -
  have key: "apiKey project local port =
      [] @ CHR ''/'' # ''api'' @ CHR ''/'' # project @ CHR ''/'' # local @ CHR ''/'' # show_int port"
    by (simp add: apiKey_def apigatePrefix_def)
  show ?thesis
    unfolding key by (simp only: split_on_append_sep) (use assms in simp)
qed

lemma parseKey_apiKey:
  assumes "CHR ''/'' \<notin> set local"
  shows "parseKey (apiKey project local port) = Inr (Some (project, local, show_int port))"
proof -
  let ?ps = "split_on CHR ''/'' project"
  have n: "0 < length ?ps" by simp
  have "length (split_on CHR ''/'' (apiKey project local port)) = length ?ps + 4"
    by (simp add: split_api_key [OF assms])
  moreover have "drop 2 (take (length ?ps + 2) (split_on CHR ''/'' (apiKey project local port))) = ?ps"
    by (simp add: split_api_key [OF assms])
  moreover have "split_on CHR ''/'' (apiKey project local port) ! (length ?ps + 2) = local"
    "split_on CHR ''/'' (apiKey project local port) ! (length ?ps + 3) = show_int port"
    by (simp_all add: split_api_key [OF assms] nth_append)
  ultimately show ?thesis
    by (simp add: parseKey_def Let_def go_slice_def nat_add_distrib drop_take add.commute)
qed

lemma Unmarshal_announced:
  "announces (name, host, port) a \<Longrightarrow> sane_key (name, host, port) \<Longrightarrow>
     Unmarshal_MicroAPP (MicroAPP_String a) = a"
  by (rule Unmarshal_MicroAPP_String) (auto simp: announces_def sane_key_def)

lemma apiKey_eq_iff:
  assumes "CHR ''/'' \<notin> set h" "CHR ''/'' \<notin> set h'"
  shows "apiKey p h i = apiKey p' h' i' \<longleftrightarrow> p = p' \<and> h = h' \<and> i = i'"
proof
  assume "apiKey p h i = apiKey p' h' i'"
  then have "parseKey (apiKey p h i) = parseKey (apiKey p' h' i')" by (rule arg_cong)
  then show "p = p' \<and> h = h' \<and> i = i'"
    unfolding parseKey_apiKey [OF assms(1)] parseKey_apiKey [OF assms(2)] by simp
qed (simp add: apiKey_def)

section \<open>Views of the live instances\<close>

fun change_key :: "('k, 'm) change \<Rightarrow> 'k" where
  "change_key (Up k m) = k"
| "change_key (Down k) = k"

fun alive :: "'k set \<Rightarrow> ('k, 'm) change list \<Rightarrow> 'k set" where
  "alive ks [] = ks"
| "alive ks (Up k m # cs) = alive (insert k ks) cs"
| "alive ks (Down k # cs) = alive (ks - {k}) cs"

locale instance_view =
  fixes up :: "'k \<Rightarrow> 'm \<Rightarrow> 's \<Rightarrow> 's"
    and down :: "'k \<Rightarrow> 's \<Rightarrow> 's"
    and slot :: "'k \<Rightarrow> 'i"
    and live :: "'s \<Rightarrow> 'i set"
    and ok :: "'s \<Rightarrow> bool"
    and valid :: "'k \<Rightarrow> 'm \<Rightarrow> bool"
  assumes ok_up: "ok s \<Longrightarrow> valid k m \<Longrightarrow> ok (up k m s)"
    and ok_down: "ok s \<Longrightarrow> ok (down k s)"
    and live_up: "ok s \<Longrightarrow> valid k m \<Longrightarrow> live (up k m s) = insert (slot k) (live s)"
    and live_down: "ok s \<Longrightarrow> live (down k s) = live s - {slot k}"
begin

primrec apply_change :: "('k, 'm) change \<Rightarrow> 's \<Rightarrow> 's" where
  "apply_change (Up k m) s = up k m s"
| "apply_change (Down k) s = down k s"

primrec valid_change :: "('k, 'm) change \<Rightarrow> bool" where
  "valid_change (Up k m) = valid k m"
| "valid_change (Down k) = True"

lemma ok_changes:
  "ok s \<Longrightarrow> \<forall>c\<in>set cs. valid_change c \<Longrightarrow> ok (fold apply_change cs s)"
proof (induction cs arbitrary: s)
  case (Cons c cs)
  then show ?case by (cases c) (auto intro: ok_up ok_down)
qed simp

text \<open>A view follows the registry exactly as long as no two keys in play share a slot.\<close>

lemma live_changes:
  assumes "ok s" "live s = slot ` ks" "inj_on slot (ks \<union> change_key ` set cs)"
    "\<forall>c\<in>set cs. valid_change c"
  shows "live (fold apply_change cs s) = slot ` alive ks cs"
  using assms
proof (induction cs arbitrary: s ks)
  case (Cons c cs)
  show ?case
  proof (cases c)
    case (Up k m)
    moreover have "inj_on slot (insert k ks \<union> change_key ` set cs)"
      using Cons.prems(3) Up by simp
    ultimately show ?thesis
      using Cons.prems Cons.IH [of "up k m s" "insert k ks"]
      by (simp add: ok_up live_up)
  next
    case (Down k)
    have "slot ` ks - {slot k} = slot ` (ks - {k})"
      using Cons.prems(3) Down by (auto simp: inj_on_def)
    moreover have "inj_on slot (ks - {k} \<union> change_key ` set cs)"
      using Cons.prems(3) Down by (auto elim!: inj_on_subset)
    ultimately show ?thesis
      using Cons.prems Down Cons.IH [of "down k s" "ks - {k}"]
      by (simp add: ok_down live_down)
  qed
qed simp

end

end
