(* ===== verification/Backend.thy ===== *)
theory Backend
  imports Registry
begin

text \<open>
  The repeater's view of the registry, \<open>src/repeater/backend.go\<close>: the live instances of every
  service by name.  The mutex makes each operation one step; \<open>unregister\<close> builds a new slice and
  \<open>append\<close> only writes past the length that readers have seen, so the lists handed out by
  \<open>getMicroAPPs\<close> are values.
\<close>

section \<open>Definitions\<close>

record backendService =
  apps :: "string \<rightharpoonup> MicroAPP list"

definition newBackendService :: backendService where
  "newBackendService = \<lparr>apps = Map.empty\<rparr>"

definition same_addr :: "string \<Rightarrow> int \<Rightarrow> MicroAPP \<Rightarrow> bool" where
  "same_addr host port a = (Host a = host \<and> Port a = port)"

text \<open>The loop of \<open>unregister\<close>: the list without its first instance at the address.\<close>

fun without_first :: "string \<Rightarrow> int \<Rightarrow> MicroAPP list \<Rightarrow> MicroAPP list option" where
  "without_first host port [] = None"
| "without_first host port (a # as) =
     (if same_addr host port a then Some as
      else map_option (\<lambda>ns. a # ns) (without_first host port as))"

definition unregister :: "string \<Rightarrow> string \<Rightarrow> int \<Rightarrow> backendService \<Rightarrow> backendService" where
  "unregister name host port bs =
     (case apps bs name of
        None \<Rightarrow> bs
      | Some as \<Rightarrow>
          (case without_first host port as of
             None \<Rightarrow> bs
           | Some ns \<Rightarrow>
               if length as = 1 then bs\<lparr>apps := (apps bs)(name := None)\<rparr>
               else bs\<lparr>apps := (apps bs)(name \<mapsto> ns)\<rparr>))"

definition register :: "string \<Rightarrow> MicroAPP \<Rightarrow> backendService \<Rightarrow> backendService" where
  "register name app bs =
     (case apps bs name of
        None \<Rightarrow> bs\<lparr>apps := (apps bs)(name \<mapsto> [app])\<rparr>
      | Some as \<Rightarrow>
          if list_ex (same_addr (Host app) (Port app)) as then bs
          else bs\<lparr>apps := (apps bs)(name \<mapsto> as @ [app])\<rparr>)"

definition getMicroAPPs :: "string \<Rightarrow> backendService \<Rightarrow> MicroAPP list result" where
  "getMicroAPPs name bs =
     (case apps bs name of None \<Rightarrow> Inl (Error ErrNotFound) | Some as \<Rightarrow> Inr as)"

text \<open>One event of the watch loop of \<open>start\<close>.\<close>

fun handle_event :: "event \<Rightarrow> backendService \<Rightarrow> backendService result" where
  "handle_event (DeleteEvent k) bs =
     rbind (parseKey k) (\<lambda>r.
     case r of
       None \<Rightarrow> Inr bs
     | Some (name, host, port) \<Rightarrow> Inr (unregister name host (atoi port) bs))"
| "handle_event (PutEvent k v) bs =
     rbind (parseKey k) (\<lambda>r.
     case r of
       None \<Rightarrow> Inr bs
     | Some (name, host, port) \<Rightarrow> Inr (register name (Unmarshal_MicroAPP v) bs))"

fun start :: "event list \<Rightarrow> backendService \<Rightarrow> backendService result" where
  "start [] bs = Inr bs"
| "start (e # es) bs = rbind (handle_event e bs) (start es)"

text \<open>\<open>load\<close> with the keys and values \<open>List\<close> returned, in the order the map range yields them.\<close>

fun load_all :: "(string \<times> string) list \<Rightarrow> backendService \<Rightarrow> backendService result" where
  "load_all [] bs = Inr bs"
| "load_all ((k, v) # kvs) bs =
     rbind (parseKey k) (\<lambda>r.
     case r of
       None \<Rightarrow> load_all kvs bs
     | Some (name, host, port) \<Rightarrow> load_all kvs (register name (Unmarshal_MicroAPP v) bs))"

definition load :: "(string \<times> string) list result \<Rightarrow> backendService \<Rightarrow> backendService result" where
  "load listing bs = rbind listing (\<lambda>kvs. load_all kvs bs)"

text \<open>The invariant of the view, and the addresses it holds.\<close>

definition backend_ok :: "backendService \<Rightarrow> bool" where
  "backend_ok bs \<longleftrightarrow>
     (\<forall>name as. apps bs name = Some as \<longrightarrow>
        as \<noteq> [] \<and> distinct (map (\<lambda>a. (Host a, Port a)) as))"

definition addresses :: "backendService \<Rightarrow> (string \<times> string \<times> int) set" where
  "addresses bs =
     {(name, Host a, Port a) | name a. \<exists>as. apps bs name = Some as \<and> a \<in> set as}"

text \<open>The operations by the key of an instance.\<close>

definition reg_up :: "string \<times> string \<times> int \<Rightarrow> MicroAPP \<Rightarrow> backendService \<Rightarrow> backendService" where
  "reg_up k a = register (fst k) a"

definition reg_down :: "string \<times> string \<times> int \<Rightarrow> backendService \<Rightarrow> backendService" where
  "reg_down k = unregister (fst k) (fst (snd k)) (snd (snd k))"

text \<open>The address a listed key and value stand for.\<close>

definition listed_addr :: "string \<times> string \<Rightarrow> (string \<times> string \<times> int) option" where
  "listed_addr kv =
     (case parseKey (fst kv) of
        Inr (Some (name, _, _)) \<Rightarrow>
          (let a = Unmarshal_MicroAPP (snd kv) in Some (name, Host a, Port a))
      | _ \<Rightarrow> None)"

section \<open>The operations keep the invariant and act on the set of addresses\<close>

lemma without_first_None:
  "without_first host port as = None \<longleftrightarrow> (host, port) \<notin> (\<lambda>a. (Host a, Port a)) ` set as"
  by (induction as) (auto simp: same_addr_def)

lemma without_first_Some:
  assumes "without_first host port as = Some ns" "distinct (map (\<lambda>a. (Host a, Port a)) as)"
  shows "length as = Suc (length ns) \<and> distinct (map (\<lambda>a. (Host a, Port a)) ns) \<and>
    set ns = {a \<in> set as. \<not> same_addr host port a}"
  using assms
proof (induction as arbitrary: ns)
  case (Cons a as)
  have a: "(Host a, Port a) \<notin> (\<lambda>a. (Host a, Port a)) ` set as"
    and d: "distinct (map (\<lambda>a. (Host a, Port a)) as)"
    using Cons.prems(2) by simp_all
  show ?case
  proof (cases "same_addr host port a")
    case True
    then have "\<not> same_addr host port b" if "b \<in> set as" for b
      using a that by (auto simp: same_addr_def image_iff)
    with True Cons.prems(1) d show ?thesis by auto
  next
    case False
    then obtain ns' where "without_first host port as = Some ns'" "ns = a # ns'"
      using Cons.prems(1) by auto
    with Cons.IH [OF _ d, of ns'] False a show ?thesis by auto
  qed
qed simp

lemma backend_ok_new [simp]: "backend_ok newBackendService" "addresses newBackendService = {}"
  by (simp_all add: backend_ok_def newBackendService_def addresses_def)

lemma list_ex_addr:
  "list_ex (same_addr h p) as \<longleftrightarrow> (h, p) \<in> (\<lambda>a. (Host a, Port a)) ` set as"
  by (auto simp: list_ex_iff same_addr_def)

lemma backend_ok_register:
  "backend_ok bs \<Longrightarrow> backend_ok (register name a bs)"
  by (auto simp: backend_ok_def register_def list_ex_addr split: option.splits)

lemma mem_addresses:
  "(n, h, p) \<in> addresses bs \<longleftrightarrow>
     (\<exists>as. apps bs n = Some as \<and> (h, p) \<in> (\<lambda>a. (Host a, Port a)) ` set as)"
  by (auto simp: addresses_def)

lemma addresses_register:
  "addresses (register name a bs) = insert (name, Host a, Port a) (addresses bs)"
proof -
  have "(n, h, p) \<in> addresses (register name a bs) \<longleftrightarrow>
      (n, h, p) \<in> insert (name, Host a, Port a) (addresses bs)" for n h p
    unfolding insert_iff mem_addresses
    by (cases "apps bs name") (auto simp: register_def list_ex_addr)
  then show ?thesis by auto
qed

lemma backend_ok_unregister:
  assumes "backend_ok bs"
  shows "backend_ok (unregister name host port bs)"
proof -
  have "ns \<noteq> [] \<and> distinct (map (\<lambda>a. (Host a, Port a)) ns)"
    if "apps bs name = Some as" "without_first host port as = Some ns" "length as \<noteq> 1" for as ns
    using without_first_Some [OF that(2)] that assms by (auto simp: backend_ok_def)
  with assms show ?thesis
    by (simp add: backend_ok_def unregister_def split: option.split)
qed

lemma apps_unregister:
  assumes "backend_ok bs" "apps bs name = Some as"
  shows "(\<lambda>a. (Host a, Port a)) ` set (case apps (unregister name host port bs) name of
             None \<Rightarrow> [] | Some ns \<Rightarrow> ns) = (\<lambda>a. (Host a, Port a)) ` set as - {(host, port)}"
proof (cases "without_first host port as")
  case None
  moreover from None have "(host, port) \<notin> (\<lambda>a. (Host a, Port a)) ` set as"
    by (simp only: without_first_None not_False_eq_True)
  ultimately show ?thesis using assms(2) by (simp add: unregister_def)
next
  case (Some ns)
  have "length as = Suc (length ns)" "set ns = {a \<in> set as. \<not> same_addr host port a}"
    using without_first_Some [OF Some] assms by (auto simp: backend_ok_def)
  with Some assms(2) show ?thesis
    by (auto simp: unregister_def same_addr_def)
qed

lemma addresses_unregister:
  assumes "backend_ok bs"
  shows "addresses (unregister name host port bs) = addresses bs - {(name, host, port)}"
proof -
  let ?bs = "unregister name host port bs"
  have other: "apps ?bs n = apps bs n" if "n \<noteq> name" for n
    using that by (simp add: unregister_def split: option.split)
  have "(n, h, p) \<in> addresses ?bs \<longleftrightarrow> (n, h, p) \<in> addresses bs - {(name, host, port)}" for n h p
  proof (cases "n = name \<and> apps bs name \<noteq> None")
    case True
    then obtain as where as: "apps bs name = Some as" by auto
    have "(n, h, p) \<in> addresses ?bs \<longleftrightarrow> (h, p) \<in> (\<lambda>a. (Host a, Port a)) `
        set (case apps ?bs name of None \<Rightarrow> [] | Some ns \<Rightarrow> ns)"
      using True by (cases "apps ?bs name") (simp_all add: mem_addresses)
    then show ?thesis
      unfolding apps_unregister [OF assms as] using True as by (auto simp: mem_addresses)
  next
    case False
    then show ?thesis
      using other by (auto simp: mem_addresses unregister_def)
  qed
  then show ?thesis by auto
qed

interpretation bv: instance_view reg_up reg_down "\<lambda>k. k" addresses backend_ok announces
  by unfold_locales
    (auto simp: reg_up_def reg_down_def announces_def backend_ok_register backend_ok_unregister
      addresses_register addresses_unregister)

section \<open>The watch loop\<close>

lemma handle_event_total:
  "\<exists>bs'. handle_event e bs = Inr bs' \<and> (backend_ok bs \<longrightarrow> backend_ok bs')"
proof (cases e)
  case (PutEvent k v)
  then show ?thesis
    using parseKey_no_panic [of k]
    by (auto simp: backend_ok_register split: option.split)
next
  case (DeleteEvent k)
  then show ?thesis
    using parseKey_no_panic [of k]
    by (auto simp: backend_ok_unregister split: option.split)
qed

lemma handle_change:
  assumes "sane_key (change_key c)" "\<And>k a. c = Up k a \<Longrightarrow> announces k a"
  shows "handle_event (change_event c) bs = Inr (bv.apply_change c bs)"
proof (cases c)
  case (Up k a)
  then obtain n h p where k: "k = (n, h, p)" by (cases k) auto
  with Up assms have "announces (n, h, p) a" "sane_key (n, h, p)" by auto
  with Up k show ?thesis
    by (simp add: reg_up_def Unmarshal_announced) (simp add: sane_key_def parseKey_apiKey)
next
  case (Down k)
  then obtain n h p where k: "k = (n, h, p)" by (cases k) auto
  with Down assms show ?thesis by (simp add: reg_down_def sane_key_def parseKey_apiKey)
qed

lemma start_changes:
  assumes "\<forall>c\<in>set cs. sane_key (change_key c) \<and> (\<forall>k a. c = Up k a \<longrightarrow> announces k a)"
  shows "start (map change_event cs) bs = Inr (fold bv.apply_change cs bs)"
  using assms
proof (induction cs arbitrary: bs)
  case (Cons c cs)
  have "handle_event (change_event c) bs = Inr (bv.apply_change c bs)"
    using Cons.prems by (intro handle_change) auto
  with Cons show ?case by simp
qed simp

lemma load_all_addresses:
  "\<exists>bs'. load_all kvs bs = Inr bs' \<and> (backend_ok bs \<longrightarrow> backend_ok bs') \<and>
     addresses bs' = addresses bs \<union> {t. \<exists>kv\<in>set kvs. listed_addr kv = Some t}"
proof (induction kvs arbitrary: bs)
  case (Cons kv kvs)
  obtain k v where kv: "kv = (k, v)" by force
  obtain r where r: "parseKey k = Inr r" using parseKey_no_panic by blast
  show ?case
  proof (cases r)
    case None
    with Cons.IH [of bs] kv r show ?thesis by (simp add: listed_addr_def)
  next
    case (Some t)
    then obtain name host port where t: "r = Some (name, host, port)" by (cases t) auto
    let ?bs = "register name (Unmarshal_MicroAPP v) bs"
    obtain bs' where "load_all kvs ?bs = Inr bs'" "backend_ok ?bs \<longrightarrow> backend_ok bs'"
      "addresses bs' = addresses ?bs \<union> {t. \<exists>kv\<in>set kvs. listed_addr kv = Some t}"
      using Cons.IH by blast
    moreover have "listed_addr kv =
        Some (name, Host (Unmarshal_MicroAPP v), Port (Unmarshal_MicroAPP v))"
      using kv r t by (simp add: listed_addr_def Let_def)
    ultimately show ?thesis
      using kv r t by (auto simp: addresses_register backend_ok_register)
  qed
qed simp

section \<open>Properties\<close>

text \<open>C4: the repeater's watch loop mirrors the registry.  Whatever instances come up and go away,
  in any order and under any names, after processing their events the repeater knows exactly
  the addresses whose keys are alive, and no key or value makes the loop panic.\<close>

theorem start_mirrors_registry:
  assumes "\<forall>c\<in>set cs. sane_key (change_key c) \<and> (\<forall>k a. c = Up k a \<longrightarrow> announces k a)"
  shows "\<exists>bs. start (map change_event cs) newBackendService = Inr bs \<and> backend_ok bs \<and>
           addresses bs = alive {} cs"
proof -
  have valid: "\<forall>c\<in>set cs. bv.valid_change c"
  proof
    fix c assume "c \<in> set cs"
    with assms show "bv.valid_change c" by (cases c) auto
  qed
  show ?thesis
    using start_changes [OF assms] bv.ok_changes [OF backend_ok_new(1) valid]
      bv.live_changes [OF backend_ok_new(1) _ _ valid, of "{}"]
    by simp
qed

theorem start_mirrors_registry_witness:
  "\<exists>bs. start (map change_event
      [Up (''git/svc'', ''10.0.0.1'', 8080) (NewMicroAPP ''10.0.0.1'' 8080 ''k'' 1 ''h'' ''t'' ''m''),
       Up (''git/svc'', ''10.0.0.2'', 8080) (NewMicroAPP ''10.0.0.2'' 8080 ''k'' 2 ''h'' ''t'' ''m''),
       Down (''git/svc'', ''10.0.0.1'', 8080)]) newBackendService = Inr bs \<and> backend_ok bs \<and>
     addresses bs = {(''git/svc'', ''10.0.0.2'', 8080)}"
proof -
  let ?a = "\<lambda>h i. NewMicroAPP h 8080 ''k'' i ''h'' ''t'' ''m''"
  let ?cs = "[Up (''git/svc'', ''10.0.0.1'', 8080 :: int) (?a ''10.0.0.1'' 1),
    Up (''git/svc'', ''10.0.0.2'', 8080) (?a ''10.0.0.2'' 2), Down (''git/svc'', ''10.0.0.1'', 8080)]"
  have "\<forall>c\<in>set ?cs. sane_key (change_key c) \<and> (\<forall>k a. c = Up k a \<longrightarrow> announces k a)"
    by (simp add: sane_key_def announces_def NewMicroAPP_def in_int64_def int64_min_def int64_max_def)
  then have "\<exists>bs. start (map change_event ?cs) newBackendService = Inr bs \<and> backend_ok bs \<and>
      addresses bs = alive {} ?cs"
    by (rule start_mirrors_registry)
  moreover have "alive {} ?cs = {(''git/svc'', ''10.0.0.2'', 8080)}" by auto
  ultimately show ?thesis by (simp only:)
qed

text \<open>C18: no event, however malformed its key or value, stops the watch loop or breaks the
  invariant that every listed service has at least one instance and no address twice.\<close>

theorem start_total:
  assumes "backend_ok bs"
  shows "\<exists>bs'. start es bs = Inr bs' \<and> backend_ok bs'"
  using assms
proof (induction es arbitrary: bs)
  case (Cons e es)
  obtain b1 where "handle_event e bs = Inr b1" "backend_ok b1"
    using handle_event_total Cons.prems by blast
  with Cons.IH [of b1] show ?case by simp
qed simp

theorem start_total_witness:
  "\<exists>bs'. start [PutEvent ''/api'' ''x'', PutEvent ''/api/a/b'' ''{'', DeleteEvent ''////x'']
     newBackendService = Inr bs' \<and> backend_ok bs'"
  by (rule start_total) simp

text \<open>C35: the initial listing is loaded completely and the order in which the map range yields it
  does not matter: two loads of the same keys give the same addresses.\<close>

theorem load_order_irrelevant:
  assumes "mset kvs = mset kvs'"
  shows "\<exists>bs1 bs2. load (Inr kvs) bs = Inr bs1 \<and> load (Inr kvs') bs = Inr bs2 \<and>
           addresses bs1 = addresses bs2"
proof -
  have "set kvs = set kvs'" using assms by (rule mset_eq_setD)
  then show ?thesis
    using load_all_addresses [of kvs bs] load_all_addresses [of kvs' bs]
    by (auto simp: load_def)
qed

theorem load_order_irrelevant_witness:
  "\<exists>bs1 bs2. load (Inr [(''/api/x/h/1'', ''{}''), (''/bad'', '''')]) newBackendService = Inr bs1 \<and>
     load (Inr [(''/bad'', ''''), (''/api/x/h/1'', ''{}'')]) newBackendService = Inr bs2 \<and>
     addresses bs1 = addresses bs2"
  by (rule load_order_irrelevant) simp

end
