(* ===== verification/Uuid.thy ===== *)
theory Uuid
  imports Go_Prelude
begin

text \<open>
  Session identifiers, \<open>src/util/uuid/uuid.go\<close>: eight bytes, of which the first four are the
  machine's address and the process id and the last four a counter, printed in hexadecimal.  The
  counter is a 32-bit word and wraps; one call is one step (the byte buffer is shared, so two calls
  that run at once may print the same counter).
\<close>

section \<open>Definitions\<close>

record uuidState =
  inc :: "32 word"
  uuid_head :: "8 word list"

text \<open>\<open>init\<close>: the last two bytes of the first address that is not a loopback and has four bytes,
  zero without one, then the process id, little endian.\<close>

record ipAddr =
  isLoopback :: bool
  to4 :: "8 word list"

fun host_bytes :: "ipAddr list \<Rightarrow> 8 word list" where
  "host_bytes [] = [0, 0]"
| "host_bytes (a # as) =
     (if \<not> isLoopback a \<and> length (to4 a) = 4 then [to4 a ! 2, to4 a ! 3] else host_bytes as)"

definition put_uint16_le :: "16 word \<Rightarrow> 8 word list" where
  "put_uint16_le w = [ucast w, ucast (drop_bit 8 w)]"

definition put_uint32_be :: "32 word \<Rightarrow> 8 word list" where
  "put_uint32_be w = [ucast (drop_bit 24 w), ucast (drop_bit 16 w), ucast (drop_bit 8 w), ucast w]"

definition uint_be :: "8 word list \<Rightarrow> nat" where
  "uint_be bs = foldl (\<lambda>n b. 256 * n + unat b) 0 bs"

definition uuid_init :: "ipAddr list \<Rightarrow> int \<Rightarrow> uuidState" where
  "uuid_init addrs pid =
     \<lparr>inc = 0, uuid_head = host_bytes addrs @ put_uint16_le (word_of_int pid)\<rparr>"

definition UINT64 :: "uuidState \<Rightarrow> nat \<times> uuidState" where
  "UINT64 u =
     (let n = inc u + 1 in (uint_be (uuid_head u @ put_uint32_be n), u\<lparr>inc := n\<rparr>))"

definition uuid_String :: "uuidState \<Rightarrow> string \<times> uuidState" where
  "uuid_String u = (case UINT64 u of (n, u') \<Rightarrow> (show_base 16 n, u'))"

text \<open>The identifiers of \<open>n\<close> successive calls.\<close>

fun sessions :: "nat \<Rightarrow> uuidState \<Rightarrow> string list" where
  "sessions 0 u = []"
| "sessions (Suc n) u = (case uuid_String u of (s, u') \<Rightarrow> s # sessions n u')"

section \<open>The bytes of an identifier\<close>

lemma uint_be_append: "uint_be (xs @ ys) = uint_be xs * 256 ^ length ys + uint_be ys"
proof -
  have "foldl (\<lambda>n b. 256 * n + unat b) k ys = k * 256 ^ length ys + uint_be ys" for k and ys :: "8 word list"
    unfolding uint_be_def
  proof (induction ys arbitrary: k)
    case (Cons y ys)
    from Cons [of "256 * k + unat y"] Cons [of "unat y"] show ?case by (simp add: algebra_simps)
  qed simp
  from this [of "uint_be xs" ys] show ?thesis by (simp add: uint_be_def)
qed

lemma unat_low_byte: "unat (ucast (w :: 32 word) :: 8 word) = unat w mod 256"
  by (simp add: unsigned_ucast_eq take_bit_eq_mod)

lemma unat_drop: "unat (drop_bit n (w :: 32 word)) = unat w div 2 ^ n"
proof -
  have "take_bit 32 (unat w) = unat w"
    using unsigned_less [where 'a = nat, of w] by (intro take_bit_nat_eq_self) simp
  then show ?thesis by (simp add: unsigned_drop_bit_eq flip: drop_bit_eq_div)
qed

lemma four_digits:
  fixes m :: nat
  shows "256 * (256 * (256 * (m div 16777216) + m div 65536 mod 256) + m div 256 mod 256) + m mod 256 = m"
proof -
  have d: "256 * (n div 256) + n mod 256 = n" for n :: nat by simp
  have q: "m div 65536 = m div 256 div 256" "m div 16777216 = m div 256 div 256 div 256"
    using div_mult2_eq [of m 256 256] div_mult2_eq [of "m div 256" 256 256]
      div_mult2_eq [of m 256 65536] by simp_all
  have "256 * (m div 16777216) + m div 65536 mod 256 = m div 65536"
    using d [of "m div 65536"] q by simp
  moreover have "256 * (m div 65536) + m div 256 mod 256 = m div 256"
    using d [of "m div 256"] q by simp
  ultimately show ?thesis using d [of m] by simp
qed

lemma uint_be_put: "uint_be (put_uint32_be w) = unat w"
proof -
  have "unat w < 16777216 * 256" using unsigned_less [where 'a = nat, of w] by simp
  then have "unat w div 16777216 < 256" by (simp only: less_mult_imp_div_less mult.commute)
  then have top: "unat w div 16777216 mod 256 = unat w div 16777216" by (rule mod_less)
  show ?thesis
    using four_digits [of "unat w"]
    by (simp add: uint_be_def put_uint32_be_def unat_low_byte unat_drop top)
qed

lemma show_base_inj: "1 < b \<Longrightarrow> b \<le> 16 \<Longrightarrow> show_base b m = show_base b n \<Longrightarrow> m = n"
  by (drule arg_cong [of _ _ "read_digits b"]) simp

lemma uuid_string_value:
  "fst (uuid_String u) = show_base 16 (uint_be (uuid_head u) * 2 ^ 32 + unat (inc u + 1))"
  by (simp add: uuid_String_def UINT64_def Let_def uint_be_append uint_be_put put_uint32_be_def [symmetric])
    (simp add: put_uint32_be_def)

lemma sessions_value:
  "sessions n u =
     map (\<lambda>i. show_base 16 (uint_be (uuid_head u) * 2 ^ 32 + unat (inc u + of_nat (Suc i)))) [0..<n]"
proof (induction n arbitrary: u)
  case (Suc n)
  have split: "map f [0..<Suc n] = f 0 # map (\<lambda>i. f (Suc i)) [0..<n]" for f :: "nat \<Rightarrow> string"
    by (simp add: upt_conv_Cons map_Suc_upt [symmetric] del: upt_Suc)
  show ?case
    unfolding split using Suc uuid_string_value [of u]
    by (simp add: uuid_String_def UINT64_def Let_def add.assoc del: upt_Suc)
qed simp

section \<open>Properties\<close>

text \<open>C31: the session identifiers that one process hands out are pairwise different, for up to
  \<open>2 ^ 32\<close> successive calls, wherever the counter starts.\<close>

theorem sessions_distinct: "n \<le> 2 ^ 32 \<Longrightarrow> distinct (sessions n u)"
proof -
  assume n: "n \<le> 2 ^ 32"
  have "i = j" if "i < n" "j < n"
    "unat (inc u + of_nat (Suc i)) = unat (inc u + of_nat (Suc j))" for i j
  proof -
    from that(3) have "inc u + of_nat (Suc i) = inc u + of_nat (Suc j)"
      by (rule unsigned_word_eqI)
    then have "i mod 2 ^ 32 = j mod 2 ^ 32"
      by (simp add: word_of_nat_eq_iff take_bit_eq_mod)
    with that n show ?thesis by simp
  qed
  then show ?thesis
    by (auto simp: sessions_value distinct_map inj_on_def dest!: show_base_inj [rotated 2])
qed

theorem sessions_distinct_witness:
  "distinct (sessions 3 (uuid_init [\<lparr>isLoopback = False, to4 = [10, 0, 3, 7]\<rparr>] 4660))"
  by (rule sessions_distinct) simp

end
