(* ===== verification/Repeater.thy ===== *)
theory Repeater
  imports DbCache Backend Decode Uuid
begin

text \<open>
  The gateway's request path, \<open>src/repeater/repeater.go\<close>: look up the caller and the interface,
  check the caller's grant and the declared variables, rewrite the request, forward it to the
  backend and account for the call.

  The backend server is a parameter: it answers a request with the text of a transport error
  or with a body and a status.  The state of the gateway is the database cache, the instance view, the statistics and
  the session counter; \<open>forwarded\<close> logs the requests that were sent to a backend.
\<close>

section \<open>Definitions\<close>

subsection \<open>Variables\<close>

text \<open>For a URI variable the code deletes from the map that \<open>Query\<close> has just built, which leaves the
  request as it was.\<close>

definition delValue :: "Variable \<Rightarrow> Request \<Rightarrow> Request" where
  "delValue v req =
     (if var_Postion v = HEADER then req\<lparr>rq_Header := header_del (rq_Header req) (var_Name v)\<rparr>
      else if var_Postion v = FORM then
        req\<lparr>rq_Form := map_option (\<lambda>f. values_del f (var_Name v)) (rq_Form req)\<rparr>
      else req)"

definition validateValue :: "Variable \<Rightarrow> string \<Rightarrow> bool result" where
  "validateValue v val =
     (if \<not> var_Required v \<and> val = [] then Inr True
      else if var_Type v = ''int'' then
        (if snd (parse_int 10 val) then Inr False
         else Inl (Error (ErrNotNumber (var_Name v) val)))
      else if val = [] then Inl (Error (ErrMissingKey (var_Name v)))
      else Inr False)"

subsection \<open>The caller and the interface\<close>

definition GetInterface :: "dbServer \<Rightarrow> Request \<Rightarrow> (dbCache, Application \<times> Interface) call" where
  "GetInterface srv req =
     (let token = header_get (rq_Header req) ''Token'' in
      if token = [] then craise (Error ErrNeedToken)
      else
        cbind (getApp srv token) (\<lambda>app.
        cbind (getInterface srv (url_Path (rq_URL req))) (\<lambda>iface.
        if ifc_Method iface \<noteq> RESTful \<and> rq_Method req \<noteq> method_String (ifc_Method iface) then
          craise (Error (ErrMethod (rq_Method req) (method_String (ifc_Method iface))))
        else if \<not> svc_Validate (ifc_Service iface) then creturn (app, iface)
        else (\<lambda>dc.
          case validateRelation srv (app_ID app) (ifc_ID iface) dc of
            (Inr _, dc1) \<Rightarrow> (Inr (app, iface), dc1)
          | (Inl f, dc1) \<Rightarrow>
              (Inl (if f = Error ErrNotFound then Error ErrForbidden else f), dc1)))))"

subsection \<open>The declared variables\<close>

definition parseForm :: "Variable list \<Rightarrow> Request \<Rightarrow> unit result \<times> Request" where
  "parseForm vs req =
     (if list_ex (\<lambda>v. var_Postion v = FORM) vs then
        (case rq_Body req of
           BadBody e \<Rightarrow> (Inl (Error e), req)
         | _ \<Rightarrow>
             (case ParseForm req of
                (Some e, r) \<Rightarrow> (Inl (Error e), r)
              | (None, r) \<Rightarrow> (Inr (), r)))
      else (Inr (), req))"

definition var_value :: "Variable \<Rightarrow> Request \<Rightarrow> string \<times> Request" where
  "var_value v req =
     (if var_Postion v = URI then (values_get (url_Query (rq_URL req)) (var_Name v), req)
      else if var_Postion v = FORM then FormValue req (var_Name v)
      else if var_Postion v = HEADER then (header_get (rq_Header req) (var_Name v), req)
      else ([], req))"

fun validate_vars :: "Variable list \<Rightarrow> Request \<Rightarrow> unit result \<times> Request" where
  "validate_vars [] req = (Inr (), req)"
| "validate_vars (v # vs) req =
     (case var_value v req of (val, r) \<Rightarrow>
      case validateValue v val of
        Inl f \<Rightarrow> (Inl f, r)
      | Inr del \<Rightarrow> validate_vars vs (if del then delValue v r else r))"

definition Validate :: "dbServer \<Rightarrow> Interface \<Rightarrow> Request \<Rightarrow> (dbCache, unit \<times> Request) call" where
  "Validate srv iface req =
     cbind (getVariable srv (ifc_ID iface)) (\<lambda>vs.
     case parseForm vs req of
       (Inl f, _) \<Rightarrow> craise f
     | (Inr _, r) \<Rightarrow>
         (case validate_vars vs r of
            (Inl f, _) \<Rightarrow> craise f
          | (Inr _, r') \<Rightarrow> creturn ((), r')))"

subsection \<open>The request to the backend\<close>

text \<open>Go's \<open>%\<close> on signed integers, with its panic.\<close>

definition go_rem :: "int \<Rightarrow> int \<Rightarrow> int result" where
  "go_rem a b =
     (if b = 0 then Inl (Panic DivideByZero)
      else Inr (if a < 0 then - (\<bar>a\<bar> mod \<bar>b\<bar>) else \<bar>a\<bar> mod \<bar>b\<bar>))"

text \<open>The URL of one of the registered instances; \<open>nano\<close> is the clock in nanoseconds.\<close>

definition faas_backend :: "int \<Rightarrow> backendService \<Rightarrow> Interface \<Rightarrow> string result" where
  "faas_backend nano bs iface =
     rbind (getMicroAPPs (ifc_Backend iface) bs) (\<lambda>as.
     rbind (go_rem nano (int (length as))) (\<lambda>idx.
     rbind (go_index as idx) (\<lambda>a.
     Inr (''http://'' @ Host a @ '':'' @ show_int (Port a) @ ifc_Path iface))))"

text \<open>A configured backend, with what follows the interface's name in the request's path.\<close>

definition plain_backend :: "Interface \<Rightarrow> Request \<Rightarrow> string" where
  "plain_backend iface req =
     (let backend = ifc_Backend iface; upath = url_Path (rq_URL req) in
      case str_index upath (ifc_Path iface) of
        None \<Rightarrow> backend
      | Some idx \<Rightarrow>
          (let path = drop (idx + length (ifc_Path iface)) upath in
           if idx > 0 \<and> length path > 1 then
             (if has_suffix backend ''/'' then backend @ tl path else backend @ path)
           else backend))"

definition buildRequest :: "string \<Rightarrow> int \<Rightarrow> backendService \<Rightarrow> string \<Rightarrow> Interface \<Rightarrow> Request \<Rightarrow> Request result" where
  "buildRequest gitTime nano bs sid iface req =
     rbind (if svc_Version (ifc_Service iface) = 1 then faas_backend nano bs iface
            else Inr (plain_backend iface req)) (\<lambda>backend.
     let args = values_Encode (url_Query (rq_URL req));
         full = (if args = [] then backend else backend @ ''?'' @ args) in
     case url_Parse full of
       Inl e \<Rightarrow> Inl (Error e)
     | Inr u \<Rightarrow>
         Inr (req\<lparr>rq_URL := u, rq_Host := url_Host u,
                  rq_Header := header_set (header_del (header_set (rq_Header req) ''User-Agent''
                    (''APIGate '' @ gitTime)) ''Token'') ''Session'' sid,
                  rq_RequestURI := []\<rparr>))"

subsection \<open>The gateway\<close>

datatype wbody =
    NoBody
  | Bytes string
  | ErrorText error
  | JsonStatus int error
  | JsonPanic int panic

record Response =
  rs_Code :: int
  rs_Session :: string
  rs_Body :: wbody

record gateway =
  gw_dc :: dbCache
  gw_bs :: backendService
  gw_stats :: statsCache
  gw_uuid :: uuidState
  forwarded :: "Request list"

text \<open>What a request meets outside the gateway: the database, the backend, the clock and the build's
  \<open>GitTime\<close>; \<open>cost\<close> is the backend's time in milliseconds.\<close>

record env =
  ev_srv :: dbServer
  ev_backend :: "Request \<Rightarrow> string + string \<times> int"
  ev_nano :: int
  ev_cost :: int64
  ev_gitTime :: string

text \<open>\<open>util.SendResponse\<close> writes its status into a JSON body; the HTTP status stays 200.\<close>

definition SendResponse :: "string \<Rightarrow> int \<Rightarrow> fault \<Rightarrow> Response" where
  "SendResponse sid status f =
     \<lparr>rs_Code = 200, rs_Session = sid,
      rs_Body = (case f of Error e \<Rightarrow> JsonStatus status e | Panic p \<Rightarrow> JsonPanic status p)\<rparr>"

definition recovered :: "string \<Rightarrow> panic \<Rightarrow> Response" where
  "recovered sid p = SendResponse sid 400 (Panic p)"

text \<open>The part of \<open>ServeHTTP\<close> after \<open>buildRequest\<close>: the call and its accounting.\<close>

definition forward :: "env \<Rightarrow> string \<Rightarrow> Application \<Rightarrow> Interface \<Rightarrow> Request \<Rightarrow> gateway \<Rightarrow> Response \<times> gateway" where
  "forward ev sid app iface req g =
     (let g1 = g\<lparr>forwarded := forwarded g @ [req]\<rparr>;
          fail = (\<lambda>info. g1\<lparr>gw_stats := failed (now (gw_dc g)) sid (app_ID app) (ifc_ID iface) info (gw_stats g1)\<rparr>) in
      case ev_backend ev req of
        Inl e \<Rightarrow> (SendResponse sid 500 (Error (ErrText e)), fail e)
      | Inr (rb, code) \<Rightarrow>
          (\<lparr>rs_Code = code, rs_Session = sid, rs_Body = Bytes rb\<rparr>,
           if code \<noteq> 200 then fail (''invalid http status:'' @ show_int code)
           else g1\<lparr>gw_stats := success (app_ID app) (ifc_ID iface) (ev_cost ev) (gw_stats g1)\<rparr>))"

text \<open>From \<open>Validate\<close> on.\<close>

definition relay :: "env \<Rightarrow> string \<Rightarrow> Application \<Rightarrow> Interface \<Rightarrow> Request \<Rightarrow> gateway \<Rightarrow> Response \<times> gateway" where
  "relay ev sid app iface req g =
     (case Validate (ev_srv ev) iface req (gw_dc g) of
        (Inl (Panic p), dc) \<Rightarrow> (recovered sid p, g\<lparr>gw_dc := dc\<rparr>)
      | (Inl (Error e), dc) \<Rightarrow> (SendResponse sid 400 (Error e), g\<lparr>gw_dc := dc\<rparr>)
      | (Inr (_, r), dc) \<Rightarrow>
          (case buildRequest (ev_gitTime ev) (ev_nano ev) (gw_bs g) sid iface r of
             Inl (Panic p) \<Rightarrow> (recovered sid p, g\<lparr>gw_dc := dc\<rparr>)
           | Inl (Error e) \<Rightarrow> (SendResponse sid 500 (Error e), g\<lparr>gw_dc := dc\<rparr>)
           | Inr r' \<Rightarrow> forward ev sid app iface r' (g\<lparr>gw_dc := dc\<rparr>)))"

text \<open>\<open>ServeHTTP\<close>; a body that cannot be read ends the handler without a word, which is an empty
  answer with status 200.\<close>

definition ServeHTTP :: "env \<Rightarrow> Request \<Rightarrow> gateway \<Rightarrow> Response \<times> gateway" where
  "ServeHTTP ev req g =
     (case uuid_String (gw_uuid g) of (sid, u) \<Rightarrow>
      let g1 = g\<lparr>gw_uuid := u\<rparr> in
      case rq_Body req of
        BadBody _ \<Rightarrow> (\<lparr>rs_Code = 200, rs_Session = sid, rs_Body = NoBody\<rparr>, g1)
      | _ \<Rightarrow>
          (case GetInterface (ev_srv ev) req (gw_dc g1) of
             (Inl (Panic p), dc) \<Rightarrow> (recovered sid p, g1\<lparr>gw_dc := dc\<rparr>)
           | (Inl (Error e), dc) \<Rightarrow>
               ((if e = ErrForbidden then \<lparr>rs_Code = 403, rs_Session = sid, rs_Body = NoBody\<rparr>
                 else \<lparr>rs_Code = 500, rs_Session = sid, rs_Body = ErrorText e\<rparr>), g1\<lparr>gw_dc := dc\<rparr>)
           | (Inr (app, iface), dc) \<Rightarrow> relay ev sid app iface req (g1\<lparr>gw_dc := dc\<rparr>)))"

subsection \<open>Specification\<close>

text \<open>What the gateway has to have established about a call, from answers of the database no older
  than \<open>t\<close>.\<close>

definition authorised :: "dbLog \<Rightarrow> int \<Rightarrow> Request \<Rightarrow> Application \<Rightarrow> Interface \<Rightarrow> bool" where
  "authorised l t req app iface \<longleftrightarrow>
     parseToken (header_get (rq_Header req) ''Token'') = Inr (app_ID app) \<and>
     authentic l t app \<and> resolved l t (url_Path (rq_URL req)) iface \<and>
     (ifc_Method iface = RESTful \<or> rq_Method req = method_String (ifc_Method iface)) \<and>
     (svc_Validate (ifc_Service iface) \<longrightarrow>
        (\<exists>a i. rel_key (app_ID app) (ifc_ID iface) = rel_key a i \<and> related l t a i))"

section \<open>The caller and the interface\<close>

lemma evolves_answered_later: "evolves d d' \<Longrightarrow> \<exists>l. dblog d' = dblog d @ l"
  by (simp add: evolves_def)

lemma authentic_mono: "authentic l t a \<Longrightarrow> authentic (l @ l') t a"
  using answered_mono [of l t _ _ _ t l'] by (fastforce simp: authentic_def)

lemma related_mono: "related l t a i \<Longrightarrow> related (l @ l') t a i"
  unfolding related_def by (blast intro: answered_mono)

lemma resolved_mono: "resolved l t k i \<Longrightarrow> resolved (l @ l') t k i"
  unfolding resolved_def by (blast intro: answered_mono)

text \<open>The ways through \<open>GetInterface\<close>: it stops with an error or a panic, or the method fits and the
  service is open to every application, or the relation decides.\<close>

lemma GetInterface_cases:
  assumes "GetInterface srv req dc = (r, dc')" and slash: "has_prefix (url_Path (rq_URL req)) ''/''"
  obtains
    (stop) f where "r = Inl f" "evolves dc dc'"
  | (pass) app iface d1 d2 where
      "getApp srv (header_get (rq_Header req) ''Token'') dc = (Inr app, d1)"
      "getInterface srv (url_Path (rq_URL req)) d1 = (Inr iface, d2)"
      "ifc_Method iface = RESTful \<or> rq_Method req = method_String (ifc_Method iface)"
      "r = Inr (app, iface)"
      "if svc_Validate (ifc_Service iface)
       then validateRelation srv (app_ID app) (ifc_ID iface) d2 = (Inr (), dc') else dc' = d2"
proof (cases "header_get (rq_Header req) ''Token'' = []")
  case True
  then show ?thesis using assms(1) stop by (auto simp: GetInterface_def)
next
  case False
  let ?token = "header_get (rq_Header req) ''Token''" and ?path = "url_Path (rq_URL req)"
  obtain q1 d1 where g1: "getApp srv ?token dc = (q1, d1)" by force
  obtain q2 d2 where g2: "getInterface srv ?path d1 = (q2, d2)" by force
  have ev: "evolves dc d1" using getApp_spec(1) [OF g1] .
  have ev2: "evolves dc d2"
    using getInterface_spec [OF g2 slash] ev evolves_trans by blast
  show ?thesis
  proof (cases q1)
    case (Inl f)
    then show ?thesis using assms(1) False g1 ev by (intro stop) (auto simp: GetInterface_def cbind_def)
  next
    case app: (Inr app)
    show ?thesis
    proof (cases q2)
      case (Inl f)
      then show ?thesis using assms(1) False g1 g2 app ev2
        by (intro stop) (auto simp: GetInterface_def cbind_def)
    next
      case iface: (Inr iface)
      let ?fits = "ifc_Method iface = RESTful \<or> rq_Method req = method_String (ifc_Method iface)"
      obtain q3 d3 where g3: "validateRelation srv (app_ID app) (ifc_ID iface) d2 = (q3, d3)" by force
      have ev3: "evolves dc d3" using validateRelation_spec [OF g3] ev2 evolves_trans by blast
      have "(r, dc') = (if \<not> ?fits then
          (Inl (Error (ErrMethod (rq_Method req) (method_String (ifc_Method iface)))), d2)
        else if \<not> svc_Validate (ifc_Service iface) then (Inr (app, iface), d2)
        else (case q3 of Inr _ \<Rightarrow> (Inr (app, iface), d3)
          | Inl f \<Rightarrow> (Inl (if f = Error ErrNotFound then Error ErrForbidden else f), d3)))"
        using assms(1) False g1 g2 g3 app iface
        by (cases q3) (auto simp: GetInterface_def cbind_def)
      with pass [of app d1 iface d2] stop ev2 ev3 g1 g2 g3 app iface show ?thesis
        by (cases q3) (auto split: if_splits)
    qed
  qed
qed

lemma GetInterface_evolves:
  assumes "GetInterface srv req dc = (r, dc')" "has_prefix (url_Path (rq_URL req)) ''/''"
  shows "evolves dc dc'"
  using assms
proof (cases rule: GetInterface_cases)
  case (pass app iface d1 d2)
  have "evolves dc d1" "evolves d1 d2"
    using getApp_spec(1) [OF pass(1)] getInterface_spec [OF pass(2) assms(2)] by simp_all
  moreover have "evolves d2 dc'"
    using pass(5) validateRelation_spec by (auto split: if_splits)
  ultimately show ?thesis using evolves_trans by blast
qed

lemma GetInterface_authorised:
  assumes "GetInterface srv req dc = (Inr (app, iface), dc')" "dc_ok dc"
    and slash: "has_prefix (url_Path (rq_URL req)) ''/''"
  shows "authorised (dblog dc') (horizon dc) req app iface"
  using assms(1) slash
proof (cases rule: GetInterface_cases)
  case (pass a i d1 d2)
  have a: "a = app" "i = iface" using pass(4) by simp_all
  have e1: "evolves dc d1" using getApp_spec(1) [OF pass(1)] .
  have e2: "evolves d1 d2" using getInterface_spec [OF pass(2) slash] by simp
  have e3: "evolves d2 dc'" using pass(5) validateRelation_spec by (auto split: if_splits)
  have ok: "dc_ok d1" "dc_ok d2" "horizon d1 = horizon dc" "horizon d2 = horizon dc"
    using e1 e2 assms(2) evolves_horizon by (auto simp: evolves_def)
  obtain l2 l3 where l: "dblog d2 = dblog d1 @ l2" "dblog dc' = dblog d2 @ l3"
    using e2 e3 by (auto simp: evolves_def)
  have "parseToken (header_get (rq_Header req) ''Token'') = Inr (app_ID app)"
    "authentic (dblog d1) (horizon dc) app"
    using getApp_spec(2) [OF pass(1) assms(2)] a by auto
  moreover have "resolved (dblog d2) (horizon dc) (url_Path (rq_URL req)) iface"
    using getInterface_spec [OF pass(2) slash] ok a by auto
  moreover have "\<exists>x y. rel_key (app_ID app) (ifc_ID iface) = rel_key x y \<and> related (dblog dc') (horizon dc) x y"
    if "svc_Validate (ifc_Service iface)"
    using that pass(5) validateRelation_spec [of srv "app_ID app" "ifc_ID iface" d2 "Inr ()" dc'] ok a by auto
  ultimately show ?thesis
    using pass(3) a authentic_mono [of "dblog d1" "horizon dc" app "l2 @ l3"]
      resolved_mono [of "dblog d2" "horizon dc" _ iface l3]
    by (auto simp: authorised_def l)
qed simp

section \<open>The declared variables\<close>

definition same_message :: "Request \<Rightarrow> Request \<Rightarrow> bool" where
  "same_message r r' \<longleftrightarrow> rq_Method r' = rq_Method r \<and> rq_Body r' = rq_Body r \<and> rq_URL r' = rq_URL r"

lemma same_message_refl [simp]: "same_message r r"
  by (simp add: same_message_def)

lemma same_message_trans: "same_message a b \<Longrightarrow> same_message b c \<Longrightarrow> same_message a c"
  by (simp add: same_message_def)

lemma ParseForm_same [simp]: "same_message r (snd (ParseForm r))"
  by (simp add: ParseForm_def same_message_def Let_def split: option.split prod.split)

lemma FormValue_same [simp]: "same_message r (snd (FormValue r k))"
  using ParseForm_same [of r]
  by (simp add: FormValue_def ParseMultipartForm_def same_message_def Let_def split: option.split body.split)

lemma parse_sameD:
  "ParseForm r = (e, r') \<Longrightarrow> same_message r r'" "FormValue r k = (v, r') \<Longrightarrow> same_message r r'"
  using ParseForm_same [of r] FormValue_same [of r k] by (metis snd_conv)+

lemma delValue_same [simp]: "same_message r (delValue v r)"
  by (simp add: delValue_def same_message_def)

lemma var_value_same: "var_value v r = (val, r') \<Longrightarrow> same_message r r'"
  by (auto simp: var_value_def split: if_splits dest: parse_sameD)

lemma parseForm_same: "parseForm vs r = (x, r') \<Longrightarrow> same_message r r'"
  by (auto simp: parseForm_def split: if_splits body.splits prod.splits option.splits dest: parse_sameD)

lemma validate_vars_same: "validate_vars vs r = (x, r') \<Longrightarrow> same_message r r'"
proof (induction vs arbitrary: r)
  case (Cons v vs)
  obtain val r1 where v: "var_value v r = (val, r1)" by force
  with Cons.prems have "r' = r1 \<or> (\<exists>r2. same_message r1 r2 \<and> validate_vars vs r2 = (x, r'))"
    by (auto split: sum.splits if_splits)
  with var_value_same [OF v] Cons.IH same_message_trans show ?case by blast
qed simp

text \<open>What a query variable has to satisfy.\<close>

definition uri_ok :: "Request \<Rightarrow> Variable \<Rightarrow> bool" where
  "uri_ok req v \<longleftrightarrow>
     (let val = values_get (url_Query (rq_URL req)) (var_Name v) in
      (var_Required v \<or> val \<noteq> []) \<longrightarrow>
        (if var_Type v = ''int'' then snd (parse_int 10 val) else val \<noteq> []))"

lemma validate_vars_uri:
  assumes "validate_vars vs r = (Inr x, r')" "v \<in> set vs" "var_Postion v = URI"
  shows "uri_ok r v"
  using assms(1,2)
proof (induction vs arbitrary: r)
  case (Cons w vs)
  obtain val r1 where w: "var_value w r = (val, r1)" by force
  with Cons.prems obtain del where del: "validateValue w val = Inr del"
    "validate_vars vs (if del then delValue w r1 else r1) = (Inr x, r')"
    by (auto split: sum.splits)
  show ?case
  proof (cases "v = w")
    case True
    with w assms(3) have "val = values_get (url_Query (rq_URL r)) (var_Name v)"
      by (auto simp: var_value_def)
    with del(1) True show ?thesis
      by (auto simp: uri_ok_def validateValue_def Let_def split: if_splits)
  next
    case False
    with Cons del have "uri_ok (if del then delValue w r1 else r1) v" by simp
    moreover have "same_message r (if del then delValue w r1 else r1)"
      using var_value_same [OF w] same_message_trans by simp
    ultimately show ?thesis by (simp add: uri_ok_def same_message_def)
  qed
qed simp

lemma Validate_spec:
  assumes run: "Validate srv iface req dc = (r, dc')"
  shows "evolves dc dc'"
    and "r = Inr (u, req') \<Longrightarrow> same_message req req'"
    and "dc_ok dc \<Longrightarrow> r = Inr (u, req') \<Longrightarrow>
      \<exists>vs. declared (dblog dc') (horizon dc) (ifc_ID iface) vs \<and>
        (\<forall>v\<in>set vs. var_Postion v = URI \<longrightarrow> uri_ok req v)"
proof -
  obtain q d where q: "getVariable srv (ifc_ID iface) dc = (q, d)" by force
  note spec = getVariable_spec [OF q]
  have d: "dc' = d" and ok: "\<exists>vs req1. q = Inr vs \<and> parseForm vs req = (Inr (), req1) \<and>
      validate_vars vs req1 = (Inr (), req')" if "r = Inr (u, req')" for u req'
    using run q that by (auto simp: Validate_def cbind_def split: sum.splits prod.splits)
  have "dc' = d" using run q by (auto simp: Validate_def cbind_def split: sum.splits prod.splits)
  with spec show "evolves dc dc'" by simp
  show "same_message req req'" if "r = Inr (u, req')"
    using ok [OF that] parseForm_same validate_vars_same same_message_trans by blast
  assume "dc_ok dc" "r = Inr (u, req')"
  with ok [of u req'] obtain vs req1 where vs: "q = Inr vs" "parseForm vs req = (Inr (), req1)"
    "validate_vars vs req1 = (Inr (), req')" by blast
  have "uri_ok req v" if "v \<in> set vs" "var_Postion v = URI" for v
    using validate_vars_uri [OF vs(3) that] parseForm_same [OF vs(2)]
    by (simp add: uri_ok_def same_message_def)
  with spec \<open>dc_ok dc\<close> \<open>dc' = d\<close> vs(1)
  show "\<exists>vs. declared (dblog dc') (horizon dc) (ifc_ID iface) vs \<and>
      (\<forall>v\<in>set vs. var_Postion v = URI \<longrightarrow> uri_ok req v)" by auto
qed

section \<open>The request to the backend\<close>

lemma canonical_keys [simp]:
  "canonical_key ''Token'' = ''Token''" "canonical_key ''Session'' = ''Session''"
  "canonical_key ''User-Agent'' = ''User-Agent''"
  by code_simp+

text \<open>The text of the backend's URL, with the query.\<close>

definition backend_text :: "string \<Rightarrow> Request \<Rightarrow> string" where
  "backend_text b req =
     (let args = values_Encode (url_Query (rq_URL req)) in if args = [] then b else b @ ''?'' @ args)"

lemma buildRequest_Inr:
  assumes "buildRequest gitTime nano bs sid iface req = Inr r"
  obtains b u where
    "(if svc_Version (ifc_Service iface) = 1 then faas_backend nano bs iface
      else Inr (plain_backend iface req)) = Inr b"
    "url_Parse (backend_text b req) = Inr u"
    "r = req\<lparr>rq_URL := u, rq_Host := url_Host u,
         rq_Header := header_set (header_del (header_set (rq_Header req) ''User-Agent''
           (''APIGate '' @ gitTime)) ''Token'') ''Session'' sid, rq_RequestURI := []\<rparr>"
proof -
  let ?b = "if svc_Version (ifc_Service iface) = 1 then faas_backend nano bs iface
      else Inr (plain_backend iface req)"
  obtain b where b: "?b = Inr b" using assms by (cases ?b) (auto simp: buildRequest_def)
  with assms obtain u where "url_Parse (backend_text b req) = Inr u"
    by (cases "url_Parse (backend_text b req)") (auto simp: buildRequest_def backend_text_def Let_def)
  with that b assms show thesis by (auto simp: buildRequest_def backend_text_def Let_def)
qed

lemma buildRequest_spec:
  assumes "buildRequest gitTime nano bs sid iface req = Inr r"
  shows "header_get (rq_Header r) ''Token'' = []" "header_get (rq_Header r) ''Session'' = sid"
    "header_get (rq_Header r) ''User-Agent'' = ''APIGate '' @ gitTime"
    "rq_Method r = rq_Method req" "rq_Body r = rq_Body req" "rq_Host r = url_Host (rq_URL r)"
  using assms
  by (auto elim!: buildRequest_Inr simp: header_get_def header_set_def header_del_def values_get_def)

lemma distinct_values_add: "distinct (map fst m) \<Longrightarrow> distinct (map fst (values_add m k v))"
  by (simp add: values_add_def distinct_update)

lemma distinct_parse_pairs:
  "distinct (map fst m) \<Longrightarrow> distinct (map fst (fst (parse_pairs ps m err)))"
  by (induction ps m err rule: parse_pairs.induct)
    (auto simp: distinct_values_add split: prod.split sum.split)

lemma distinct_url_Query [simp]: "distinct (map fst (url_Query u))"
  by (simp add: url_Query_def ParseQuery_def distinct_parse_pairs)

lemma values_Encode_plain: "CHR ''#'' \<notin> set (values_Encode m)"
proof -
  have "\<forall>w \<in> set ws. CHR ''#'' \<notin> set w \<Longrightarrow> CHR ''#'' \<notin> set (join ''&'' ws)" for ws
    by (induction ws rule: induct_list012) auto
  moreover have "CHR ''#'' \<notin> set (encode_pair p)" for p
    using QueryEscape_plain [of "CHR ''#''"] by (auto simp: encode_pair_def)
  ultimately show ?thesis by (auto simp: values_Encode_pairs)
qed

text \<open>The scheme ends before the query.\<close>

lemma getscheme_from_query:
  assumes "CHR ''?'' \<notin> set s" "getscheme_from i all (s @ CHR ''?'' # q) = Inr (sch, rest)"
    "all = pre @ s @ CHR ''?'' # q" "CHR ''?'' \<notin> set pre"
  shows "\<exists>r. rest = r @ CHR ''?'' # q \<and> CHR ''?'' \<notin> set r"
  using assms
proof (induction s arbitrary: i pre)
  case Nil
  then show ?case by auto
next
  case (Cons c s)
  have all: "all = (pre @ [c]) @ s @ CHR ''?'' # q" "CHR ''?'' \<notin> set (pre @ [c])"
    using Cons.prems by auto
  have here: "\<exists>r. all = r @ CHR ''?'' # q \<and> CHR ''?'' \<notin> set r"
    using Cons.prems by (intro exI [of _ "pre @ c # s"]) auto
  from Cons.prems(1,2) Cons.IH [OF _ _ all] here show ?case
    by (auto split: if_splits)
qed

lemma url_parse_query:
  assumes "CHR ''?'' \<notin> set b" "url_parse (b @ CHR ''?'' # q) = Inr u"
  shows "url_RawQuery u = q"
proof -
  have "b @ CHR ''?'' # q \<noteq> ''*''" by (cases b) auto
  with assms(2) obtain sch rest where g: "getscheme (b @ CHR ''?'' # q) = Inr (sch, rest)"
    by (auto simp: url_parse_def split: sum.splits)
  obtain r where r: "rest = r @ CHR ''?'' # q" "CHR ''?'' \<notin> set r"
    using getscheme_from_query [of b 0 _ q sch rest "[]"] g assms(1) by (auto simp: getscheme_def)
  with g assms(2) \<open>b @ CHR ''?'' # q \<noteq> ''*''\<close> show ?thesis
    by (auto simp: url_parse_def url_rest_def Let_def zero_URL_def split: sum.splits if_splits prod.splits)
qed

lemma getscheme_from_suffix:
  "getscheme_from i all s = Inr (sch, rest) \<Longrightarrow> set s \<subseteq> set all \<Longrightarrow> set rest \<subseteq> set all"
  by (induction s arbitrary: i) (auto split: if_splits)

lemma url_parse_no_query:
  assumes "CHR ''?'' \<notin> set b" "url_parse b = Inr u"
  shows "url_RawQuery u = []"
proof (cases "b = ''*''")
  case True
  with assms(2) show ?thesis by (auto simp: url_parse_def zero_URL_def)
next
  case False
  then obtain sch rest where g: "getscheme b = Inr (sch, rest)"
    using assms(2) by (auto simp: url_parse_def split: sum.splits)
  then have "CHR ''?'' \<notin> set rest"
    using getscheme_from_suffix [of 0 b b sch rest] assms(1) by (auto simp: getscheme_def)
  with g assms(2) False show ?thesis
    by (auto simp: url_parse_def url_rest_def Let_def zero_URL_def split: sum.splits if_splits prod.splits)
qed

lemma url_Parse_query:
  assumes "CHR ''?'' \<notin> set b" "CHR ''#'' \<notin> set b" "CHR ''#'' \<notin> set q" "q \<noteq> []"
    "url_Parse (b @ ''?'' @ q) = Inr u"
  shows "url_RawQuery u = q"
proof -
  have "cut CHR ''#'' (b @ ''?'' @ q) = (b @ ''?'' @ q, [])" using assms(2,3) by simp
  with assms(5) obtain v where "url_parse (b @ CHR ''?'' # q) = Inr v" "url_RawQuery u = url_RawQuery v"
    by (auto simp: url_Parse_def split: sum.splits)
  with url_parse_query [OF assms(1)] show ?thesis by simp
qed

lemma url_Parse_no_query:
  assumes "CHR ''?'' \<notin> set b" "CHR ''#'' \<notin> set b" "url_Parse b = Inr u"
  shows "url_RawQuery u = []"
proof -
  obtain v where "url_parse b = Inr v" "url_RawQuery u = url_RawQuery v"
    using assms(2,3) by (auto simp: url_Parse_def split: sum.splits)
  with url_parse_no_query [OF assms(1)] show ?thesis by simp
qed

section \<open>Accounting\<close>

definition calls :: "statsCache \<Rightarrow> int64" where
  "calls s = sum_list (map e_Count (fst (entrys s))) + of_nat (length (ees s))"

definition app_calls :: "(int \<times> entry) list \<Rightarrow> int64" where
  "app_calls as = sum_list (map (\<lambda>x. e_Count (snd x)) as)"

lemma sum_list_concat_list: "sum_list (concat xss) = sum_list (map sum_list (xss :: int64 list list))"
  by (induction xss) simp_all

lemma calls_iface:
  "calls s = sum_list (map (\<lambda>x. app_calls (ie_apps (snd x))) (ies s)) + of_nat (length (ees s))"
  by (simp add: calls_def entrys_def map_concat sum_list_concat_list app_calls_def comp_def case_prod_beta)

lemma sum_list_update:
  fixes f :: "'b \<Rightarrow> int64"
  shows "sum_list (map (\<lambda>x. f (snd x)) (AList.update k v xs)) =
    sum_list (map (\<lambda>x. f (snd x)) xs) + f v - (case map_of xs k of None \<Rightarrow> 0 | Some u \<Rightarrow> f u)"
  by (induction xs) (auto split: option.split)

lemma calls_failed: "calls (failed t sid app iface info s) = calls s + 1"
  by (simp add: calls_def failed_def entrys_def)

lemma calls_success: "calls (success app iface tm s) = calls s + 1"
proof -
  let ?ie = "case map_of (ies s) iface of Some ie \<Rightarrow> ie | None \<Rightarrow> \<lparr>ie_apps = []\<rparr>"
  let ?e = "case map_of (ie_apps ?ie) app of Some e \<Rightarrow> e
      | None \<Rightarrow> \<lparr>e_App = app, e_Iface = iface, e_Count = 0, e_Time = 0\<rparr>"
  let ?e1 = "?e\<lparr>e_Count := e_Count ?e + 1, e_Time := e_Time ?e + tm\<rparr>"
  have "app_calls (AList.update app ?e1 (ie_apps ?ie)) = app_calls (ie_apps ?ie) + 1"
    unfolding app_calls_def sum_list_update by (simp split: option.split)
  moreover have "(case map_of (ies s) iface of None \<Rightarrow> 0 | Some u \<Rightarrow> app_calls (ie_apps u)) =
      app_calls (ie_apps ?ie)"
    by (simp add: app_calls_def split: option.split)
  ultimately show ?thesis
    unfolding calls_iface success_def Let_def
    by (simp add: sum_list_update [of "\<lambda>ie. app_calls (ie_apps ie)"])
qed

lemma forward_spec:
  assumes "forward ev sid app iface req g = (resp, g')"
  shows "forwarded g' = forwarded g @ [req]" "rs_Session resp = sid" "gw_dc g' = gw_dc g"
    "calls (gw_stats g') = calls (gw_stats g) + 1"
  using assms
  by (auto simp: forward_def Let_def SendResponse_def calls_failed calls_success
      split: sum.splits if_splits)

text \<open>A request either leaves the log of forwarded requests and the statistics alone, or passes every
  check and is forwarded and counted once.\<close>

lemma relay_cases:
  assumes "relay ev sid app iface req g = (resp, g')"
  obtains
    (refused) "forwarded g' = forwarded g" "gw_stats g' = gw_stats g" "evolves (gw_dc g) (gw_dc g')"
  | (sent) req1 r where
      "Validate (ev_srv ev) iface req (gw_dc g) = (Inr ((), req1), gw_dc g')"
      "buildRequest (ev_gitTime ev) (ev_nano ev) (gw_bs g) sid iface req1 = Inr r"
      "forwarded g' = forwarded g @ [r]" "calls (gw_stats g') = calls (gw_stats g) + 1"
      "rs_Session resp = sid"
proof -
  obtain q d where q: "Validate (ev_srv ev) iface req (gw_dc g) = (q, d)" by force
  note ev = Validate_spec(1) [OF q]
  show thesis
  proof (cases q)
    case (Inl f)
    with assms q ev show ?thesis by (intro refused) (auto simp: relay_def split: fault.splits)
  next
    case (Inr x)
    obtain req1 where x: "x = ((), req1)" by (cases x) simp
    show ?thesis
    proof (cases "buildRequest (ev_gitTime ev) (ev_nano ev) (gw_bs g) sid iface req1")
      case (Inl f)
      with assms q x Inr ev show ?thesis
        by (intro refused) (auto simp: relay_def split: fault.splits)
    next
      case r: (Inr r)
      with assms q x Inr have f: "forward ev sid app iface r (g\<lparr>gw_dc := d\<rparr>) = (resp, g')"
        by (simp add: relay_def)
      from forward_spec [OF f] q x Inr r show ?thesis by (intro sent) simp_all
    qed
  qed
qed

lemma ServeHTTP_cases:
  assumes run: "ServeHTTP ev req g = (resp, g')" and slash: "has_prefix (url_Path (rq_URL req)) ''/''"
  obtains
    (refused) "forwarded g' = forwarded g" "gw_stats g' = gw_stats g" "evolves (gw_dc g) (gw_dc g')"
  | (sent) app iface dc req1 r where
      "GetInterface (ev_srv ev) req (gw_dc g) = (Inr (app, iface), dc)"
      "Validate (ev_srv ev) iface req dc = (Inr ((), req1), gw_dc g')"
      "buildRequest (ev_gitTime ev) (ev_nano ev) (gw_bs g) (rs_Session resp) iface req1 = Inr r"
      "forwarded g' = forwarded g @ [r]" "calls (gw_stats g') = calls (gw_stats g) + 1"
proof -
  obtain sid u where u: "uuid_String (gw_uuid g) = (sid, u)" by force
  obtain q d where q: "GetInterface (ev_srv ev) req (gw_dc g) = (q, d)" by force
  note ev = GetInterface_evolves [OF q slash]
  show thesis
  proof (cases "(\<exists>e. rq_Body req = BadBody e) \<or> (\<exists>f. q = Inl f)")
    case True
    with run u q ev show ?thesis
      by (intro refused) (auto simp: ServeHTTP_def Let_def split: body.splits fault.splits)
  next
    case False
    then obtain app iface where "q = Inr (app, iface)" by (cases q) auto
    with False run u q have r: "relay ev sid app iface req (g\<lparr>gw_uuid := u, gw_dc := d\<rparr>) = (resp, g')"
      by (auto simp: ServeHTTP_def Let_def split: body.splits)
    from r show ?thesis
    proof (cases rule: relay_cases)
      case refused
      with ev evolves_trans show ?thesis by (intro that(1)) auto
    next
      case (sent req1 r)
      with q \<open>q = Inr (app, iface)\<close> show ?thesis by (intro that(2)) auto
    qed
  qed
qed

section \<open>A run of the gateway\<close>

text \<open>One application, one service with one interface, and a request that passes every check.  The
  session identifier is left as it is computed.\<close>

definition demo_srv :: dbServer where
  "demo_srv = \<lparr>srv_connect = (\<lambda>_. None), srv_prepare = (\<lambda>_ _. None),
     srv_query = (\<lambda>n s arg. case s of
        SelService \<Rightarrow> Inr [[SInt 3, SInt 1, SInt 0]]
      | SelIface \<Rightarrow> Inr [[SInt 11, SInt 0, SStr ''http://10.0.0.2/echo'', SStr ''o@x.cn'']]
      | SelVar \<Rightarrow> Inr [[SInt 0, SStr ''n'', SStr ''int'', SInt 1]]
      | SelApp \<Rightarrow> Inr [[SStr ''app'', SStr ''a@x.cn'']]
      | _ \<Rightarrow> Inr [[SInt 1]]),
     srv_exec = (\<lambda>_ _ _. Inr 1)\<rparr>"

definition demo_req :: "string \<Rightarrow> Request" where
  "demo_req t = sample_request ''GET'' ''/svc/echo/7'' [(''Token'', [t])] ''n=5''"

definition demo_gw :: gateway where
  "demo_gw = \<lparr>gw_dc = idle_dc, gw_bs = newBackendService, gw_stats = newStatsCache,
     gw_uuid = uuid_init [] 1, forwarded = []\<rparr>"

definition demo_env :: env where
  "demo_env = \<lparr>ev_srv = demo_srv, ev_backend = (\<lambda>_. Inr (''ok'', 200)), ev_nano = 0, ev_cost = 3,
     ev_gitTime = ''now''\<rparr>"

lemma queryDB_first:
  "dbc dc \<Longrightarrow> stmts dc s \<Longrightarrow> length arg = numInput s \<Longrightarrow> srv_query srv (sent dc) s arg = Inr (r # rs) \<Longrightarrow>
   queryDB srv s arg scan dc = (scan r, log_event (Answer s arg (r # rs)) (count_call dc))"
  by (simp add: queryDB_def maxRetry_def numeral_eq_Suc stmt_query_def cbind_def)

lemma dbQuery_first:
  "dbc dc \<Longrightarrow> stmts dc s \<Longrightarrow> length arg = numInput s \<Longrightarrow> srv_query srv (sent dc) s arg = Inr rows \<Longrightarrow>
   dbQuery srv maxRetry s arg None dc = (Inr (Some rows, None), log_event (Answer s arg rows) (count_call dc))"
  by (simp add: maxRetry_def numeral_eq_Suc stmt_query_def)

lemma demo_answers:
  "srv_query demo_srv n SelService arg = Inr [[SInt 3, SInt 1, SInt 0]]"
  "srv_query demo_srv n SelIface arg = Inr [[SInt 11, SInt 0, SStr ''http://10.0.0.2/echo'', SStr ''o@x.cn'']]"
  "srv_query demo_srv n SelVar arg = Inr [[SInt 0, SStr ''n'', SStr ''int'', SInt 1]]"
  "srv_query demo_srv n SelApp arg = Inr [[SStr ''app'', SStr ''a@x.cn'']]"
  "srv_query demo_srv n SelRelation arg = Inr [[SInt 1]]"
  by (simp_all add: demo_srv_def)

lemma evict_loop_young:
  "ll c = [] \<Longrightarrow> evict_loop lim c = c"
  "ll c = xs @ [a] \<Longrightarrow> store c a = Some e \<Longrightarrow> lim < e_last e \<Longrightarrow> evict_loop lim c = c"
  by (simp_all add: evict_loop.simps)

lemma cbind_weak_cong: "m = m' \<Longrightarrow> cbind m f = cbind m' f" by simp

lemmas demo_run =
  cbind_Inr cbind_Inl Let_def clift_def cache_get_def Get_def evict_def evict_loop_young idle_dc_def
  NewCache_def queryDB_first dbQuery_first demo_answers cache_add_def Add_def log_event_def count_call_def
  scan_app_def scan_service_def scan_iface_def scan_id_def scan_var_def in_int64_def int64_min_def
  int64_max_def getApp_def getApplication_def getInterface_def lookup_interface_def
  validateRelation_def iface_path_def go_slice_def getVariable_def lookup_variable_def
  method_defs method_String_def position_defs app_key_def rel_key_def var_key_def
  zero_Service_def zero_Interface_def zero_Variable_def

lemmas demo_request = demo_req_def sample_request_def header_get_def values_get_def values_of_def
  zero_URL_def

lemma demo_pieces:
  "split_on CHR ''/'' ''/svc/echo/7'' = [[], ''svc'', ''echo'', ''7'']"
  "url_Query (zero_URL\<lparr>url_Path := ''/svc/echo/7'', url_RawQuery := ''n=5''\<rparr>) = [(''n'', [''5''])]"
  "values_Encode [(''n'', [''5''])] = ''n=5''"
  "str_index ''/svc/echo/7'' ''echo'' = Some 5"
  "url_Parse ''http://10.0.0.2/echo/7?n=5'' = Inr (zero_URL\<lparr>url_Scheme := ''http'',
     url_Host := ''10.0.0.2'', url_Path := ''/echo/7'', url_RawQuery := ''n=5''\<rparr>)"
  "snd (parse_int 10 ''5'') = True"
  by code_simp+

lemma demo_validates:
  assumes "dbc dc" "stmts dc = (\<lambda>_. True)" "fst (Get (now dc) (var_key 11) (cache dc)) = None" "ifc_ID iface = 11"
  shows "\<exists>dc'. Validate demo_srv iface (demo_req t) dc = (Inr ((), demo_req t), dc')"
proof -
  obtain c where "Get (now dc) (var_key 11) (cache dc) = (None, c)" using assms(3) by (metis prod.collapse)
  then obtain dc' where "getVariable demo_srv 11 dc =
      (Inr [zero_Variable\<lparr>var_Name := ''n'', var_Type := ''int'', var_Required := True\<rparr>], dc')"
    using assms(1,2)
    by (simp add: getVariable_def lookup_variable_def cbind_def clift_def cache_get_def cache_add_def dbQuery_first
        demo_answers log_event_def count_call_def scan_var_def in_int64_def int64_min_def
        int64_max_def zero_Variable_def)
  with assms(4) show ?thesis
    by (simp add: Validate_def cbind_def parseForm_def var_value_def validateValue_def demo_req_def
        sample_request_def demo_pieces values_get_def values_of_def position_defs zero_Variable_def)
qed

lemma demo_forwards:
  assumes "parseToken t = Inr 7" "t \<noteq> []"
  shows "\<exists>resp g r. ServeHTTP demo_env (demo_req t) demo_gw = (resp, g) \<and> forwarded g = [r]"
proof -
  obtain app iface dc where get: "GetInterface demo_srv (demo_req t) idle_dc = (Inr (app, iface), dc)"
    and dc: "dbc dc" "stmts dc = (\<lambda>_. True)" "fst (Get (now dc) (var_key 11) (cache dc)) = None"
    and iface: "ifc_ID iface = 11" "ifc_Path iface = ''echo''" "ifc_Backend iface = ''http://10.0.0.2/echo''"
      "svc_Version (ifc_Service iface) = 0"
    using assms
    by (simp add: GetInterface_def demo_request demo_pieces demo_run cong: cbind_weak_cong)
  obtain dc' where val: "Validate demo_srv iface (demo_req t) dc = (Inr ((), demo_req t), dc')"
    using demo_validates [OF dc iface(1)] by blast
  obtain sid u where sid: "uuid_String (gw_uuid demo_gw) = (sid, u)" by force
  have plain: "plain_backend iface (demo_req t) = ''http://10.0.0.2/echo/7''"
    using iface by (simp add: plain_backend_def demo_req_def sample_request_def Let_def has_suffix_def has_prefix_def)
  have args: "values_Encode (url_Query (rq_URL (demo_req t))) = ''n=5''"
    by (simp add: demo_req_def sample_request_def demo_pieces)
  obtain r where build: "buildRequest ''now'' 0 newBackendService sid iface (demo_req t) = Inr r"
    using iface(4) by (simp add: buildRequest_def plain args demo_pieces Let_def)
  from get val sid build show ?thesis
    by (simp add: ServeHTTP_def relay_def forward_def demo_env_def demo_gw_def demo_req_def
        sample_request_def Let_def)
qed

lemma demo_token:
  obtains t where "app_token 7 = Inr t" "parseToken t = Inr 7" "t \<noteq> []"
proof -
  obtain t where t: "app_token 7 = Inr t" "parseToken t = Inr 7" using app_token_opens [of 7] by auto
  moreover have "parseToken [] \<noteq> Inr 7"
    using AesDecrypt_cases [of AesKey "[]" "[]"] by (simp add: parseToken_def DecodeString_def)
  ultimately show thesis using that by metis
qed

section \<open>Properties\<close>

text \<open>C1: only authorised calls reach a backend.  Whatever the database answers and however it
  fails, a request that the gateway forwards carried a token for an application that the database
  confirmed, to an interface the database resolved from the path, with the interface's method, and,
  if the service asks for it, under a grant of the database; all of these answers are younger than
  the cache's timeout.  The forwarded request has the caller's method and body, the session id that
  the caller is told, and not the token.\<close>

theorem ServeHTTP_forwards_authorised:
  assumes "dc_ok (gw_dc g)" "has_prefix (url_Path (rq_URL req)) ''/''"
    and "ServeHTTP ev req g = (resp, g')" "forwarded g' \<noteq> forwarded g"
  shows "\<exists>app iface r. forwarded g' = forwarded g @ [r] \<and>
    authorised (dblog (gw_dc g')) (horizon (gw_dc g)) req app iface \<and>
    header_get (rq_Header r) ''Token'' = [] \<and> header_get (rq_Header r) ''Session'' = rs_Session resp \<and>
    rq_Method r = rq_Method req \<and> rq_Body r = rq_Body req"
  using assms(3,2)
proof (cases rule: ServeHTTP_cases)
  case refused
  with assms(4) show ?thesis by simp
next
  case (sent app iface dc req1 r)
  have "authorised (dblog dc) (horizon (gw_dc g)) req app iface"
    using GetInterface_authorised [OF sent(1) assms(1,2)] .
  moreover obtain l where l: "dblog (gw_dc g') = dblog dc @ l"
    using Validate_spec(1) [OF sent(2)] by (auto simp: evolves_def)
  ultimately have "authorised (dblog (gw_dc g')) (horizon (gw_dc g)) req app iface"
    using authentic_mono resolved_mono related_mono unfolding authorised_def l by metis
  moreover have "same_message req req1" using Validate_spec(2) [OF sent(2)] by blast
  ultimately show ?thesis
    using sent(4) buildRequest_spec [OF sent(3)] by (auto simp: same_message_def)
qed

theorem ServeHTTP_forwards_authorised_witness:
  "\<exists>t resp g' app iface. app_token 7 = Inr t \<and> ServeHTTP demo_env (demo_req t) demo_gw = (resp, g') \<and>
     authorised (dblog (gw_dc g')) (horizon (gw_dc demo_gw)) (demo_req t) app iface"
proof -
  obtain t where t: "app_token 7 = Inr t" "parseToken t = Inr 7" "t \<noteq> []" using demo_token .
  obtain resp g' r where run: "ServeHTTP demo_env (demo_req t) demo_gw = (resp, g')" "forwarded g' = [r]"
    using demo_forwards [OF t(2,3)] by blast
  have "dc_ok (gw_dc demo_gw)"
    by (simp add: demo_gw_def dc_ok_def idle_dc_def tc.supported_def)
  moreover have "has_prefix (url_Path (rq_URL (demo_req t))) ''/''"
    by (simp add: demo_req_def sample_request_def has_prefix_def)
  moreover have "forwarded g' \<noteq> forwarded demo_gw" using run(2) by (simp add: demo_gw_def)
  ultimately show ?thesis
    using ServeHTTP_forwards_authorised [OF _ _ run(1)] t(1) run(1) by blast
qed

text \<open>C9: a forwarded call has the declared query variables: every variable of the interface that is
  required, or given, in the URL is present, and is a number where the declaration says so.\<close>

theorem ServeHTTP_forwards_validated:
  assumes "dc_ok (gw_dc g)" "has_prefix (url_Path (rq_URL req)) ''/''"
    and "ServeHTTP ev req g = (resp, g')" "forwarded g' \<noteq> forwarded g"
  shows "\<exists>iface vs. resolved (dblog (gw_dc g')) (horizon (gw_dc g)) (url_Path (rq_URL req)) iface \<and>
    declared (dblog (gw_dc g')) (horizon (gw_dc g)) (ifc_ID iface) vs \<and>
    (\<forall>v\<in>set vs. var_Postion v = URI \<longrightarrow> uri_ok req v)"
  using assms(3,2)
proof (cases rule: ServeHTTP_cases)
  case refused
  with assms(4) show ?thesis by simp
next
  case (sent app iface dc req1 r)
  have ev: "evolves (gw_dc g) dc" using GetInterface_evolves [OF sent(1) assms(2)] .
  then have ok: "dc_ok dc" "horizon dc = horizon (gw_dc g)"
    using assms(1) evolves_horizon by (auto simp: evolves_def)
  obtain l where l: "dblog (gw_dc g') = dblog dc @ l"
    using Validate_spec(1) [OF sent(2)] by (auto simp: evolves_def)
  have "resolved (dblog dc) (horizon (gw_dc g)) (url_Path (rq_URL req)) iface"
    using GetInterface_authorised [OF sent(1) assms(1,2)] by (simp add: authorised_def)
  then have "resolved (dblog (gw_dc g')) (horizon (gw_dc g)) (url_Path (rq_URL req)) iface"
    unfolding l by (rule resolved_mono)
  with Validate_spec(3) [OF sent(2) ok(1)] ok(2) show ?thesis by fastforce
qed

theorem ServeHTTP_forwards_validated_witness:
  "\<exists>t resp g' (iface :: Interface) vs. app_token 7 = Inr t \<and> ServeHTTP demo_env (demo_req t) demo_gw = (resp, g') \<and>
     declared (dblog (gw_dc g')) (horizon (gw_dc demo_gw)) (ifc_ID iface) vs"
proof -
  obtain t where t: "app_token 7 = Inr t" "parseToken t = Inr 7" "t \<noteq> []" using demo_token .
  obtain resp g' r where run: "ServeHTTP demo_env (demo_req t) demo_gw = (resp, g')" "forwarded g' = [r]"
    using demo_forwards [OF t(2,3)] by blast
  have "dc_ok (gw_dc demo_gw)"
    by (simp add: demo_gw_def dc_ok_def idle_dc_def tc.supported_def)
  moreover have "has_prefix (url_Path (rq_URL (demo_req t))) ''/''"
    by (simp add: demo_req_def sample_request_def has_prefix_def)
  moreover have "forwarded g' \<noteq> forwarded demo_gw" using run(2) by (simp add: demo_gw_def)
  ultimately obtain iface :: Interface and vs where
    "declared (dblog (gw_dc g')) (horizon (gw_dc demo_gw)) (ifc_ID iface) vs"
    using ServeHTTP_forwards_validated [of demo_gw "demo_req t" demo_env resp g'] run(1) by blast
  with t(1) run(1) show ?thesis by blast
qed

text \<open>A sequence of requests through one gateway, each with what it meets outside.\<close>

fun serve_all :: "(env \<times> Request) list \<Rightarrow> gateway \<Rightarrow> gateway" where
  "serve_all [] g = g"
| "serve_all ((ev, req) # rs) g = serve_all rs (snd (ServeHTTP ev req g))"

text \<open>C10: every call that reaches a backend is accounted for exactly once, as a success or as a
  failure, and no other request is: over any sequence of requests the counters and error records
  grow by the number of forwarded calls (modulo the 64-bit counters).\<close>

theorem serve_all_accounts:
  assumes "\<forall>(ev, req) \<in> set rs. has_prefix (url_Path (rq_URL req)) ''/''"
  shows "calls (gw_stats (serve_all rs g)) + of_nat (length (forwarded g)) =
    calls (gw_stats g) + of_nat (length (forwarded (serve_all rs g)))"
  using assms
proof (induction rs arbitrary: g)
  case (Cons x rs)
  obtain ev req where x: "x = (ev, req)" by force
  obtain resp g1 where s: "ServeHTTP ev req g = (resp, g1)" by force
  let ?n = "\<lambda>g. of_nat (length (forwarded g)) :: int64" and ?c = "\<lambda>g. calls (gw_stats g)" and ?g2 = "serve_all rs g1"
  have 1: "?c g1 + ?n g = ?c g + ?n g1"
    using s Cons.prems x by (auto elim!: ServeHTTP_cases)
  have 2: "?c ?g2 + ?n g1 = ?c g1 + ?n ?g2" using Cons by auto
  have "?c ?g2 + ?n g = (?c g1 + ?n g) + (?c ?g2 + ?n g1) - (?c g1 + ?n g1)" by simp
  also have "\<dots> = ?c g + ?n ?g2" unfolding 1 2 by simp
  finally show ?case using x s by simp
qed simp

theorem serve_all_accounts_witness:
  "calls (gw_stats (serve_all [(demo_env, demo_req [])] demo_gw)) =
     of_nat (length (forwarded (serve_all [(demo_env, demo_req [])] demo_gw)))"
  using serve_all_accounts [of "[(demo_env, demo_req [])]" demo_gw]
  by (simp add: demo_req_def sample_request_def has_prefix_def demo_gw_def calls_def entrys_def
      newStatsCache_def)



text \<open>C19: a function service is called at one of its registered instances: the chosen index is always
  in range, the list is never empty, and without an instance the call is refused with "not found".\<close>

theorem faas_backend_selects:
  assumes "backend_ok bs" "0 \<le> nano"
  shows "faas_backend nano bs iface =
    (case apps bs (ifc_Backend iface) of
       None \<Rightarrow> Inl (Error ErrNotFound)
     | Some as \<Rightarrow>
         let a = as ! nat (nano mod int (length as)) in
         Inr (''http://'' @ Host a @ '':'' @ show_int (Port a) @ ifc_Path iface)) \<and>
    (\<forall>as. apps bs (ifc_Backend iface) = Some as \<longrightarrow> nat (nano mod int (length as)) < length as)"
proof (cases "apps bs (ifc_Backend iface)")
  case None
  then show ?thesis by (simp add: faas_backend_def getMicroAPPs_def)
next
  case (Some as)
  with assms(1) have "as \<noteq> []" by (auto simp: backend_ok_def)
  then have n: "0 < int (length as)" by simp
  with assms(2) have "nano mod int (length as) < int (length as)" "0 \<le> nano mod int (length as)" by simp_all
  with Some n assms(2) \<open>as \<noteq> []\<close> show ?thesis
    by (auto simp: faas_backend_def getMicroAPPs_def go_rem_def Let_def nat_less_iff)
qed

theorem faas_backend_selects_witness:
  "faas_backend 17 newBackendService (zero_Interface\<lparr>ifc_Backend := ''echo''\<rparr>) = Inl (Error ErrNotFound)"
  using faas_backend_selects [of newBackendService 17 "zero_Interface\<lparr>ifc_Backend := ''echo''\<rparr>"]
  by (simp add: newBackendService_def backend_ok_def)


end
