(* ===== verification/RbacDb.thy ===== *)
theory RbacDb
  imports Sql Token
begin

text \<open>
  The tables of the rbac server and its generic database functions: \<open>src/rbac/meta/model.go\<close> and
  \<open>src/rbac/db.go\<close>.  The functions build the text of a statement from a struct type by reflection;
  the text is the model's text, byte for byte.
\<close>

section \<open>Definitions\<close>

subsection \<open>Tables\<close>

record Role =
  ro_ID :: int
  ro_AppID :: int
  ro_Name :: string
  ro_UserID :: int
  ro_Comments :: string
  ro_Ctime :: string
  ro_Mtime :: string

record App =
  ap_ID :: int
  ap_Name :: string
  ap_Email :: string
  ap_Token :: string
  ap_Comments :: string
  ap_Ctime :: string
  ap_Mtime :: string

record Resource =
  re_ID :: int
  re_AppID :: int
  re_Name :: string
  re_Comments :: string
  re_Ctime :: string
  re_Mtime :: string

record User =
  us_ID :: int
  us_AppID :: int
  us_Name :: string
  us_Email :: string
  us_Ctime :: string
  us_Mtime :: string

record RoleResource =
  rr_ID :: int
  rr_AppID :: int
  rr_ResourceID :: int
  rr_ResourceName :: string
  rr_RoleID :: int
  rr_RoleName :: string
  rr_RoleComments :: string
  rr_Ctime :: string
  rr_Mtime :: string

record RoleUser =
  ru_ID :: int
  ru_AppID :: int
  ru_AdminID :: int
  ru_UserID :: int
  ru_UserName :: string
  ru_UserEmail :: string
  ru_RoleID :: int
  ru_RoleName :: string
  ru_RoleComments :: string
  ru_Ctime :: string
  ru_Mtime :: string

definition Role_type :: "Role gotype" where
  "Role_type =
     \<lparr>ty_fields =
        [tcol ''ID'' KInt ''id'' ''auto'', tcol ''AppID'' KInt ''app_id'' [],
         tcol ''Name'' KString ''name'' [], tcol ''UserID'' KInt ''user_id'' [],
         tcol ''Comments'' KString ''comments'' [],
         tcol ''Ctime'' KString ''ctime'' ''now()'', tcol ''Mtime'' KString ''mtime'' ''now()''],
      ty_make = (\<lambda>v. \<lparr>ro_ID = gint (v ! 0), ro_AppID = gint (v ! 1), ro_Name = gstr (v ! 2),
        ro_UserID = gint (v ! 3), ro_Comments = gstr (v ! 4), ro_Ctime = gstr (v ! 5),
        ro_Mtime = gstr (v ! 6)\<rparr>),
      ty_vals = (\<lambda>r. [GInt (ro_ID r), GInt (ro_AppID r), GStr (ro_Name r), GInt (ro_UserID r),
        GStr (ro_Comments r), GStr (ro_Ctime r), GStr (ro_Mtime r)])\<rparr>"

definition App_type :: "App gotype" where
  "App_type =
     \<lparr>ty_fields =
        [tcol ''ID'' KInt ''id'' ''auto'', tcol ''Name'' KString ''name'' [],
         tcol ''Email'' KString ''email'' [], tcol ''Token'' KString ''token'' [CHR 0x27, CHR 0x27],
         tcol ''Comments'' KString ''comments'' [],
         tcol ''Ctime'' KString ''ctime'' ''now()'', tcol ''Mtime'' KString ''mtime'' ''now()''],
      ty_make = (\<lambda>v. \<lparr>ap_ID = gint (v ! 0), ap_Name = gstr (v ! 1), ap_Email = gstr (v ! 2),
        ap_Token = gstr (v ! 3), ap_Comments = gstr (v ! 4), ap_Ctime = gstr (v ! 5),
        ap_Mtime = gstr (v ! 6)\<rparr>),
      ty_vals = (\<lambda>r. [GInt (ap_ID r), GStr (ap_Name r), GStr (ap_Email r), GStr (ap_Token r),
        GStr (ap_Comments r), GStr (ap_Ctime r), GStr (ap_Mtime r)])\<rparr>"

definition Resource_type :: "Resource gotype" where
  "Resource_type =
     \<lparr>ty_fields =
        [tcol ''ID'' KInt ''id'' ''auto'', tcol ''AppID'' KInt ''app_id'' [],
         tcol ''Name'' KString ''name'' [], tcol ''Comments'' KString ''comments'' [],
         tcol ''Ctime'' KString ''ctime'' ''now()'', tcol ''Mtime'' KString ''mtime'' ''now()''],
      ty_make = (\<lambda>v. \<lparr>re_ID = gint (v ! 0), re_AppID = gint (v ! 1), re_Name = gstr (v ! 2),
        re_Comments = gstr (v ! 3), re_Ctime = gstr (v ! 4), re_Mtime = gstr (v ! 5)\<rparr>),
      ty_vals = (\<lambda>r. [GInt (re_ID r), GInt (re_AppID r), GStr (re_Name r), GStr (re_Comments r),
        GStr (re_Ctime r), GStr (re_Mtime r)])\<rparr>"

definition User_type :: "User gotype" where
  "User_type =
     \<lparr>ty_fields =
        [tcol ''ID'' KInt ''id'' ''auto'', tcol ''AppID'' KInt ''app_id'' [],
         tcol ''Name'' KString ''name'' [], tcol ''Email'' KString ''email'' [],
         tcol ''Ctime'' KString ''ctime'' ''now()'', tcol ''Mtime'' KString ''mtime'' ''now()''],
      ty_make = (\<lambda>v. \<lparr>us_ID = gint (v ! 0), us_AppID = gint (v ! 1), us_Name = gstr (v ! 2),
        us_Email = gstr (v ! 3), us_Ctime = gstr (v ! 4), us_Mtime = gstr (v ! 5)\<rparr>),
      ty_vals = (\<lambda>r. [GInt (us_ID r), GInt (us_AppID r), GStr (us_Name r), GStr (us_Email r),
        GStr (us_Ctime r), GStr (us_Mtime r)])\<rparr>"

definition RoleResource_type :: "RoleResource gotype" where
  "RoleResource_type =
     \<lparr>ty_fields =
        [tcol ''ID'' KInt ''id'' ''auto'', tcol ''AppID'' KInt ''app_id'' [],
         tcol ''ResourceID'' KInt ''resource_id'' [], tcol ''ResourceName'' KString ''resource.name'' [],
         tcol ''RoleID'' KInt ''role_id'' [], tcol ''RoleName'' KString ''role.name'' [],
         tcol ''RoleComments'' KString ''role.comments'' [],
         tcol ''Ctime'' KString ''ctime'' ''now()'', tcol ''Mtime'' KString ''mtime'' ''now()''],
      ty_make = (\<lambda>v. \<lparr>rr_ID = gint (v ! 0), rr_AppID = gint (v ! 1), rr_ResourceID = gint (v ! 2),
        rr_ResourceName = gstr (v ! 3), rr_RoleID = gint (v ! 4), rr_RoleName = gstr (v ! 5),
        rr_RoleComments = gstr (v ! 6), rr_Ctime = gstr (v ! 7), rr_Mtime = gstr (v ! 8)\<rparr>),
      ty_vals = (\<lambda>r. [GInt (rr_ID r), GInt (rr_AppID r), GInt (rr_ResourceID r),
        GStr (rr_ResourceName r), GInt (rr_RoleID r), GStr (rr_RoleName r), GStr (rr_RoleComments r),
        GStr (rr_Ctime r), GStr (rr_Mtime r)])\<rparr>"

definition RoleUser_type :: "RoleUser gotype" where
  "RoleUser_type =
     \<lparr>ty_fields =
        [tcol ''ID'' KInt ''id'' ''auto'', tcol ''AppID'' KInt ''app_id'' [],
         tcol ''AdminID'' KInt ''role.user_id'' [], tcol ''UserID'' KInt ''user_id'' [],
         tcol ''UserName'' KString ''user.name'' [], tcol ''UserEmail'' KString ''user.email'' [],
         tcol ''RoleID'' KInt ''role_id'' [], tcol ''RoleName'' KString ''role.name'' [],
         tcol ''RoleComments'' KString ''role.comments'' [],
         tcol ''Ctime'' KString ''ctime'' ''now()'', tcol ''Mtime'' KString ''mtime'' ''now()''],
      ty_make = (\<lambda>v. \<lparr>ru_ID = gint (v ! 0), ru_AppID = gint (v ! 1), ru_AdminID = gint (v ! 2),
        ru_UserID = gint (v ! 3), ru_UserName = gstr (v ! 4), ru_UserEmail = gstr (v ! 5),
        ru_RoleID = gint (v ! 6), ru_RoleName = gstr (v ! 7), ru_RoleComments = gstr (v ! 8),
        ru_Ctime = gstr (v ! 9), ru_Mtime = gstr (v ! 10)\<rparr>),
      ty_vals = (\<lambda>r. [GInt (ru_ID r), GInt (ru_AppID r), GInt (ru_AdminID r), GInt (ru_UserID r),
        GStr (ru_UserName r), GStr (ru_UserEmail r), GInt (ru_RoleID r), GStr (ru_RoleName r),
        GStr (ru_RoleComments r), GStr (ru_Ctime r), GStr (ru_Mtime r)])\<rparr>"

definition zero_RoleResource :: RoleResource where
  "zero_RoleResource = \<lparr>rr_ID = 0, rr_AppID = 0, rr_ResourceID = 0, rr_ResourceName = [], rr_RoleID = 0,
     rr_RoleName = [], rr_RoleComments = [], rr_Ctime = [], rr_Mtime = []\<rparr>"

definition zero_RoleUser :: RoleUser where
  "zero_RoleUser = \<lparr>ru_ID = 0, ru_AppID = 0, ru_AdminID = 0, ru_UserID = 0, ru_UserName = [],
     ru_UserEmail = [], ru_RoleID = 0, ru_RoleName = [], ru_RoleComments = [], ru_Ctime = [], ru_Mtime = []\<rparr>"

subsection \<open>Statements\<close>

definition select_column :: "string \<Rightarrow> sfield \<Rightarrow> string" where
  "select_column dt f =
     (let name = (if f_db f = [] then to_lower (f_Name f) else f_db f) in
      if CHR ''.'' \<in> set name then name else dt @ ''.'' @ name)"

definition where_clause :: "string \<Rightarrow> string" where
  "where_clause w = (if w = [] then [] else '' where '' @ w)"

definition order_clause :: "string \<Rightarrow> string \<Rightarrow> string" where
  "order_clause srt ord =
     (if srt = [] then [] else '' order by '' @ srt @ (if ord = [] then [] else '' '' @ ord))"

definition limit_clause :: "int \<Rightarrow> int \<Rightarrow> string" where
  "limit_clause offset cnt =
     (if cnt > 0 then '' limit '' @ show_int offset @ '','' @ show_int cnt else [])"

definition first_table :: "string \<Rightarrow> string" where
  "first_table table = hd (split_on CHR '','' table)"

definition select_sql :: "string \<Rightarrow> string \<Rightarrow> sfield list \<Rightarrow> string" where
  "select_sql table wh fs =
     ''select '' @ join '', '' (map (select_column (first_table table)) fs) @ '' from '' @ table @
     where_clause wh"

definition count_sql :: "string \<Rightarrow> string \<Rightarrow> string" where
  "count_sql table wh = ''select count(*) from '' @ table @ where_clause wh"

definition insert_columns :: "sfield list \<Rightarrow> sfield list" where
  "insert_columns fs = filter (\<lambda>f. f_default f \<noteq> ''auto'' \<and> CHR ''.'' \<notin> set (f_db f)) fs"

definition insert_name :: "sfield \<Rightarrow> string" where
  "insert_name f = (if f_db f = [] then f_Name f else f_db f)"

text \<open>An empty string is written as the column's default, which is nothing for a column without one.
  Any other kind of field writes nothing at all.\<close>

definition insert_value :: "sfield \<Rightarrow> goval \<Rightarrow> string" where
  "insert_value f v =
     (case v of
        GInt i \<Rightarrow> show_int i @ '', ''
      | GBool b \<Rightarrow> (if b then ''1, '' else ''0, '')
      | GStr s \<Rightarrow> if s = [] then f_default f @ '', '' else [CHR 0x27] @ s @ [CHR 0x27] @ '', ''
      | _ \<Rightarrow> [])"

definition truncate2 :: "string \<Rightarrow> string" where
  "truncate2 s = take (length s - 2) s"

definition insert_sql :: "string \<Rightarrow> 'a gotype \<Rightarrow> 'a \<Rightarrow> string" where
  "insert_sql table T x =
     truncate2 (''insert into '' @ table @ '' ('' @
       concat (map (\<lambda>f. insert_name f @ '', '') (insert_columns (ty_fields T)))) @
     truncate2 ('') values ('' @
       concat (map (\<lambda>(f, v). insert_value f v)
         (filter (\<lambda>(f, v). f \<in> set (insert_columns (ty_fields T))) (zip (ty_fields T) (ty_vals T x))))) @
     '') ON DUPLICATE KEY UPDATE id=LAST_INSERT_ID(id), mtime=now()''"

subsection \<open>Functions\<close>

definition no_field :: fault where
  "no_field = Error (ErrText ''result not found field'')"

definition queryAll :: "'w dbms \<Rightarrow> 'a gotype \<Rightarrow> string \<Rightarrow> string \<Rightarrow> ('w, 'a list) call" where
  "queryAll D T table wh =
     (if ty_fields T = [] then craise no_field
      else
        cbind (GetConnection D) (\<lambda>_.
        cbind (db_Query D (select_sql table wh (ty_fields T)) []) (\<lambda>rows.
        cret (scan_rows T rows))))"

text \<open>The total is read with a second statement whose errors are dropped: then the caller's limit
  stands for it.\<close>

definition query_total :: "'w dbms \<Rightarrow> string \<Rightarrow> string \<Rightarrow> int \<Rightarrow> ('w, int) call" where
  "query_total D table wh cnt w =
     (case db_query D (count_sql table wh) [] w of
        (Inr ([v] # _), w') \<Rightarrow> (Inr (case scan_int v of Inr n \<Rightarrow> n | Inl _ \<Rightarrow> cnt), w')
      | (_, w') \<Rightarrow> (Inr cnt, w'))"

definition query :: "'w dbms \<Rightarrow> 'a gotype \<Rightarrow> string \<Rightarrow> string \<Rightarrow> string \<Rightarrow> string \<Rightarrow> int \<Rightarrow> int \<Rightarrow>
    ('w, int \<times> 'a list) call" where
  "query D T table wh srt ord offset cnt =
     (if ty_fields T = [] then craise no_field
      else
        cbind (GetConnection D) (\<lambda>_.
        cbind (db_Query D (select_sql table wh (ty_fields T) @ order_clause srt ord @
          limit_clause offset cnt) []) (\<lambda>rows.
        cbind (cret (scan_rows T rows)) (\<lambda>xs.
        cbind (query_total D table wh cnt) (\<lambda>total.
        creturn (total, xs))))))"

definition add :: "'w dbms \<Rightarrow> 'a gotype \<Rightarrow> string \<Rightarrow> 'a \<Rightarrow> ('w, int) call" where
  "add D T table x =
     (if ty_fields T = [] then craise (Error (ErrText ''data not found field''))
      else
        cbind (GetConnection D) (\<lambda>_.
        cbind (db_Exec D (insert_sql table T x) []) (\<lambda>(lastId, _). creturn lastId)))"

definition updateAppToken :: "'w dbms \<Rightarrow> int \<Rightarrow> string \<Rightarrow> ('w, unit) call" where
  "updateAppToken D ident token =
     cbind (GetConnection D) (\<lambda>_.
     cbind (db_Exec D ''update app set token=?, mtime=now() where id=?'' [SStr token, SInt ident]) (\<lambda>_.
     creturn ()))"

definition quoted :: "string \<Rightarrow> string" where
  "quoted s = [CHR 0x27] @ s @ [CHR 0x27]"

definition updateRole :: "'w dbms \<Rightarrow> Role \<Rightarrow> ('w, unit) call" where
  "updateRole D role =
     cbind (GetConnection D) (\<lambda>_.
     cbind (db_Exec D (''update role set name='' @ quoted (ro_Name role) @ '', comments='' @
       quoted (ro_Comments role) @ '', mtime=now() where id='' @ show_int (ro_ID role) @
       '' and app_id='' @ show_int (ro_AppID role)) []) (\<lambda>_.
     creturn ()))"

definition updateUser :: "'w dbms \<Rightarrow> User \<Rightarrow> ('w, unit) call" where
  "updateUser D u =
     cbind (GetConnection D) (\<lambda>_.
     cbind (db_Exec D (''update user set name='' @ quoted (us_Name u) @ '', email='' @
       quoted (us_Email u) @ '', mtime=now() where id='' @ show_int (us_ID u) @
       '' and app_id='' @ show_int (us_AppID u)) []) (\<lambda>_.
     creturn ()))"

definition exec :: "'w dbms \<Rightarrow> string \<Rightarrow> ('w, int) call" where
  "exec D sql =
     cbind (GetConnection D) (\<lambda>_.
     cbind (db_Exec D sql []) (\<lambda>(_, affected). creturn affected))"

definition validate :: "'w dbms \<Rightarrow> string \<Rightarrow> ('w, bool) call" where
  "validate D sql =
     cbind (GetConnection D) (\<lambda>_.
     cbind (db_Query D sql []) (\<lambda>rows. creturn (rows \<noteq> [])))"

end
