(* ===== verification/Server.thy ===== *)
theory Server
  imports Decode
begin

text \<open>
  How the handlers of the rbac server, the manager and the distributor answer, after the HTTP
  library's \<open>common.go\<close> under \<open>_vendor/github.com/dearcode/crab/http/server\<close>: every answer is one
  JSON document, and a panic is caught by the library's \<open>ServeHTTP\<close>, which answers 500.
\<close>

section \<open>Definitions\<close>

datatype 'p reply =
    Refuse int error
  | Okay
  | Data 'p
  | Rows int 'p
  | Plain 'p
  | Aborted panic

text \<open>The HTTP status of an answer: the status of \<open>SendResponse\<close> is a field of the document, and the
  HTTP status is 200.\<close>

fun http_status :: "'p reply \<Rightarrow> int" where
  "http_status (Aborted p) = 500"
| "http_status _ = 200"

text \<open>\<open>if err != nil { SendResponse(w, st, err.Error()); return }\<close> around a call.\<close>

definition on_err :: "int \<Rightarrow> ('w, 'a) call \<Rightarrow> ('a \<Rightarrow> 'w \<Rightarrow> 'p reply \<times> 'w) \<Rightarrow> 'w \<Rightarrow> 'p reply \<times> 'w" where
  "on_err st c k w =
     (case c w of
        (Inl (Error e), w') \<Rightarrow> (Refuse st e, w')
      | (Inl (Panic p), w') \<Rightarrow> (Aborted p, w')
      | (Inr x, w') \<Rightarrow> k x w')"

definition answer :: "'p reply \<Rightarrow> 'w \<Rightarrow> 'p reply \<times> 'w" where
  "answer r w = (r, w)"

definition pure_call :: "'a result \<Rightarrow> ('w, 'a) call" where
  "pure_call r w = (r, w)"

section \<open>Lemmas\<close>

lemma answer_apply [simp]: "answer r w = (r, w)"
  by (simp add: answer_def)

lemma on_err_pure [simp]:
  "on_err st (pure_call (Inr x)) k w = k x w"
  "on_err st (pure_call (Inl (Error e))) k w = (Refuse st e, w)"
  "on_err st (pure_call (Inl (Panic p))) k w = (Aborted p, w)"
  by (simp_all add: on_err_def pure_call_def)

text \<open>A call that succeeds hands its result on; any other outcome is the answer.\<close>

lemma on_err_cases:
  assumes "on_err st c k w = (r, w')"
  obtains (fail) f where "c w = (Inl f, w')" "r = (case f of Error e \<Rightarrow> Refuse st e | Panic p \<Rightarrow> Aborted p)"
  | (pass) x w1 where "c w = (Inr x, w1)" "k x w1 = (r, w')"
  using assms by (auto simp: on_err_def split: prod.splits sum.splits fault.splits)

end
