(* ===== verification/Orm.thy ===== *)
theory Orm
  imports Sql Server
begin

text \<open>
  The object-relational layer that the manager, the distributor and the rbac server use,
  \<open>orm.go\<close> under \<open>_vendor/github.com/dearcode/crab/orm\<close>, with \<open>FieldEscape\<close> of its \<open>util\<close> package.

  A struct type is a list of fields: a column, a nested struct that is joined (\<open>db_table:"one"\<close>), or
  a slice that is filled with one more query per row (\<open>"more"\<close>, \<open>"one2more"\<close>).  A struct value is
  the list of its fields' values.
\<close>

section \<open>Definitions\<close>

subsection \<open>Types and names\<close>

datatype ofield =
    OCol string kind string string
  | OOne string "ofield list"
  | OMany string string "ofield list"

datatype oval = OV goval | OVOne "oval list" | OVMany "oval list list"

fun escape_from :: "bool \<Rightarrow> string \<Rightarrow> string" where
  "escape_from up [] = []"
| "escape_from up (c # s) =
     (if CHR ''A'' \<le> c \<and> c \<le> CHR ''Z''
      then (if up then [] else ''_'') @ [to_lower_char c] @ escape_from True s
      else c # escape_from False s)"

definition FieldEscape :: "string \<Rightarrow> string" where
  "FieldEscape k = escape_from True k"

record Stmt =
  st_table :: string
  st_where :: string
  st_sort :: string
  st_order :: string
  st_group :: string
  st_offset :: int
  st_limit :: int

definition NewStmt :: "string \<Rightarrow> Stmt" where
  "NewStmt table = \<lparr>st_table = table, st_where = [], st_sort = [], st_order = [], st_group = [],
     st_offset = 0, st_limit = 0\<rparr>"

text \<open>\<open>Where\<close> with its format already applied.\<close>

definition Where :: "string \<Rightarrow> Stmt \<Rightarrow> Stmt" where
  "Where w s = s\<lparr>st_where := w\<rparr>"

definition addWhere :: "string \<Rightarrow> Stmt \<Rightarrow> Stmt" where
  "addWhere w s = s\<lparr>st_where := (if st_where s = [] then [] else st_where s @ '' and '') @ w\<rparr>"

subsection \<open>Statements\<close>

definition SQLCondition :: "Stmt \<Rightarrow> string" where
  "SQLCondition s =
     (if st_where s = [] then [] else '' where '' @ st_where s) @
     (if st_sort s = [] then [] else
        '' order by '' @ st_sort s @ (if st_order s = [] then [] else '' '' @ st_order s)) @
     (if st_group s = [] then [] else '' group by '' @ st_group s) @
     (if st_limit s > 0 then
        '' limit '' @ (if st_offset s > 0 then show_int (st_offset s) @ '','' else []) @
        show_int (st_limit s)
      else [])"

definition SQLCount :: "Stmt \<Rightarrow> string" where
  "SQLCount s = ''select count(*) from '' @ st_table s @ SQLCondition s"

definition column_name :: "string \<Rightarrow> string \<Rightarrow> string" where
  "column_name n db = (if db = [] then FieldEscape n else db)"

text \<open>The columns of a struct; a joined struct adds its table and the join condition to the statement
  as it is met.\<close>

fun SQLColumn :: "ofield list \<Rightarrow> string \<Rightarrow> Stmt \<Rightarrow> string \<times> Stmt" where
  "SQLColumn [] table s = ([], s)"
| "SQLColumn (OCol n k db def # fs) table s =
     (let name = column_name n db;
          c = (if CHR ''.'' \<in> set name then [] else table @ ''.'') @ name @ '', '' in
      case SQLColumn fs table s of (cs, s') \<Rightarrow> (c @ cs, s'))"
| "SQLColumn (OOne n sub # fs) table s =
     (let field = FieldEscape n in
      case SQLColumn sub field (s\<lparr>st_table := st_table s @ '','' @ field\<rparr>) of (c, s1) \<Rightarrow>
      case SQLColumn fs table (addWhere (table @ ''.'' @ field @ ''_id = '' @ field @ ''.id'') s1) of
        (cs, s2) \<Rightarrow> (c @ cs, s2))"
| "SQLColumn (OMany n rel sub # fs) table s = SQLColumn fs table s"

definition SQLQuery :: "ofield list \<Rightarrow> Stmt \<Rightarrow> string" where
  "SQLQuery fs s =
     (case SQLColumn fs (hd (split_on CHR '','' (st_table s))) s of (cs, s1) \<Rightarrow>
      (let bs = ''select '' @ cs in take (length bs - 2) bs) @ '' from '' @ st_table s1 @ SQLCondition s1)"

definition firstTable :: "Stmt \<Rightarrow> string" where
  "firstTable s =
     (case str_index (st_table s) '','' of Some i \<Rightarrow> take i (st_table s) | None \<Rightarrow> st_table s)"

definition SQLInsert :: "ofield list \<Rightarrow> string \<Rightarrow> string" where
  "SQLInsert fs table =
     (let cs = concat (map (\<lambda>f. case f of OCol n k db def \<Rightarrow>
                 if def = ''auto'' then [] else [(column_name n db, if def = [] then ''?'' else def)]
               | OMany n rel sub \<Rightarrow> [(FieldEscape n, ''?'')] | OOne _ _ \<Rightarrow> []) fs);
          bs = ''insert into '' @ table @ '' ('' @ concat (map (\<lambda>c. fst c @ '', '') cs);
          dbs = '') values ('' @ concat (map (\<lambda>c. snd c @ '', '') cs) in
      take (length bs - 2) bs @ take (length dbs - 2) dbs @ '') '')"

fun oint :: "oval \<Rightarrow> int" where
  "oint (OV (GInt i)) = i"
| "oint _ = 0"

fun ostr :: "oval \<Rightarrow> string" where
  "ostr (OV (GStr s)) = s"
| "ostr _ = []"

fun go_arg :: "oval \<Rightarrow> sqlval result" where
  "go_arg (OV (GInt i)) = Inr (SInt i)"
| "go_arg (OV (GStr s)) = Inr (SStr s)"
| "go_arg (OV (GBool b)) = Inr (SInt (if b then 1 else 0))"
| "go_arg (OV (GUint n)) = Inr (SInt (int n))"
| "go_arg _ = Inl (Error (ErrText ''sql: converting argument type: unsupported type''))"

text \<open>The arguments of an insert and of an update: the fields that are written with a placeholder.\<close>

fun insert_args :: "ofield list \<Rightarrow> oval list \<Rightarrow> sqlval list result" where
  "insert_args (OCol n k db def # fs) (v # vs) =
     (if def = [] then rbind (go_arg v) (\<lambda>a. rbind (insert_args fs vs) (\<lambda>as. Inr (a # as)))
      else insert_args fs vs)"
| "insert_args (OMany n rel sub # fs) (v # vs) =
     rbind (go_arg v) (\<lambda>a. rbind (insert_args fs vs) (\<lambda>as. Inr (a # as)))"
| "insert_args (OOne n sub # fs) (v # vs) = insert_args fs vs"
| "insert_args _ _ = Inr []"

fun update_args :: "ofield list \<Rightarrow> oval list \<Rightarrow> sqlval list result" where
  "update_args (OCol n k db def # fs) (v # vs) =
     (if def = [] then rbind (go_arg v) (\<lambda>a. rbind (update_args fs vs) (\<lambda>as. Inr (a # as)))
      else update_args fs vs)"
| "update_args (_ # fs) (v # vs) = update_args fs vs"
| "update_args _ _ = Inr []"

definition backquoted :: "string \<Rightarrow> string" where
  "backquoted s = [CHR 0x60] @ s @ [CHR 0x60]"

definition SQLUpdate :: "ofield list \<Rightarrow> Stmt \<Rightarrow> string" where
  "SQLUpdate fs s =
     (let bs = ''update '' @ backquoted (st_table s) @ '' set '' @
          concat (map (\<lambda>f. case f of OCol n k db def \<Rightarrow>
            if def = [] then backquoted (column_name n db) @ ''=?, '' else [] | _ \<Rightarrow> []) fs) in
      take (length bs - 2) bs @ SQLCondition s)"

subsection \<open>Running\<close>

text \<open>\<open>Rows.Scan\<close> into the columns of a struct and of its joined structs.  The list of destinations
  looks only one level deep: a struct inside a joined struct is itself a destination, which no column
  can be scanned into.\<close>

fun orm_scan_in :: "ofield list \<Rightarrow> row \<Rightarrow> (oval list \<times> row) result" where
  "orm_scan_in [] r = Inr ([], r)"
| "orm_scan_in (OCol n k db def # fs) r =
     (case r of
        [] \<Rightarrow> scan_error
      | v # r' \<Rightarrow>
          rbind (scan_val k v) (\<lambda>x. rbind (orm_scan_in fs r') (\<lambda>(xs, r''). Inr (OV x # xs, r''))))"
| "orm_scan_in (OOne n sub # fs) r = scan_error"
| "orm_scan_in (OMany n rel sub # fs) r =
     rbind (orm_scan_in fs r) (\<lambda>(xs, r'). Inr (OVMany [] # xs, r'))"

fun orm_scan :: "ofield list \<Rightarrow> row \<Rightarrow> (oval list \<times> row) result" where
  "orm_scan [] r = Inr ([], r)"
| "orm_scan (OCol n k db def # fs) r =
     (case r of
        [] \<Rightarrow> scan_error
      | v # r' \<Rightarrow>
          rbind (scan_val k v) (\<lambda>x. rbind (orm_scan fs r') (\<lambda>(xs, r''). Inr (OV x # xs, r''))))"
| "orm_scan (OOne n sub # fs) r =
     rbind (orm_scan_in sub r) (\<lambda>(x, r'). rbind (orm_scan fs r') (\<lambda>(xs, r''). Inr (OVOne x # xs, r'')))"
| "orm_scan (OMany n rel sub # fs) r =
     rbind (orm_scan fs r) (\<lambda>(xs, r'). Inr (OVMany [] # xs, r'))"

definition orm_scan_row :: "ofield list \<Rightarrow> row \<Rightarrow> oval list result" where
  "orm_scan_row fs r = rbind (orm_scan fs r) (\<lambda>(x, rest). if rest = [] then Inr x else scan_error)"

text \<open>The scanned columns in order, and the one whose value names the row to its slices: the field
  \<open>ID\<close>, or without one the first column.\<close>

fun orm_refs :: "oval list \<Rightarrow> goval list" where
  "orm_refs [] = []"
| "orm_refs (OV v # vs) = v # orm_refs vs"
| "orm_refs (OVOne x # vs) = concat (map (\<lambda>y. case y of OV v \<Rightarrow> [v] | _ \<Rightarrow> []) x) @ orm_refs vs"
| "orm_refs (OVMany x # vs) = orm_refs vs"

fun orm_named :: "ofield list \<Rightarrow> oval list \<Rightarrow> goval option" where
  "orm_named (OCol n k db def # fs) (OV v # vs) = (if n = ''ID'' then Some v else orm_named fs vs)"
| "orm_named (_ # fs) (_ # vs) = orm_named fs vs"
| "orm_named _ _ = None"

definition orm_id :: "ofield list \<Rightarrow> oval list \<Rightarrow> goval option" where
  "orm_id fs vs =
     (case orm_named fs vs of
        Some v \<Rightarrow> Some v
      | None \<Rightarrow> (case orm_refs vs of [] \<Rightarrow> None | v # _ \<Rightarrow> Some v))"

text \<open>The verb \<open>%d\<close>.\<close>

fun show_d :: "goval \<Rightarrow> string" where
  "show_d (GInt i) = show_int i"
| "show_d (GUint n) = show_int (int n)"
| "show_d (GStr s) = ''%!d(string='' @ s @ '')''"
| "show_d (GBool b) = ''%!d(bool='' @ (if b then ''true'' else ''false'') @ '')''"
| "show_d GOther = []"

definition addRelation :: "string \<Rightarrow> string \<Rightarrow> goval \<Rightarrow> Stmt \<Rightarrow> Stmt" where
  "addRelation t1 t2 ident s =
     (let a = FieldEscape t1; b = FieldEscape t2 in
      addWhere (''id in (select '' @ a @ ''_id from '' @ b @ ''_'' @ a @ ''_relation where '' @ b @
        ''_id='' @ show_d ident @ '')'') s)"

definition addOne2More :: "string \<Rightarrow> string \<Rightarrow> goval \<Rightarrow> Stmt \<Rightarrow> Stmt" where
  "addOne2More t1 t2 ident s =
     (let a = FieldEscape t1; b = FieldEscape t2 in
      addWhere (a @ ''.'' @ b @ ''_id='' @ show_d ident) s)"

definition many_stmt :: "string \<Rightarrow> string \<Rightarrow> Stmt \<Rightarrow> goval \<Rightarrow> Stmt option" where
  "many_stmt n rel s ident =
     (if rel = ''more'' then Some (addRelation n (firstTable s) ident (NewStmt (FieldEscape n)))
      else if rel = ''one2more'' then Some (addOne2More n (firstTable s) ident (NewStmt (FieldEscape n)))
      else None)"

text \<open>\<open>Query\<close> into a slice, the loop over the rows, and the slices of one row.  A nested query without
  a result leaves its slice empty.\<close>

function orm_all :: "'w dbms \<Rightarrow> ofield list \<Rightarrow> Stmt \<Rightarrow> ('w, oval list list) call"
  and orm_rows :: "'w dbms \<Rightarrow> ofield list \<Rightarrow> Stmt \<Rightarrow> row list \<Rightarrow> ('w, oval list list) call"
  and orm_fill :: "'w dbms \<Rightarrow> ofield list \<Rightarrow> Stmt \<Rightarrow> goval option \<Rightarrow> oval list \<Rightarrow> ('w, oval list) call" where
  "orm_all D fs s w =
     (if fs = [] then (Inl (Error (ErrText ''result not found field'')), w)
      else case db_Query D (SQLQuery fs s) [] w of
        (Inl f, w1) \<Rightarrow> (Inl f, w1)
      | (Inr rows, w1) \<Rightarrow>
          if rows = [] then (Inl (Error ErrNotFound), w1) else orm_rows D fs s rows w1)"
| "orm_rows D fs s [] w = (Inr [], w)"
| "orm_rows D fs s (r # rs) w =
     (case orm_scan_row fs r of
        Inl f \<Rightarrow> (Inl f, w)
      | Inr x \<Rightarrow>
          (case orm_fill D fs s (orm_id fs x) x w of
             (Inl f, w1) \<Rightarrow> (Inl f, w1)
           | (Inr x', w1) \<Rightarrow>
               (case orm_rows D fs s rs w1 of
                  (Inl f, w2) \<Rightarrow> (Inl f, w2)
                | (Inr xs, w2) \<Rightarrow> (Inr (x' # xs), w2))))"
| "orm_fill D (OMany n rel sub # fs) s ident (v # vs) w =
     (case ident of
        None \<Rightarrow> (Inl (Panic IndexOutOfRange), w)
      | Some i \<Rightarrow>
     (case many_stmt n rel s i of
        None \<Rightarrow>
          (case orm_fill D fs s ident vs w of (Inl f, w2) \<Rightarrow> (Inl f, w2) | (Inr vs', w2) \<Rightarrow> (Inr (v # vs'), w2))
      | Some t \<Rightarrow>
          (case orm_all D sub t w of
             (Inl f, w1) \<Rightarrow>
               if f = Error ErrNotFound then
                 (case orm_fill D fs s ident vs w1 of
                    (Inl f', w2) \<Rightarrow> (Inl f', w2) | (Inr vs', w2) \<Rightarrow> (Inr (v # vs'), w2))
               else (Inl f, w1)
           | (Inr xs, w1) \<Rightarrow>
               (case orm_fill D fs s ident vs w1 of
                  (Inl f', w2) \<Rightarrow> (Inl f', w2) | (Inr vs', w2) \<Rightarrow> (Inr (OVMany xs # vs'), w2)))))"
| "orm_fill D (OCol n k db def # fs) s ident (v # vs) w =
     (case orm_fill D fs s ident vs w of (Inl f, w2) \<Rightarrow> (Inl f, w2) | (Inr vs', w2) \<Rightarrow> (Inr (v # vs'), w2))"
| "orm_fill D (OOne n sub # fs) s ident (v # vs) w =
     (case orm_fill D fs s ident vs w of (Inl f, w2) \<Rightarrow> (Inl f, w2) | (Inr vs', w2) \<Rightarrow> (Inr (v # vs'), w2))"
| "orm_fill D [] s ident vs w = (Inr vs, w)"
| "orm_fill D (g # gs) s ident [] w = (Inr [], w)"
  by pat_completeness auto
termination
  by (relation "inv_image (less_than <*lex*> less_than <*lex*> less_than)
      (\<lambda>x. case x of
         Inl (D, fs, s, w) \<Rightarrow> (size_list size fs, 2, 0)
       | Inr (Inl (D, fs, s, rs, w)) \<Rightarrow> (size_list size fs, 1, length rs)
       | Inr (Inr (D, fs, s, i, vs, w)) \<Rightarrow> (size_list size fs, 0, 0))") auto

text \<open>\<open>Query\<close> into one struct.\<close>

definition orm_one :: "'w dbms \<Rightarrow> ofield list \<Rightarrow> Stmt \<Rightarrow> ('w, oval list) call" where
  "orm_one D fs s w =
     (if fs = [] then (Inl (Error (ErrText ''result not found field'')), w)
      else case db_Query D (SQLQuery fs (s\<lparr>st_limit := 1\<rparr>)) [] w of
        (Inl f, w1) \<Rightarrow> (Inl f, w1)
      | (Inr rows, w1) \<Rightarrow>
          (case rows of
             [] \<Rightarrow> (Inl (Error ErrNotFound), w1)
           | r # _ \<Rightarrow>
               (case orm_scan_row fs r of
                  Inl f \<Rightarrow> (Inl f, w1)
                | Inr x \<Rightarrow> orm_fill D fs s (orm_id fs x) x w1)))"

definition orm_Count :: "'w dbms \<Rightarrow> Stmt \<Rightarrow> ('w, int) call" where
  "orm_Count D s =
     cbind (db_Query D (SQLCount s) []) (\<lambda>rows.
     cret (case rows of [v] # _ \<Rightarrow> scan_int v | _ \<Rightarrow> scan_error))"

definition orm_Insert :: "'w dbms \<Rightarrow> ofield list \<Rightarrow> Stmt \<Rightarrow> oval list \<Rightarrow> ('w, int) call" where
  "orm_Insert D fs s vs =
     (if fs = [] then craise (Error (ErrText ''struc's field not found''))
      else
        cbind (cret (insert_args fs vs)) (\<lambda>arg.
        cbind (db_Exec D (SQLInsert fs (st_table s)) arg) (\<lambda>(lastId, _). creturn lastId)))"

definition orm_Update :: "'w dbms \<Rightarrow> ofield list \<Rightarrow> Stmt \<Rightarrow> oval list \<Rightarrow> ('w, int) call" where
  "orm_Update D fs s vs =
     (if fs = [] then craise (Error (ErrText ''struc's field not found''))
      else
        cbind (cret (update_args fs vs)) (\<lambda>arg.
        cbind (db_Exec D (SQLUpdate fs s) arg) (\<lambda>(_, affected). creturn affected)))"

definition orm_Exec :: "'w dbms \<Rightarrow> string \<Rightarrow> sqlval list \<Rightarrow> ('w, int) call" where
  "orm_Exec D sql arg = cbind (db_Exec D sql arg) (\<lambda>(_, affected). creturn affected)"

end
