(* ===== verification/Router.thy ===== *)
theory Router
  imports Server "HOL-Library.List_Lexorder" "HOL-Library.Sublist"
begin

text \<open>
  The request router of the HTTP library, \<open>handler.go\<close> under
  \<open>_vendor/github.com/dearcode/crab/http/server\<close>: registration of a handler object under an exact path
  or under a prefix, and the choice of the handler of a request.

  The B-tree of prefixes (an ordered container of another package) is the list of its items in the
  order of its \<open>Less\<close>, which is the reverse of the order of the paths.  A handler object is the list
  of its methods in the order of reflection, each with a flag that its signature is the one of a
  handler.  A registered path is compiled to a regular expression; the model has literal characters,
  \<open>.\<close> and the group that stands for a \<open>{key}\<close>, which covers every path the programs register.
\<close>

section \<open>Definitions\<close>

subsection \<open>Patterns\<close>

datatype rx = RLit char | RDot | RPlus

fun rx_at :: "rx list \<Rightarrow> string \<Rightarrow> bool" where
  "rx_at [] s = True"
| "rx_at (r # rs) [] = False"
| "rx_at (RLit c # rs) (x # s) = (x = c \<and> rx_at rs s)"
| "rx_at (RDot # rs) (x # s) = (x \<noteq> CHR 0x0A \<and> rx_at rs s)"
| "rx_at (RPlus # rs) (x # s) = (x \<noteq> CHR 0x0A \<and> (rx_at rs s \<or> rx_at (RPlus # rs) s))"

text \<open>\<open>MatchString\<close> is not anchored.\<close>

definition MatchString :: "rx list \<Rightarrow> string \<Rightarrow> bool" where
  "MatchString rs s = list_ex (rx_at rs) (suffixes s)"

definition key_char :: "char \<Rightarrow> bool" where
  "key_char c = (alnum c \<or> c = CHR ''_'')"

definition meta_char :: "char \<Rightarrow> bool" where
  "meta_char c = (c \<in> set (CHR 0x5C # ''^$*+?()[]{}|''))"

text \<open>The keys of a path and its pattern; nothing for a path with other operators.\<close>

function compile_path :: "string \<Rightarrow> (string list \<times> rx list) option" where
  "compile_path [] = Some ([], [])"
| "compile_path (c # s) =
     (let k = takeWhile key_char s; rest = dropWhile key_char s in
      if c = CHR ''{'' \<and> rest \<noteq> [] \<and> hd rest = CHR ''}'' then
        map_option (\<lambda>(ks, rs). (k # ks, RPlus # rs)) (compile_path (tl rest))
      else if meta_char c then None
      else map_option (\<lambda>(ks, rs). (ks, (if c = CHR ''.'' then RDot else RLit c) # rs)) (compile_path s))"
  by pat_completeness auto
termination
  by (relation "measure length")
    (auto simp: less_Suc_eq_le intro: le_trans [OF diff_le_self length_dropWhile_le])

subsection \<open>Registration\<close>

record 'h handlerRegexp =
  hr_keys :: "string list"
  hr_exp :: "rx list"
  hr_call :: 'h

record 'h prefixItem =
  pf_path :: string
  pf_exps :: "'h handlerRegexp list"

record 'h httpServer =
  hs_path :: "(string \<times> 'h) list"
  hs_prefix :: "'h prefixItem list"

definition newHTTPServer :: "'h httpServer" where
  "newHTTPServer = \<lparr>hs_path = [], hs_prefix = []\<rparr>"

definition newHandlerRegexp :: "string \<Rightarrow> 'h \<Rightarrow> 'h handlerRegexp option" where
  "newHandlerRegexp path call =
     map_option (\<lambda>(ks, rs). \<lparr>hr_keys = ks, hr_exp = rs, hr_call = call\<rparr>) (compile_path path)"

text \<open>\<open>Has\<close>, \<open>Get\<close> and \<open>ReplaceOrInsert\<close> of the tree.\<close>

fun bt_get :: "string \<Rightarrow> 'h prefixItem list \<Rightarrow> 'h prefixItem option" where
  "bt_get k [] = None"
| "bt_get k (p # ps) = (if pf_path p = k then Some p else bt_get k ps)"

fun bt_put :: "'h prefixItem \<Rightarrow> 'h prefixItem list \<Rightarrow> 'h prefixItem list" where
  "bt_put p [] = [p]"
| "bt_put p (q # qs) =
     (if pf_path p = pf_path q then p # qs
      else if pf_path q < pf_path p then p # q # qs
      else q # bt_put p qs)"

text \<open>\<open>NameToPath\<close>: dots and stars become slashes, and the path starts at the slash of the given depth.\<close>

fun path_from :: "nat \<Rightarrow> nat \<Rightarrow> nat \<Rightarrow> string \<Rightarrow> nat" where
  "path_from depth i d [] = 0"
| "path_from depth i d (c # s) =
     (if c = CHR ''.'' \<or> c = CHR ''*'' then
        (if Suc d = depth then i else path_from depth (Suc i) (Suc d) s)
      else path_from depth (Suc i) d s)"

definition NameToPath :: "string \<Rightarrow> nat \<Rightarrow> string" where
  "NameToPath name depth =
     drop (path_from depth 0 0 name)
       (map (\<lambda>c. if c = CHR ''.'' \<or> c = CHR ''*'' then CHR ''/'' else c) name)"

record 'h object =
  ob_type :: string
  ob_ptr :: bool
  ob_methods :: "(string \<times> bool \<times> 'h) list"

definition prefix_key :: "string \<Rightarrow> string \<Rightarrow> string" where
  "prefix_key meth path =
     meth @ (case str_index path ''{'' of Some i \<Rightarrow> if i > 0 then take i path else path | None \<Rightarrow> path)"

definition register_prefix :: "string \<Rightarrow> string \<Rightarrow> 'h \<Rightarrow> 'h httpServer \<Rightarrow> 'h httpServer" where
  "register_prefix meth path call s =
     (case newHandlerRegexp (meth @ path) call of
        None \<Rightarrow> s
      | Some e \<Rightarrow>
          (let key = prefix_key meth path;
               p = (case bt_get key (hs_prefix s) of Some p \<Rightarrow> p | None \<Rightarrow> \<lparr>pf_path = key, pf_exps = []\<rparr>) in
           s\<lparr>hs_prefix := bt_put (p\<lparr>pf_exps := pf_exps p @ [e]\<rparr>) (hs_prefix s)\<rparr>))"

definition exist_url :: "string \<Rightarrow> string \<Rightarrow> error" where
  "exist_url meth path = ErrText (''exist url:'' @ meth @ '' '' @ path)"

definition RegisterHandler :: "'h \<Rightarrow> string \<Rightarrow> string \<Rightarrow> ('h httpServer, unit) call" where
  "RegisterHandler call meth path s =
     (if map_of (hs_path s) (meth @ path) \<noteq> None then (Inl (Error (exist_url meth path)), s)
      else (Inr (), s\<lparr>hs_path := hs_path s @ [(meth @ path, call)]\<rparr>))"

fun register_methods :: "bool \<Rightarrow> string \<Rightarrow> (string \<times> bool \<times> 'h) list \<Rightarrow> ('h httpServer, unit) call" where
  "register_methods isPrefix path [] s = (Inr (), s)"
| "register_methods isPrefix path ((meth, sig, call) # ms) s =
     (if meth \<notin> set [''POST'', ''GET'', ''PUT'', ''DELETE''] \<or> \<not> sig
      then register_methods isPrefix path ms s
      else if isPrefix then register_methods isPrefix path ms (register_prefix meth path call s)
      else if map_of (hs_path s) (meth @ path) \<noteq> None then (Inl (Error (exist_url meth path)), s)
      else register_methods isPrefix path ms (s\<lparr>hs_path := hs_path s @ [(meth @ path, call)]\<rparr>))"

definition registered_path :: "string \<Rightarrow> string \<Rightarrow> string" where
  "registered_path typ path =
     (let p = (if path = [] then NameToPath typ 0 @ ''/'' else path) in
      if Sublist.prefix ''/'' p then p else ''/'' @ p)"

definition register_object :: "'h object \<Rightarrow> string \<Rightarrow> bool \<Rightarrow> ('h httpServer, unit) call" where
  "register_object obj path isPrefix s =
     (if \<not> ob_ptr obj then (Inl (Error (ErrText ''need ptr'')), s)
      else register_methods isPrefix (registered_path (ob_type obj) path) (ob_methods obj) s)"

definition RegisterPath :: "'h object \<Rightarrow> string \<Rightarrow> ('h httpServer, unit) call" where
  "RegisterPath obj path = register_object obj path False"

definition RegisterPrefix :: "'h object \<Rightarrow> string \<Rightarrow> ('h httpServer, unit) call" where
  "RegisterPrefix obj path = register_object obj path True"

subsection \<open>Dispatch\<close>

text \<open>\<open>AscendGreaterOrEqual\<close> with the callback of the lookup: from the first item that is not before
  the pivot, until an item is a prefix of the path.\<close>

fun ascend :: "string \<Rightarrow> 'h prefixItem list \<Rightarrow> 'h prefixItem option" where
  "ascend path [] = None"
| "ascend path (p # ps) = (if Sublist.prefix (pf_path p) path then Some p else ascend path ps)"

definition AscendGreaterOrEqual :: "string \<Rightarrow> 'h prefixItem list \<Rightarrow> 'h prefixItem option" where
  "AscendGreaterOrEqual path ps = ascend path (dropWhile (\<lambda>p. path < pf_path p) ps)"

fun first_match :: "string \<Rightarrow> 'h handlerRegexp list \<Rightarrow> 'h option" where
  "first_match path [] = None"
| "first_match path (e # es) = (if MatchString (hr_exp e) path then Some (hr_call e) else first_match path es)"

definition getHandler :: "'h httpServer \<Rightarrow> string \<Rightarrow> string \<Rightarrow> 'h option" where
  "getHandler s meth path =
     (case map_of (hs_path s) (meth @ path) of
        Some h \<Rightarrow> Some h
      | None \<Rightarrow>
          (case AscendGreaterOrEqual (meth @ path) (hs_prefix s) of
             None \<Rightarrow> None
           | Some p \<Rightarrow> first_match (meth @ path) (pf_exps p)))"

text \<open>\<open>ServeHTTP\<close> with the default filter, which lets every request through; a handler's panic is
  already an answer of its own (\<open>Aborted\<close>).\<close>

definition serve :: "(Request \<Rightarrow> 'w \<Rightarrow> 'p reply \<times> 'w) httpServer \<Rightarrow> Request \<Rightarrow> 'w \<Rightarrow> 'p reply \<times> 'w" where
  "serve s r w =
     (case getHandler s (rq_Method r) (url_Path (rq_URL r)) of
        None \<Rightarrow> (Refuse 404 (ErrText ''invalid request''), w)
      | Some h \<Rightarrow> h r w)"

text \<open>A sequence of registrations; the programs do not look at their errors.\<close>

datatype 'h registration = AtPath "'h object" string | AtPrefix "'h object" string | Single 'h string string

fun enter :: "'h registration \<Rightarrow> 'h httpServer \<Rightarrow> 'h httpServer" where
  "enter (AtPath ob p) s = snd (RegisterPath ob p s)"
| "enter (AtPrefix ob p) s = snd (RegisterPrefix ob p s)"
| "enter (Single h meth p) s = snd (RegisterHandler h meth p s)"

definition router :: "'h registration list \<Rightarrow> 'h httpServer" where
  "router rs = fold enter rs newHTTPServer"

text \<open>What the lookup stands for: of the registered prefixes of the path, the longest.\<close>

definition longer :: "'h prefixItem \<Rightarrow> 'h prefixItem \<Rightarrow> 'h prefixItem" where
  "longer a b = (if length (pf_path a) < length (pf_path b) then b else a)"

definition longest_prefix :: "string \<Rightarrow> 'h prefixItem list \<Rightarrow> 'h prefixItem option" where
  "longest_prefix path ps =
     (case filter (\<lambda>p. Sublist.prefix (pf_path p) path) ps of
        [] \<Rightarrow> None
      | q # qs \<Rightarrow> Some (foldl longer q qs))"

definition descending :: "'h prefixItem list \<Rightarrow> bool" where
  "descending ps = sorted_wrt (\<lambda>p q. pf_path q < pf_path p) ps"

section \<open>Lemmas\<close>

lemma prefix_le: "Sublist.prefix a b \<Longrightarrow> (a :: string) \<le> b"
  by (induction b arbitrary: a) (auto simp: Sublist.prefix_Cons)

lemma prefix_less_length:
  assumes "Sublist.prefix a c" "Sublist.prefix b c" "(a :: string) < b"
  shows "length a < length b"
proof (rule ccontr)
  assume "\<not> length a < length b"
  then have "Sublist.prefix b a"
    using assms prefix_length_prefix by (metis not_less)
  then show False
    using prefix_le assms(3) by (metis leD)
qed

lemma set_bt_put: "set (bt_put p ps) \<subseteq> insert p (set ps)"
  by (induction p ps rule: bt_put.induct) auto

lemma bt_put_descending: "descending ps \<Longrightarrow> descending (bt_put p ps)"
  unfolding descending_def
proof (induction p ps rule: bt_put.induct)
  case (2 p q qs)
  consider "pf_path p = pf_path q" | "pf_path q < pf_path p" | "pf_path p < pf_path q"
    by (rule linorder_cases)
  then show ?case
  proof cases
    case 2
    then show ?thesis
      using "2.prems" by (auto intro: less_trans)
  next
    case 3
    then show ?thesis
      using 2 set_bt_put [of p qs] by auto
  qed (use 2 in auto)
qed simp

lemma register_prefix_descending:
  "descending (hs_prefix s) \<Longrightarrow> descending (hs_prefix (register_prefix meth path call s))"
  by (simp add: register_prefix_def bt_put_descending Let_def split: option.split)

lemma register_methods_descending:
  "descending (hs_prefix s) \<Longrightarrow> descending (hs_prefix (snd (register_methods b path ms s)))"
  by (induction b path ms s rule: register_methods.induct) (auto intro: register_prefix_descending)

lemma enter_descending: "descending (hs_prefix s) \<Longrightarrow> descending (hs_prefix (enter r s))"
  by (cases r) (auto simp: RegisterPath_def RegisterPrefix_def RegisterHandler_def register_object_def
      intro: register_methods_descending)

lemma router_descending: "descending (hs_prefix (router rs))"
proof -
  have "descending (hs_prefix s) \<Longrightarrow> descending (hs_prefix (fold enter rs s))" for s
    by (induction rs arbitrary: s) (auto intro: enter_descending)
  then show ?thesis
    by (simp add: router_def newHTTPServer_def descending_def)
qed

lemma foldl_longer_hd:
  "\<forall>p \<in> set ps. length (pf_path p) < length (pf_path q) \<Longrightarrow> foldl longer q ps = q"
  by (induction ps) (auto simp: longer_def)

lemma ascend_longest:
  "descending ps \<Longrightarrow> ascend path ps = longest_prefix path ps"
proof (induction ps)
  case (Cons p ps)
  show ?case
  proof (cases "Sublist.prefix (pf_path p) path")
    case True
    then have "\<forall>q \<in> set (filter (\<lambda>p. Sublist.prefix (pf_path p) path) ps). length (pf_path q) < length (pf_path p)"
      using Cons.prems by (auto simp: descending_def intro: prefix_less_length [of _ path])
    then show ?thesis
      using True by (simp add: longest_prefix_def foldl_longer_hd)
  next
    case False
    then show ?thesis
      using Cons by (simp add: longest_prefix_def descending_def)
  qed
qed (simp add: longest_prefix_def)

lemma longest_prefix_drop:
  "longest_prefix path (dropWhile (\<lambda>p. path < pf_path p) ps) = longest_prefix path ps"
proof -
  have "filter (\<lambda>p. Sublist.prefix (pf_path p) path) (dropWhile (\<lambda>p. path < pf_path p) ps) =
        filter (\<lambda>p. Sublist.prefix (pf_path p) path) ps"
    by (induction ps) (auto dest: prefix_le)
  then show ?thesis
    by (simp add: longest_prefix_def)
qed

lemma descending_drop: "descending ps \<Longrightarrow> descending (dropWhile f ps)"
  unfolding descending_def by (induction ps) auto

section \<open>Properties\<close>

text \<open>C14: After any sequence of registrations a request is dispatched to the handler of its exact
  path, and without one to the first matching handler of the longest registered prefix of its path;
  the walk over the ordered tree finds exactly that prefix.\<close>

theorem getHandler_longest:
  "getHandler (router rs) meth path =
     (case map_of (hs_path (router rs)) (meth @ path) of
        Some h \<Rightarrow> Some h
      | None \<Rightarrow> Option.bind (longest_prefix (meth @ path) (hs_prefix (router rs)))
          (\<lambda>p. first_match (meth @ path) (pf_exps p)))"
  by (simp add: getHandler_def AscendGreaterOrEqual_def ascend_longest longest_prefix_drop
      descending_drop router_descending split: option.split)

end
