(* ===== verification/Rbac.thy ===== *)
theory Rbac
  imports RbacDb Orm Router
begin

text \<open>
  The rbac server: \<open>role.go\<close>, \<open>user.go\<close>, \<open>app.go\<close>, \<open>resource.go\<close>, \<open>relation.go\<close> and \<open>init.go\<close> of
  \<open>src/rbac\<close>.  Every exported function and every HTTP handler is one definition over the database
  server \<open>D\<close>; an answer carries the rows that the handler would print as JSON.
\<close>

section \<open>Definitions\<close>

text \<open>\<open>PNoResources\<close> is the literal \<open>[]meta.Resource{}\<close>; the other lists are slices that stay nil when no
  row is appended.\<close>

datatype payload =
    PId int
  | PText string
  | PRoles "Role list"
  | PUsers "User list"
  | PUser User
  | PApps "App list"
  | PResources "Resource list"
  | PNoResources
  | PRoleUsers "RoleUser list"
  | PRoleResources "RoleResource list"

type_synonym 'w handler = "Request \<Rightarrow> 'w \<Rightarrow> payload reply \<times> 'w"

definition not_found :: "payload reply" where
  "not_found = Refuse 404 (ErrText ''not found'')"

definition request_app :: "Request \<Rightarrow> int result" where
  "request_app r = parseToken (header_get (rq_Header r) ''token'')"

text \<open>The start of nearly every handler: decode the variables, then the token.\<close>

definition with_vars :: "int \<Rightarrow> sfield list \<Rightarrow> Request \<Rightarrow> (vars \<Rightarrow> 'w \<Rightarrow> payload reply \<times> 'w) \<Rightarrow> 'w \<Rightarrow> payload reply \<times> 'w" where
  "with_vars st fs r k = on_err st (pure_call (DecodeRequestValue True r fs)) k"

definition with_app :: "Request \<Rightarrow> (int \<Rightarrow> 'w \<Rightarrow> payload reply \<times> 'w) \<Rightarrow> 'w \<Rightarrow> payload reply \<times> 'w" where
  "with_app r k = on_err 400 (pure_call (request_app r)) k"

definition eq_int :: "string \<Rightarrow> int \<Rightarrow> string" where
  "eq_int c i = c @ ''='' @ show_int i"

definition page_vars :: "sfield list" where
  "page_vars = [var ''Sort'' KString ''sort'' [], var ''Order'' KString ''order'' [],
     var ''Offset'' KInt ''offset'' [], var ''Limit'' KInt ''limit'' []]"

subsection \<open>Users\<close>

definition UserAdd :: "'w dbms \<Rightarrow> int \<Rightarrow> string \<Rightarrow> string \<Rightarrow> ('w, int) call" where
  "UserAdd D appID name email =
     add D User_type ''user'' \<lparr>us_ID = 0, us_AppID = appID, us_Name = name, us_Email = email,
       us_Ctime = [], us_Mtime = []\<rparr>"

definition UserUpdate :: "'w dbms \<Rightarrow> int \<Rightarrow> int \<Rightarrow> string \<Rightarrow> string \<Rightarrow> ('w, unit) call" where
  "UserUpdate D appID userID name email =
     updateUser D \<lparr>us_ID = userID, us_AppID = appID, us_Name = name, us_Email = email,
       us_Ctime = [], us_Mtime = []\<rparr>"

definition UserGetAll :: "'w dbms \<Rightarrow> int \<Rightarrow> ('w, User list) call" where
  "UserGetAll D appID = queryAll D User_type ''user'' (eq_int ''id'' appID)"

text \<open>The listing drops the error of the token: without a valid one the filter is empty.\<close>

definition rbacUser_GET :: "'w dbms \<Rightarrow> 'w handler" where
  "rbacUser_GET D r =
     with_vars 400 page_vars r (\<lambda>vs w.
     case request_app r of
       Inl (Panic p) \<Rightarrow> (Aborted p, w)
     | app \<Rightarrow>
         (let appID = (case app of Inr i \<Rightarrow> i | Inl _ \<Rightarrow> 0);
              wh = (if appID \<noteq> 0 then eq_int ''id'' appID else []) in
          on_err 500 (query D User_type ''user'' wh (str_of vs ''Sort'') (str_of vs ''Order'')
            (int_of vs ''Offset'') (int_of vs ''Limit'')) (\<lambda>(total, us).
          answer (if total = 0 \<or> us = [] then not_found else Data (PUsers us))) w))"

definition rbacUser_PUT :: "'w dbms \<Rightarrow> 'w handler" where
  "rbacUser_PUT D r =
     with_vars 500 [var ''ID'' KInt ''user_id'' [], var ''Name'' KString ''name'' [],
       var ''Email'' KString ''email'' []] r (\<lambda>vs.
     with_app r (\<lambda>appID.
     on_err 400 (UserUpdate D appID (int_of vs ''ID'') (str_of vs ''Name'') (str_of vs ''Email'')) (\<lambda>_.
     answer Okay)))"

definition rbacUser_POST :: "'w dbms \<Rightarrow> 'w handler" where
  "rbacUser_POST D r =
     with_vars 500 [var ''Name'' KString ''name'' [], var ''Email'' KString ''email'' []] r (\<lambda>vs.
     with_app r (\<lambda>appID.
     on_err 500 (UserAdd D appID (str_of vs ''Name'') (str_of vs ''Email'')) (\<lambda>ident.
     answer (Data (PId ident)))))"

subsection \<open>Roles and their users\<close>

definition RoleUserAdd :: "'w dbms \<Rightarrow> int \<Rightarrow> int \<Rightarrow> string \<Rightarrow> string \<Rightarrow> ('w, int) call" where
  "RoleUserAdd D appID roleID name email =
     cbind (UserAdd D appID name email) (\<lambda>uid.
     add D RoleUser_type ''role_user''
       (zero_RoleUser\<lparr>ru_AppID := appID, ru_RoleID := roleID, ru_UserID := uid\<rparr>))"

definition RoleAdd :: "'w dbms \<Rightarrow> int \<Rightarrow> string \<Rightarrow> string \<Rightarrow> string \<Rightarrow> string \<Rightarrow> ('w, int) call" where
  "RoleAdd D appID name user email comments =
     cbind (UserAdd D appID user email) (\<lambda>uid.
     cbind (add D Role_type ''role'' \<lparr>ro_ID = 0, ro_AppID = appID, ro_Name = name, ro_UserID = uid,
       ro_Comments = comments, ro_Ctime = [], ro_Mtime = []\<rparr>) (\<lambda>rid.
     cbind (RoleUserAdd D appID rid user email) (\<lambda>_. creturn rid)))"

definition RoleUpdate :: "'w dbms \<Rightarrow> int \<Rightarrow> int \<Rightarrow> string \<Rightarrow> string \<Rightarrow> ('w, unit) call" where
  "RoleUpdate D appID roleID name comments =
     updateRole D \<lparr>ro_ID = roleID, ro_AppID = appID, ro_Name = name, ro_UserID = 0,
       ro_Comments = comments, ro_Ctime = [], ro_Mtime = []\<rparr>"

text \<open>The error of opening the token is returned as it is.\<close>

definition RoleGetWithToken :: "'w dbms \<Rightarrow> string \<Rightarrow> string \<Rightarrow> ('w, Role list) call" where
  "RoleGetWithToken D token email =
     cbind (cret (AesDecrypt token AesKey)) (\<lambda>buf.
     case Varint buf of (ident, n) \<Rightarrow>
     if n < 1 then craise (Error (ErrBadToken token))
     else queryAll D Role_type ''role''
       (eq_int ''app_id'' ident @ '' and role.user_id=user.id'' @
        (if email = [] then [] else '' and user.email='' @ quoted email)))"

definition role_user_join :: string where
  "role_user_join = ''role_user.role_id = role.id and role_user.user_id = user.id''"

definition and_pos :: "string \<Rightarrow> int \<Rightarrow> string" where
  "and_pos c i = (if i > 0 then '' and '' @ eq_int c i else [])"

definition and_email :: "string \<Rightarrow> string" where
  "and_email email = (if email = [] then [] else '' and user.email='' @ quoted email)"

text \<open>The end of the paged queries: a total of zero or no row is no result.\<close>

definition some_rows :: "int \<times> 'a list \<Rightarrow> int \<times> 'a list" where
  "some_rows x = (if fst x = 0 \<or> snd x = [] then (0, []) else x)"

definition RoleQuery :: "'w dbms \<Rightarrow> int \<Rightarrow> int \<Rightarrow> string \<Rightarrow> string \<Rightarrow> string \<Rightarrow> int \<Rightarrow> int \<Rightarrow>
    ('w, int \<times> RoleUser list) call" where
  "RoleQuery D appID roleID email srt ord offset lim =
     cbind (query D RoleUser_type ''role_user, role, user''
       (role_user_join @ and_pos ''role_user.app_id'' appID @ and_email email @
        and_pos ''role_user.role_id'' roleID) srt ord offset lim) (\<lambda>x. creturn (some_rows x))"

text \<open>The two messages are Chinese in the source; they are their UTF-8 bytes here.\<close>

definition err_has_users :: error where
  "err_has_users = ErrText (
      map char_of [229::nat, 189, 147, 229, 137, 141, 232, 167, 146, 232, 137, 178, 229, 183,
      178, 229, 133, 179, 232, 129, 148, 231, 148, 168, 230, 136, 183, 239, 188, 140, 228, 184,
      141, 232, 131, 189, 229, 136, 160, 233, 153, 164])"

definition err_has_resources :: error where
  "err_has_resources = ErrText (
      map char_of [229::nat, 189, 147, 229, 137, 141, 232, 167, 146, 232, 137, 178, 229, 173,
      152, 229, 156, 168, 229, 133, 179, 232, 129, 148, 232, 181, 132, 230, 186, 144, 239, 188,
      140, 228, 184, 141, 232, 131, 189, 229, 136, 160, 233, 153, 164])"

definition RoleDelete :: "'w dbms \<Rightarrow> int \<Rightarrow> int \<Rightarrow> ('w, unit) call" where
  "RoleDelete D appID roleID =
     cbind (validate D (''select id from role_user where '' @ eq_int ''app_id'' appID @ '' and '' @
       eq_int ''role_id'' roleID @ '' limit 1'')) (\<lambda>hasUsers.
     if hasUsers then craise (Error err_has_users)
     else
       cbind (validate D (''select id from role_resource where '' @ eq_int ''app_id'' appID @ '' and '' @
         eq_int ''role_id'' roleID @ '' limit 1'')) (\<lambda>hasRes.
       if hasRes then craise (Error err_has_resources)
       else
         cbind (exec D (''delete from role where '' @ eq_int ''id'' roleID @ '' and '' @
           eq_int ''app_id'' appID)) (\<lambda>_. creturn ())))"

definition rbacRole_GET :: "'w dbms \<Rightarrow> 'w handler" where
  "rbacRole_GET D r =
     with_vars 400 (var ''Query'' KInt ''query'' [] # var ''ID'' KString ''role_id'' [] # page_vars) r (\<lambda>vs.
     with_app r (\<lambda>appID.
     if int_of vs ''Query'' = 0 then
       on_err 400 (queryAll D Role_type ''role''
         (eq_int ''app_id'' appID @ '' and id='' @ str_of vs ''ID'')) (\<lambda>rs. answer (Data (PRoles rs)))
     else
       on_err 500 (query D Role_type ''role'' (eq_int ''app_id'' appID) (str_of vs ''Sort'')
         (str_of vs ''Order'') (int_of vs ''Offset'') (int_of vs ''Limit'')) (\<lambda>(total, rs).
       answer (Rows total (PRoles rs)))))"

definition rbacRole_POST :: "'w dbms \<Rightarrow> 'w handler" where
  "rbacRole_POST D r =
     with_vars 500 [var ''Name'' KString ''name'' [], var ''User'' KString ''user'' [],
       var ''Email'' KString ''email'' [], var ''Comments'' KString ''comments'' []] r (\<lambda>vs.
     with_app r (\<lambda>appID.
     on_err 500 (RoleAdd D appID (str_of vs ''Name'') (str_of vs ''User'') (str_of vs ''Email'')
       (str_of vs ''Comments'')) (\<lambda>ident. answer (Data (PId ident)))))"

definition rbacRole_PUT :: "'w dbms \<Rightarrow> 'w handler" where
  "rbacRole_PUT D r =
     with_vars 500 [var ''ID'' KInt ''role_id'' [], var ''Name'' KString ''name'' [],
       var ''Comments'' KString ''comments'' []] r (\<lambda>vs.
     with_app r (\<lambda>appID.
     on_err 400 (RoleUpdate D appID (int_of vs ''ID'') (str_of vs ''Name'') (str_of vs ''Comments'')) (\<lambda>_.
     answer Okay)))"

text \<open>The two statements of the deletion: by name, by id, and with neither an unfinished statement
  that is sent twice.\<close>

definition delete_role_users :: "int \<Rightarrow> int \<Rightarrow> string \<Rightarrow> string" where
  "delete_role_users appID ident name =
     ''delete from role_user where '' @
     (if ident \<noteq> 0 then eq_int ''app_id'' appID @ '' and '' @ eq_int ''role_id'' ident
      else if name \<noteq> [] then
        eq_int ''app_id'' appID @ '' and role_id=(select id from role where '' @ eq_int ''app_id'' appID @
        '' and name='' @ quoted name @ '')''
      else [])"

definition delete_role :: "int \<Rightarrow> int \<Rightarrow> string \<Rightarrow> string" where
  "delete_role appID ident name =
     (if ident \<noteq> 0 then ''delete from role where '' @ eq_int ''id'' ident
      else if name \<noteq> [] then
        ''delete from role where '' @ eq_int ''app_id'' appID @ '' and name='' @ quoted name
      else delete_role_users appID ident name)"

definition rbacRole_DELETE :: "'w dbms \<Rightarrow> 'w handler" where
  "rbacRole_DELETE D r =
     with_vars 400 [var ''ID'' KInt ''role_id'' [], var ''Name'' KString ''name'' []] r (\<lambda>vs.
     with_app r (\<lambda>appID.
     on_err 500 (exec D (delete_role_users appID (int_of vs ''ID'') (str_of vs ''Name''))) (\<lambda>_.
     on_err 500 (exec D (delete_role appID (int_of vs ''ID'') (str_of vs ''Name''))) (\<lambda>_.
     answer Okay))))"

definition orm_cols :: "'a gotype \<Rightarrow> ofield list" where
  "orm_cols T = map (\<lambda>f. OCol (f_Name f) (f_Kind f) (f_db f) (f_default f)) (ty_fields T)"

definition orm_vals :: "oval list \<Rightarrow> goval list" where
  "orm_vals x = map (\<lambda>v. case v of OV g \<Rightarrow> g | _ \<Rightarrow> GOther) x"

text \<open>This handler asks for no token.\<close>

definition rbacUserInfo_GET :: "'w dbms \<Rightarrow> 'w handler" where
  "rbacUserInfo_GET D r =
     with_vars 400 [var ''Email'' KString ''email'' []] r (\<lambda>vs.
     on_err 500 (GetConnection D) (\<lambda>_.
     on_err 500 (orm_one D (orm_cols User_type)
       (Where (''email='' @ quoted (str_of vs ''Email'')) (NewStmt ''user''))) (\<lambda>x.
     answer (Data (PUser (ty_make User_type (orm_vals x)))))))"

subsection \<open>Applications\<close>

definition AppAdd :: "'w dbms \<Rightarrow> string \<Rightarrow> string \<Rightarrow> string \<Rightarrow> ('w, int \<times> string) call" where
  "AppAdd D name email comments =
     cbind (add D App_type ''app'' \<lparr>ap_ID = 0, ap_Name = name, ap_Email = email, ap_Token = [],
       ap_Comments = comments, ap_Ctime = [], ap_Mtime = []\<rparr>) (\<lambda>ident.
     cbind (cret (app_token ident)) (\<lambda>token.
     cbind (updateAppToken D ident token) (\<lambda>_. creturn (ident, token))))"

definition rbacAPP_GET :: "'w dbms \<Rightarrow> 'w handler" where
  "rbacAPP_GET D r =
     with_vars 400 (var ''AppID'' KInt ''app_id'' [] # var ''Email'' KString ''email'' [] # page_vars) r (\<lambda>vs.
     on_err 400 (query D App_type ''app''
       (eq_int ''id'' (int_of vs ''AppID'') @
        (if str_of vs ''Email'' = [] then [] else '' and email='' @ quoted (str_of vs ''Email'')))
       (str_of vs ''Sort'') (str_of vs ''Order'') (int_of vs ''Offset'') (int_of vs ''Limit'')) (\<lambda>(total, as).
     answer (if total = 0 \<or> as = [] then not_found else Data (PApps as))))"

definition rbacAPP_POST :: "'w dbms \<Rightarrow> 'w handler" where
  "rbacAPP_POST D r =
     with_vars 500 [var ''Name'' KString ''name'' [], var ''Email'' KString ''email'' [],
       var ''Comments'' KString ''comments'' []] r (\<lambda>vs.
     on_err 500 (AppAdd D (str_of vs ''Name'') (str_of vs ''Email'') (str_of vs ''Comments'')) (\<lambda>(ident, token).
     answer (Data (PText token))))"

subsection \<open>Resources\<close>

definition ResourceAdd :: "'w dbms \<Rightarrow> int \<Rightarrow> string \<Rightarrow> string \<Rightarrow> ('w, int) call" where
  "ResourceAdd D appID name comments =
     add D Resource_type ''resource'' \<lparr>re_ID = 0, re_AppID = appID, re_Name = name,
       re_Comments = comments, re_Ctime = [], re_Mtime = []\<rparr>"

definition ResourceQuery :: "'w dbms \<Rightarrow> int \<Rightarrow> int \<Rightarrow> string \<Rightarrow> string \<Rightarrow> int \<Rightarrow> int \<Rightarrow>
    ('w, int \<times> Resource list) call" where
  "ResourceQuery D appID resID srt ord offset lim =
     (let w1 = (if appID > 0 then eq_int ''app_id'' appID else []);
          w2 = (if resID > 0 then (if w1 = [] then [] else w1 @ '' and '') @ eq_int '' id'' resID else w1) in
      query D Resource_type ''resource'' w2 srt ord offset lim)"

definition resource_ids :: "int \<Rightarrow> int list \<Rightarrow> string" where
  "resource_ids appID resID =
     (let s = eq_int ''app_id'' appID @ '' and id in ('' @ concat (map (\<lambda>i. show_int i @ '','') resID) in
      take (length s - 1) s @ '')'')"

definition ResourceGet :: "'w dbms \<Rightarrow> int \<Rightarrow> int list \<Rightarrow> ('w, Resource list) call" where
  "ResourceGet D appID resID =
     cbind (query D Resource_type ''resource'' (resource_ids appID resID) [] [] 0 0) (\<lambda>(_, rs). creturn rs)"

definition ResourceDelete :: "'w dbms \<Rightarrow> int \<Rightarrow> ('w, unit) call" where
  "ResourceDelete D resID =
     cbind (exec D (''delete from resource where '' @ eq_int ''id'' resID)) (\<lambda>_.
     cbind (exec D (''delete from role_resource where '' @ eq_int ''resource_id'' resID)) (\<lambda>_. creturn ()))"

definition rbacResource_GET :: "'w dbms \<Rightarrow> 'w handler" where
  "rbacResource_GET D r =
     with_vars 400 (var ''ID'' KInt ''id'' [] # var ''Query'' KInt ''query'' [] # page_vars) r (\<lambda>vs.
     with_app r (\<lambda>appID.
     if int_of vs ''Query'' = 0 then
       on_err 400 (ResourceGet D appID [int_of vs ''ID'']) (\<lambda>rs. answer (Data (PResources rs)))
     else
       on_err 500 (ResourceQuery D appID 0 (str_of vs ''Sort'') (str_of vs ''Order'')
         (int_of vs ''Offset'') (int_of vs ''Limit'')) (\<lambda>(total, rs).
       answer (if total = 0 \<or> rs = [] then not_found else Data (PResources rs)))))"

definition rbacResource_POST :: "'w dbms \<Rightarrow> 'w handler" where
  "rbacResource_POST D r =
     with_vars 500 [var ''Name'' KString ''Name'' [], var ''Comments'' KString ''Comments'' []] r (\<lambda>vs.
     with_app r (\<lambda>appID.
     on_err 500 (ResourceAdd D appID (str_of vs ''Name'') (str_of vs ''Comments'')) (\<lambda>ident.
     answer (Data (PId ident)))))"

text \<open>The id is read from the query string; the token is checked and its application then ignored.\<close>

definition rbacResource_DELETE :: "'w dbms \<Rightarrow> 'w handler" where
  "rbacResource_DELETE D r =
     with_app r (\<lambda>appID.
     case parse_int 10 (values_get (url_Query (rq_URL r)) ''id'') of (ident, ok) \<Rightarrow>
     if \<not> ok then answer (Refuse 500 (ErrText ''strconv.ParseInt''))
     else on_err 500 (ResourceDelete D ident) (\<lambda>_. answer Okay))"

subsection \<open>Relations\<close>

definition RoleResourceQuery :: "'w dbms \<Rightarrow> int \<Rightarrow> int \<Rightarrow> int \<Rightarrow> string \<Rightarrow> string \<Rightarrow> int \<Rightarrow> int \<Rightarrow>
    ('w, int \<times> RoleResource list) call" where
  "RoleResourceQuery D appID resID roleID srt ord offset lim =
     cbind (query D RoleResource_type ''role_resource, role, resource''
       (''role_resource.role_id = role.id and role_resource.resource_id = resource.id'' @
        and_pos ''role_resource.app_id'' appID @ and_pos ''resource.id'' resID @ and_pos ''role.id'' roleID)
       srt ord offset lim) (\<lambda>x. creturn (some_rows x))"

definition RelationUserQuery :: "'w dbms \<Rightarrow> int \<Rightarrow> int \<Rightarrow> string \<Rightarrow> string \<Rightarrow> int \<Rightarrow> int \<Rightarrow>
    ('w, int \<times> RoleUser list) call" where
  "RelationUserQuery D appID roleID srt ord offset lim =
     cbind (query D RoleUser_type ''role_user, role, user''
       (role_user_join @ and_pos ''role_user.app_id'' appID @ and_pos ''role_user.role_id'' roleID)
       srt ord offset lim) (\<lambda>x. creturn (some_rows x))"

definition RelationRoleQuery :: "'w dbms \<Rightarrow> int \<Rightarrow> string \<Rightarrow> string \<Rightarrow> string \<Rightarrow> int \<Rightarrow> int \<Rightarrow>
    ('w, int \<times> RoleUser list) call" where
  "RelationRoleQuery D appID email srt ord offset lim =
     cbind (query D RoleUser_type ''role_user, role, user''
       (role_user_join @ and_pos ''role_user.app_id'' appID @ and_email email)
       srt ord offset lim) (\<lambda>x. creturn (some_rows x))"

definition RelationRoleUserQuery :: "'w dbms \<Rightarrow> int \<Rightarrow> int \<Rightarrow> string \<Rightarrow> string \<Rightarrow> string \<Rightarrow> int \<Rightarrow> int \<Rightarrow>
    ('w, int \<times> RoleUser list) call" where
  "RelationRoleUserQuery D appID roleID email srt ord offset lim =
     cbind (query D RoleUser_type ''role_user, role, user''
       (role_user_join @ and_pos ''role_user.app_id'' appID @ and_pos ''role_user.role_id'' roleID @
        and_email email) srt ord offset lim) (\<lambda>x. creturn (some_rows x))"

definition UnrelatedResourceRoles :: "'w dbms \<Rightarrow> int \<Rightarrow> int \<Rightarrow> string \<Rightarrow> string \<Rightarrow> string \<Rightarrow> int \<Rightarrow> int \<Rightarrow>
    ('w, int \<times> Role list) call" where
  "UnrelatedResourceRoles D appID resourceID email srt ord offset lim =
     cbind (query D Role_type ''role''
       (''id NOT in (select role_resource.role_id from role_resource where role_resource.resource_id = '' @
        show_int resourceID @ '')'' @
        (if email = [] then []
         else '' and role.user_id = (select id from user where user.email = '' @ quoted email @ '') ''))
       srt ord offset lim) (\<lambda>x. creturn (some_rows x))"

definition RoleUserGet :: "'w dbms \<Rightarrow> int \<Rightarrow> int \<Rightarrow> string \<Rightarrow> ('w, RoleUser list) call" where
  "RoleUserGet D appID roleID email =
     queryAll D RoleUser_type ''role_user, role, user''
       (role_user_join @ and_pos ''role_user.app_id'' appID @ and_email email @ and_pos ''role_id'' roleID)"

definition RelationResourceRoleAdd :: "'w dbms \<Rightarrow> int \<Rightarrow> int \<Rightarrow> int \<Rightarrow> ('w, int) call" where
  "RelationResourceRoleAdd D appID resourceID roleID =
     add D RoleResource_type ''role_resource''
       (zero_RoleResource\<lparr>rr_AppID := appID, rr_RoleID := roleID, rr_ResourceID := resourceID\<rparr>)"

definition RelationResourceRoleDel :: "'w dbms \<Rightarrow> int \<Rightarrow> int \<Rightarrow> int \<Rightarrow> ('w, unit) call" where
  "RelationResourceRoleDel D appID resID roleID =
     cbind (exec D (''delete from role_resource where '' @ eq_int ''app_id'' appID @ '' and '' @
       eq_int ''resource_id'' resID @ '' and '' @ eq_int ''role_id'' roleID)) (\<lambda>_. creturn ())"

definition RelationUserRoleDel :: "'w dbms \<Rightarrow> int \<Rightarrow> int \<Rightarrow> string \<Rightarrow> string \<Rightarrow> ('w, unit) call" where
  "RelationUserRoleDel D appID roleID email owner =
     cbind (if owner = [] then creturn True
            else validate D (''select id from role where '' @ eq_int ''id'' roleID @
              '' and user_id=(select id from user where email='' @ quoted owner @ '')'')) (\<lambda>allowed.
     if \<not> allowed then craise (Error (ErrText (''user:'' @ email @ '' is not role owner'')))
     else
       cbind (exec D (''delete from role_user where '' @ eq_int ''app_id'' appID @ '' and '' @
         eq_int ''role_id'' roleID @ '' and user_id=(select id from user where email='' @
         quoted email @ '')'')) (\<lambda>_. creturn ()))"

definition RelationValidate :: "'w dbms \<Rightarrow> int \<Rightarrow> int \<Rightarrow> string \<Rightarrow> ('w, unit) call" where
  "RelationValidate D appID resID email =
     cbind (validate D (''select id from role_resource where '' @ eq_int ''app_id'' appID @ '' and '' @
       eq_int ''resource_id'' resID @ '' and role_id in (select role_id from role_user where user_id = '' @
       ''(select id from user where email='' @ quoted email @ ''))'')) (\<lambda>found.
     if found then creturn () else craise (Error (ErrText ''relation not exist'')))"

definition resource_id_type :: "int gotype" where
  "resource_id_type =
     \<lparr>ty_fields = [tcol ''ID'' KInt ''DISTINCT role_resource.resource_id'' []],
      ty_make = (\<lambda>v. gint (v ! 0)), ty_vals = (\<lambda>i. [GInt i])\<rparr>"

definition UserResourceGet :: "'w dbms \<Rightarrow> int \<Rightarrow> string \<Rightarrow> ('w, int list) call" where
  "UserResourceGet D appID email =
     queryAll D resource_id_type ''role_resource''
       (eq_int ''app_id'' appID @ '' and role_id in  (select role_id from role_user where role_user.user_id = '' @
        ''(select id from user where email='' @ quoted email @ '' and '' @ eq_int ''app_id'' appID @ ''))'')"

definition RoleUserDelete :: "'w dbms \<Rightarrow> int \<Rightarrow> int \<Rightarrow> string \<Rightarrow> ('w, unit) call" where
  "RoleUserDelete D appID roleID email =
     cbind (exec D (''delete from role_user where '' @ eq_int ''app_id'' appID @ '' and '' @
       eq_int ''role_id'' roleID @ '' and user_id = (select id from user where '' @ eq_int ''app_id'' appID @
       '' and email='' @ quoted email @ '')'')) (\<lambda>_. creturn ())"

definition RoleResourceDelete :: "'w dbms \<Rightarrow> int \<Rightarrow> int \<Rightarrow> int \<Rightarrow> ('w, unit) call" where
  "RoleResourceDelete D appID roleID resourceID =
     cbind (exec D (''delete from role_resource where '' @ eq_int ''app_id'' appID @ '' and '' @
       eq_int ''role_id'' roleID @ '' and resource_id = '' @ show_int resourceID)) (\<lambda>_. creturn ())"

text \<open>The end of the listings: no row is 404, otherwise the bare rows or the rows with the total.\<close>

definition send_list :: "bool \<Rightarrow> ('a list \<Rightarrow> payload) \<Rightarrow> int \<times> 'a list \<Rightarrow> 'w \<Rightarrow> payload reply \<times> 'w" where
  "send_list bare f x =
     answer (if snd x = [] then not_found
             else if bare then Plain (f (snd x)) else Rows (fst x) (f (snd x)))"

definition rbacRoleResource_GET :: "'w dbms \<Rightarrow> 'w handler" where
  "rbacRoleResource_GET D r =
     with_vars 400 (var ''API'' KInt ''api'' [] # var ''ResourceID'' KInt ''resource_id'' [] #
       var ''RoleID'' KInt ''role_id'' [] # page_vars) r (\<lambda>vs.
     with_app r (\<lambda>appID.
     on_err 400 (RoleResourceQuery D appID (int_of vs ''ResourceID'') (int_of vs ''RoleID'')
       (str_of vs ''Sort'') (str_of vs ''Order'') (int_of vs ''Offset'') (int_of vs ''Limit''))
     (send_list (int_of vs ''API'' = 1) PRoleResources)))"

definition rbacRoleResource_POST :: "'w dbms \<Rightarrow> 'w handler" where
  "rbacRoleResource_POST D r =
     with_vars 500 [var ''RoleID'' KInt ''role_id'' [], var ''ResourceID'' KInt ''resource_id'' []] r (\<lambda>vs.
     with_app r (\<lambda>appID.
     on_err 500 (add D RoleResource_type ''role_resource''
       (zero_RoleResource\<lparr>rr_AppID := appID, rr_RoleID := int_of vs ''RoleID'',
         rr_ResourceID := int_of vs ''ResourceID''\<rparr>)) (\<lambda>ident. answer (Data (PId ident)))))"

definition rbacRoleResource_DELETE :: "'w dbms \<Rightarrow> 'w handler" where
  "rbacRoleResource_DELETE D r =
     with_vars 400 [var ''ResourceID'' KInt ''resource_id'' [], var ''RoleID'' KInt ''role_id'' []] r (\<lambda>vs.
     with_app r (\<lambda>appID.
     on_err 400 (RoleResourceDelete D appID (int_of vs ''RoleID'') (int_of vs ''ResourceID'')) (\<lambda>_.
     answer Okay)))"

definition rbacRoleUser_GET :: "'w dbms \<Rightarrow> 'w handler" where
  "rbacRoleUser_GET D r =
     with_vars 400 (var ''Query'' KInt ''query'' [] # var ''Email'' KString ''email'' [] #
       var ''RoleID'' KInt ''role_id'' [] # page_vars) r (\<lambda>vs.
     with_app r (\<lambda>appID.
     on_err 400 (RelationRoleUserQuery D appID (int_of vs ''RoleID'') (str_of vs ''Email'')
       (str_of vs ''Sort'') (str_of vs ''Order'') (int_of vs ''Offset'') (int_of vs ''Limit''))
     (send_list (int_of vs ''Query'' = 0) PRoleUsers)))"

definition rbacRoleUser_POST :: "'w dbms \<Rightarrow> 'w handler" where
  "rbacRoleUser_POST D r =
     with_vars 500 [var ''Name'' KString ''name'' [], var ''Email'' KString ''email'' [],
       var ''RoleID'' KInt ''role_id'' []] r (\<lambda>vs.
     with_app r (\<lambda>appID.
     on_err 500 (RoleUserAdd D appID (int_of vs ''RoleID'') (str_of vs ''Name'') (str_of vs ''Email'')) (\<lambda>ident.
     answer (Data (PId ident)))))"

definition rbacRoleUser_DELETE :: "'w dbms \<Rightarrow> 'w handler" where
  "rbacRoleUser_DELETE D r =
     with_vars 500 [var ''Email'' KString ''email'' [], var ''RoleID'' KInt ''role_id'' []] r (\<lambda>vs.
     with_app r (\<lambda>appID.
     on_err 500 (RoleUserDelete D appID (int_of vs ''RoleID'') (str_of vs ''Email'')) (\<lambda>_. answer Okay)))"

definition userResource_GET :: "'w dbms \<Rightarrow> 'w handler" where
  "userResource_GET D r =
     with_app r (\<lambda>ident.
     on_err 400 (UserResourceGet D ident (values_get (url_Query (rq_URL r)) ''email'')) (\<lambda>ids.
     if ids = [] then answer (Plain PNoResources)
     else on_err 400 (ResourceGet D ident ids) (\<lambda>res. answer (Plain (PResources res)))))"

definition userRole_GET :: "'w dbms \<Rightarrow> 'w handler" where
  "userRole_GET D r =
     with_vars 400 (var ''Query'' KInt ''query'' [] # var ''Email'' KString ''email'' [] # page_vars) r (\<lambda>vs.
     with_app r (\<lambda>appID.
     on_err 400 (RelationRoleUserQuery D appID 0 (str_of vs ''Email'') (str_of vs ''Sort'')
       (str_of vs ''Order'') (int_of vs ''Offset'') (int_of vs ''Limit''))
     (send_list (int_of vs ''Query'' = 0) PRoleUsers)))"

definition resourceRolesUnrelated_GET :: "'w dbms \<Rightarrow> 'w handler" where
  "resourceRolesUnrelated_GET D r =
     with_vars 400 (var ''Query'' KInt ''query'' [] # var ''ResourceID'' KInt ''resource_id'' [] #
       var ''Email'' KString ''email'' [] # page_vars) r (\<lambda>vs.
     with_app r (\<lambda>appID.
     on_err 400 (UnrelatedResourceRoles D appID (int_of vs ''ResourceID'') (str_of vs ''Email'')
       (str_of vs ''Sort'') (str_of vs ''Order'') (int_of vs ''Offset'') (int_of vs ''Limit''))
     (send_list (int_of vs ''Query'' = 0) PRoles)))"

subsection \<open>Routes\<close>

definition rbac_object :: "string \<Rightarrow> (string \<times> 'w handler) list \<Rightarrow> 'w handler object" where
  "rbac_object name ms =
     \<lparr>ob_type = ''*rbac.'' @ name, ob_ptr = True, ob_methods = map (\<lambda>(meth, h). (meth, True, h)) ms\<rparr>"

definition ServerInit :: "'w dbms \<Rightarrow> 'w handler registration list" where
  "ServerInit D =
     [AtPath (rbac_object ''rbacUser'' [(''GET'', rbacUser_GET D), (''POST'', rbacUser_POST D),
        (''PUT'', rbacUser_PUT D)]) ''/rbac/user/'',
      AtPath (rbac_object ''rbacUserInfo'' [(''GET'', rbacUserInfo_GET D)]) ''/rbac/user/info/'',
      AtPath (rbac_object ''userRole'' [(''GET'', userRole_GET D)]) ''/rbac/user/role/'',
      AtPath (rbac_object ''rbacRoleUser'' [(''DELETE'', rbacRoleUser_DELETE D),
        (''GET'', rbacRoleUser_GET D), (''POST'', rbacRoleUser_POST D)]) ''/rbac/role/user/'',
      AtPath (rbac_object ''rbacRoleResource'' [(''DELETE'', rbacRoleResource_DELETE D),
        (''GET'', rbacRoleResource_GET D), (''POST'', rbacRoleResource_POST D)]) ''/rbac/role/resource/'',
      AtPath (rbac_object ''resourceRolesUnrelated'' [(''GET'', resourceRolesUnrelated_GET D)])
        ''/rbac/resource/role/unrelated/'',
      AtPath (rbac_object ''rbacRole'' [(''DELETE'', rbacRole_DELETE D), (''GET'', rbacRole_GET D),
        (''POST'', rbacRole_POST D), (''PUT'', rbacRole_PUT D)]) ''/rbac/role/'',
      AtPath (rbac_object ''rbacAPP'' [(''GET'', rbacAPP_GET D), (''POST'', rbacAPP_POST D)]) ''/rbac/app/'',
      AtPath (rbac_object ''rbacResource'' [(''DELETE'', rbacResource_DELETE D),
        (''GET'', rbacResource_GET D), (''POST'', rbacResource_POST D)]) ''/rbac/resource/'',
      AtPath (rbac_object ''userResource'' [(''GET'', userResource_GET D)]) ''/rbac/user/resource/'']"

definition rbac_serve :: "'w dbms \<Rightarrow> 'w handler" where
  "rbac_serve D = serve (router (ServerInit D))"

end
