(* ===== verification/MySql.thy ===== *)
theory MySql
  imports Sql "HOL-Library.Multiset"
begin

text \<open>
  What the programs rely on of the database server: the meaning of the statements they send, for the
  fragment of MySQL's language that they use.

  A statement text is cut into tokens, the tokens are parsed to a statement, and the statement is run
  on a database of tables.  The server itself stays a parameter: the locale \<open>sql_server\<close> says that it
  may fail at any statement without a change, that otherwise a query answers the rows of the reference
  in some order, and that an update leaves the tables the reference computes, with an id of its own
  choice for a new row.  The reference server at the end is one such server.

  The fragment has comparisons for equality, \<open>and\<close>, \<open>or\<close>, membership in a list or in a subquery,
  scalar subqueries, joins by product, \<open>distinct\<close>, \<open>count(*)\<close>, \<open>limit\<close>, and insertion with
  \<open>on duplicate key update\<close>, with three-valued logic.  Strings compare by the collation of the
  database.  A text outside the fragment has no statement, and the reference says nothing of it.
\<close>

section \<open>Definitions\<close>

subsection \<open>Tokens\<close>

datatype 'l tok = TId string | TLit 'l | TSym char

datatype lexst = LNone | LWord string | LNum string | LStr string | LEnd string | LEsc string
  | LQuo string | LBad

definition letter :: "char \<Rightarrow> bool" where
  "letter c = (CHR ''a'' \<le> c \<and> c \<le> CHR ''z'' \<or> CHR ''A'' \<le> c \<and> c \<le> CHR ''Z'' \<or> c = CHR ''_'')"

definition decimal :: "char \<Rightarrow> bool" where
  "decimal c = (CHR ''0'' \<le> c \<and> c \<le> CHR ''9'')"

definition blank :: "char \<Rightarrow> bool" where
  "blank c = (c \<in> {CHR '' '', CHR 0x09, CHR 0x0A, CHR 0x0D})"

text \<open>A character outside a token, and a character inside one; the emitted tokens come first.\<close>

definition lex_start :: "char \<Rightarrow> sqlval tok list \<times> lexst" where
  "lex_start c =
     (if blank c then ([], LNone)
      else if letter c then ([], LWord [c])
      else if decimal c \<or> c = CHR ''-'' then ([], LNum [c])
      else if c = CHR 0x27 then ([], LStr [])
      else if c = CHR 0x60 then ([], LQuo [])
      else if c \<in> set ''(),=.?*'' then ([TSym c], LNone)
      else ([], LBad))"

definition lex_escape :: "char \<Rightarrow> char" where
  "lex_escape c =
     (if c = CHR ''n'' then CHR 0x0A else if c = CHR ''t'' then CHR 0x09
      else if c = CHR ''r'' then CHR 0x0D else if c = CHR ''0'' then CHR 0x00
      else if c = CHR ''b'' then CHR 0x08 else if c = CHR ''Z'' then CHR 0x1A else c)"

definition lex_close :: "sqlval tok \<Rightarrow> char \<Rightarrow> sqlval tok list \<times> lexst" where
  "lex_close t c = (case lex_start c of (ts, st) \<Rightarrow> (t # ts, st))"

definition num_tok :: "string \<Rightarrow> sqlval tok option" where
  "num_tok a = (case parse_int 10 (rev a) of (i, ok) \<Rightarrow> if ok then Some (TLit (SInt i)) else None)"

fun lex_step :: "lexst \<Rightarrow> char \<Rightarrow> sqlval tok list \<times> lexst" where
  "lex_step LNone c = lex_start c"
| "lex_step (LWord a) c =
     (if letter c \<or> decimal c then ([], LWord (c # a)) else lex_close (TId (to_lower (rev a))) c)"
| "lex_step (LNum a) c =
     (if decimal c then ([], LNum (c # a))
      else if letter c \<or> c = CHR ''.'' then ([], LBad)
      else (case num_tok a of Some t \<Rightarrow> lex_close t c | None \<Rightarrow> ([], LBad)))"
| "lex_step (LStr a) c =
     (if c = CHR 0x27 then ([], LEnd a) else if c = CHR 0x5C then ([], LEsc a) else ([], LStr (c # a)))"
| "lex_step (LEnd a) c = (if c = CHR 0x27 then ([], LStr (c # a)) else lex_close (TLit (SStr (rev a))) c)"
| "lex_step (LEsc a) c = ([], LStr (lex_escape c # a))"
| "lex_step (LQuo a) c = (if c = CHR 0x60 then ([TId (to_lower (rev a))], LNone) else ([], LQuo (c # a)))"
| "lex_step LBad c = ([], LBad)"

fun lex_run :: "lexst \<Rightarrow> string \<Rightarrow> sqlval tok list \<times> lexst" where
  "lex_run st [] = ([], st)"
| "lex_run st (c # s) =
     (case lex_step st c of (ts, st1) \<Rightarrow> case lex_run st1 s of (us, st2) \<Rightarrow> (ts @ us, st2))"

fun lex_finish :: "lexst \<Rightarrow> sqlval tok list option" where
  "lex_finish LNone = Some []"
| "lex_finish (LWord a) = Some [TId (to_lower (rev a))]"
| "lex_finish (LNum a) = map_option (\<lambda>t. [t]) (num_tok a)"
| "lex_finish (LEnd a) = Some [TLit (SStr (rev a))]"
| "lex_finish _ = None"

definition sql_lex :: "string \<Rightarrow> sqlval tok list option" where
  "sql_lex s = (case lex_run LNone s of (ts, st) \<Rightarrow> map_option (\<lambda>us. ts @ us) (lex_finish st))"

text \<open>The arguments take the places of the question marks.\<close>

fun bind_args :: "'l tok list \<Rightarrow> 'l list \<Rightarrow> 'l tok list option" where
  "bind_args [] arg = (if arg = [] then Some [] else None)"
| "bind_args (t # ts) arg =
     (case t of
        TSym c \<Rightarrow>
          if c = CHR ''?'' then
            (case arg of [] \<Rightarrow> None | v # arg' \<Rightarrow> map_option (\<lambda>us. TLit v # us) (bind_args ts arg'))
          else map_option (\<lambda>us. t # us) (bind_args ts arg)
      | _ \<Rightarrow> map_option (\<lambda>us. t # us) (bind_args ts arg))"

subsection \<open>Statements\<close>

type_synonym colref = "string option \<times> string"

datatype 'l expr =
    ETrue
  | ELit 'l
  | ECol colref
  | EEq "'l expr" "'l expr"
  | EAnd "'l expr" "'l expr"
  | EOr "'l expr" "'l expr"
  | EIn "'l expr" "'l expr list"
  | EInQ bool "'l expr" "'l select"
  | ESub "'l select"
  | ENow
  | ELast "'l expr"
and 'l select =
    Sel bool "colref list option" "string list" "'l expr" "(colref \<times> bool) option" "('l option \<times> 'l) option"

datatype 'l stmt =
    SSelect "'l select"
  | SInsert string "string list" "'l expr list" "(string \<times> 'l expr) list"
  | SUpdate string "(string \<times> 'l expr) list" "'l expr"
  | SDelete string "'l expr"

fun eat :: "string \<Rightarrow> 'l tok list \<Rightarrow> 'l tok list option" where
  "eat w (TId x # ts) = (if x = w then Some ts else None)"
| "eat w _ = None"

fun eats :: "char \<Rightarrow> 'l tok list \<Rightarrow> 'l tok list option" where
  "eats c (TSym x # ts) = (if x = c then Some ts else None)"
| "eats c _ = None"

definition reserved :: "string \<Rightarrow> bool" where
  "reserved w = (w \<in> set [''select'', ''from'', ''where'', ''and'', ''or'', ''not'', ''in'', ''order'', ''by'',
     ''limit'', ''distinct'', ''insert'', ''into'', ''values'', ''on'', ''duplicate'', ''update'', ''set'',
     ''delete'', ''asc'', ''desc''])"

fun p_ident :: "'l tok list \<Rightarrow> (string \<times> 'l tok list) option" where
  "p_ident (TId x # ts) = (if reserved x then None else Some (x, ts))"
| "p_ident _ = None"

definition p_colref :: "'l tok list \<Rightarrow> (colref \<times> 'l tok list) option" where
  "p_colref ts =
     Option.bind (p_ident ts) (\<lambda>(x, r).
     case eats CHR ''.'' r of
       None \<Rightarrow> Some ((None, x), r)
     | Some r1 \<Rightarrow> Option.bind (p_ident r1) (\<lambda>(y, r2). Some ((Some x, y), r2)))"

fun p_colrefs :: "nat \<Rightarrow> 'l tok list \<Rightarrow> (colref list \<times> 'l tok list) option" where
  "p_colrefs 0 ts = None"
| "p_colrefs (Suc n) ts =
     Option.bind (p_colref ts) (\<lambda>(c, r).
     case eats CHR '','' r of
       None \<Rightarrow> Some ([c], r)
     | Some r1 \<Rightarrow> Option.bind (p_colrefs n r1) (\<lambda>(cs, r2). Some (c # cs, r2)))"

fun p_idents :: "nat \<Rightarrow> 'l tok list \<Rightarrow> (string list \<times> 'l tok list) option" where
  "p_idents 0 ts = None"
| "p_idents (Suc n) ts =
     Option.bind (p_ident ts) (\<lambda>(c, r).
     case eats CHR '','' r of
       None \<Rightarrow> Some ([c], r)
     | Some r1 \<Rightarrow> Option.bind (p_idents n r1) (\<lambda>(cs, r2). Some (c # cs, r2)))"

fun p_lit :: "'l tok list \<Rightarrow> ('l \<times> 'l tok list) option" where
  "p_lit (TLit l # ts) = Some (l, ts)"
| "p_lit _ = None"

text \<open>What a select returns: all the columns of a list, with or without duplicates, or the count.\<close>

definition p_what :: "nat \<Rightarrow> 'l tok list \<Rightarrow> ((bool \<times> colref list option) \<times> 'l tok list) option" where
  "p_what n ts =
     (case eat ''count'' ts of
        Some r \<Rightarrow>
          Option.bind (eats CHR ''('' r) (\<lambda>r1. Option.bind (eats CHR ''*'' r1) (\<lambda>r2.
          Option.bind (eats CHR '')'' r2) (\<lambda>r3. Some ((False, None), r3))))
      | None \<Rightarrow>
          (case eat ''distinct'' ts of
             Some r \<Rightarrow> Option.bind (p_colrefs n r) (\<lambda>(cs, r1). Some ((True, Some cs), r1))
           | None \<Rightarrow> Option.bind (p_colrefs n ts) (\<lambda>(cs, r1). Some ((False, Some cs), r1))))"

definition p_order :: "'l tok list \<Rightarrow> ((colref \<times> bool) option \<times> 'l tok list) option" where
  "p_order ts =
     (case eat ''order'' ts of
        None \<Rightarrow> Some (None, ts)
      | Some r \<Rightarrow>
          Option.bind (eat ''by'' r) (\<lambda>r1. Option.bind (p_colref r1) (\<lambda>(c, r2).
          case eat ''desc'' r2 of
            Some r3 \<Rightarrow> Some (Some (c, False), r3)
          | None \<Rightarrow>
              (case eat ''asc'' r2 of
                 Some r3 \<Rightarrow> Some (Some (c, True), r3)
               | None \<Rightarrow> Some (Some (c, True), r2)))))"

definition p_limit :: "'l tok list \<Rightarrow> (('l option \<times> 'l) option \<times> 'l tok list) option" where
  "p_limit ts =
     (case eat ''limit'' ts of
        None \<Rightarrow> Some (None, ts)
      | Some r \<Rightarrow>
          Option.bind (p_lit r) (\<lambda>(a, r1).
          case eats CHR '','' r1 of
            None \<Rightarrow> Some (Some (None, a), r1)
          | Some r2 \<Rightarrow> Option.bind (p_lit r2) (\<lambda>(b, r3). Some (Some (Some a, b), r3))))"

function (sequential) p_or :: "nat \<Rightarrow> 'l tok list \<Rightarrow> ('l expr \<times> 'l tok list) option"
  and p_and :: "nat \<Rightarrow> 'l tok list \<Rightarrow> ('l expr \<times> 'l tok list) option"
  and p_cmp :: "nat \<Rightarrow> 'l tok list \<Rightarrow> ('l expr \<times> 'l tok list) option"
  and p_set :: "nat \<Rightarrow> bool \<Rightarrow> 'l expr \<Rightarrow> 'l tok list \<Rightarrow> ('l expr \<times> 'l tok list) option"
  and p_list :: "nat \<Rightarrow> 'l tok list \<Rightarrow> ('l expr list \<times> 'l tok list) option"
  and p_atom :: "nat \<Rightarrow> 'l tok list \<Rightarrow> ('l expr \<times> 'l tok list) option"
  and p_select :: "nat \<Rightarrow> 'l tok list \<Rightarrow> ('l select \<times> 'l tok list) option" where
  "p_or 0 ts = None"
| "p_or (Suc n) ts =
     Option.bind (p_and n ts) (\<lambda>(a, r).
     case eat ''or'' r of
       None \<Rightarrow> Some (a, r)
     | Some r1 \<Rightarrow> Option.bind (p_or n r1) (\<lambda>(b, r2). Some (EOr a b, r2)))"
| "p_and 0 ts = None"
| "p_and (Suc n) ts =
     Option.bind (p_cmp n ts) (\<lambda>(a, r).
     case eat ''and'' r of
       None \<Rightarrow> Some (a, r)
     | Some r1 \<Rightarrow> Option.bind (p_and n r1) (\<lambda>(b, r2). Some (EAnd a b, r2)))"
| "p_cmp 0 ts = None"
| "p_cmp (Suc n) ts =
     Option.bind (p_atom n ts) (\<lambda>(a, r).
     case eats CHR ''='' r of
       Some r1 \<Rightarrow> Option.bind (p_atom n r1) (\<lambda>(b, r2). Some (EEq a b, r2))
     | None \<Rightarrow>
         (case eat ''in'' r of
            Some r1 \<Rightarrow> p_set n False a r1
          | None \<Rightarrow>
              (case eat ''not'' r of
                 Some r1 \<Rightarrow> Option.bind (eat ''in'' r1) (p_set n True a)
               | None \<Rightarrow> Some (a, r))))"
| "p_set 0 neg a ts = None"
| "p_set (Suc n) neg a ts =
     Option.bind (eats CHR ''('' ts) (\<lambda>r.
     case eat ''select'' r of
       Some r1 \<Rightarrow>
         Option.bind (p_select n r1) (\<lambda>(q, r2).
         Option.bind (eats CHR '')'' r2) (\<lambda>r3. Some (EInQ neg a q, r3)))
     | None \<Rightarrow>
         Option.bind (p_list n r) (\<lambda>(es, r2).
         Option.bind (eats CHR '')'' r2) (\<lambda>r3. if neg then None else Some (EIn a es, r3))))"
| "p_list 0 ts = None"
| "p_list (Suc n) ts =
     Option.bind (p_atom n ts) (\<lambda>(a, r).
     case eats CHR '','' r of
       None \<Rightarrow> Some ([a], r)
     | Some r1 \<Rightarrow> Option.bind (p_list n r1) (\<lambda>(es, r2). Some (a # es, r2)))"
| "p_atom 0 ts = None"
| "p_atom (Suc n) ts =
     (case eats CHR ''('' ts of
        Some r \<Rightarrow>
          (case eat ''select'' r of
             Some r1 \<Rightarrow>
               Option.bind (p_select n r1) (\<lambda>(q, r2).
               Option.bind (eats CHR '')'' r2) (\<lambda>r3. Some (ESub q, r3)))
           | None \<Rightarrow>
               Option.bind (p_or n r) (\<lambda>(e, r2).
               Option.bind (eats CHR '')'' r2) (\<lambda>r3. Some (e, r3))))
      | None \<Rightarrow>
          (case p_lit ts of
             Some (l, r) \<Rightarrow> Some (ELit l, r)
           | None \<Rightarrow>
               Option.bind (p_colref ts) (\<lambda>(c, r).
               case eats CHR ''('' r of
                 None \<Rightarrow> Some (ECol c, r)
               | Some r1 \<Rightarrow>
                   if c = (None, ''now'') then Option.bind (eats CHR '')'' r1) (\<lambda>r2. Some (ENow, r2))
                   else if c = (None, ''last_insert_id'') then
                     Option.bind (p_or n r1) (\<lambda>(e, r2).
                     Option.bind (eats CHR '')'' r2) (\<lambda>r3. Some (ELast e, r3)))
                   else None)))"
| "p_select 0 ts = None"
| "p_select (Suc n) ts =
     Option.bind (p_what n ts) (\<lambda>((dist, cs), r).
     Option.bind (eat ''from'' r) (\<lambda>r1.
     Option.bind (p_idents n r1) (\<lambda>(tbs, r2).
     Option.bind (case eat ''where'' r2 of None \<Rightarrow> Some (ETrue, r2) | Some r3 \<Rightarrow> p_or n r3) (\<lambda>(wh, r4).
     Option.bind (p_order r4) (\<lambda>(ob, r5).
     Option.bind (p_limit r5) (\<lambda>(lm, r6).
     Some (Sel dist cs tbs wh ob lm, r6)))))))"
  by pat_completeness auto
termination
  by (relation "measure (case_sum
        (case_sum fst (case_sum fst fst))
        (case_sum (case_sum fst fst) (case_sum fst fst)))") simp_all

fun p_assigns :: "nat \<Rightarrow> 'l tok list \<Rightarrow> ((string \<times> 'l expr) list \<times> 'l tok list) option" where
  "p_assigns 0 ts = None"
| "p_assigns (Suc n) ts =
     Option.bind (p_ident ts) (\<lambda>(c, r).
     Option.bind (eats CHR ''='' r) (\<lambda>r1.
     Option.bind (p_atom n r1) (\<lambda>(e, r2).
     case eats CHR '','' r2 of
       None \<Rightarrow> Some ([(c, e)], r2)
     | Some r3 \<Rightarrow> Option.bind (p_assigns n r3) (\<lambda>(as, r4). Some ((c, e) # as, r4)))))"

definition p_end :: "'a \<Rightarrow> 'l tok list \<Rightarrow> 'a option" where
  "p_end x ts = (if ts = [] then Some x else None)"

definition p_where :: "nat \<Rightarrow> 'l tok list \<Rightarrow> ('l expr \<times> 'l tok list) option" where
  "p_where n ts = (case eat ''where'' ts of None \<Rightarrow> Some (ETrue, ts) | Some r \<Rightarrow> p_or n r)"

definition p_dup :: "nat \<Rightarrow> 'l tok list \<Rightarrow> ((string \<times> 'l expr) list \<times> 'l tok list) option" where
  "p_dup n ts =
     (case eat ''on'' ts of
        None \<Rightarrow> Some ([], ts)
      | Some r \<Rightarrow>
          Option.bind (eat ''duplicate'' r) (\<lambda>r1. Option.bind (eat ''key'' r1) (\<lambda>r2.
          Option.bind (eat ''update'' r2) (p_assigns n))))"

definition p_insert :: "nat \<Rightarrow> 'l tok list \<Rightarrow> 'l stmt option" where
  "p_insert n ts =
     Option.bind (eat ''into'' ts) (\<lambda>r. Option.bind (p_ident r) (\<lambda>(t, r1).
     Option.bind (eats CHR ''('' r1) (\<lambda>r2. Option.bind (p_idents n r2) (\<lambda>(cs, r3).
     Option.bind (eats CHR '')'' r3) (\<lambda>r4. Option.bind (eat ''values'' r4) (\<lambda>r5.
     Option.bind (eats CHR ''('' r5) (\<lambda>r6. Option.bind (p_list n r6) (\<lambda>(es, r7).
     Option.bind (eats CHR '')'' r7) (\<lambda>r8. Option.bind (p_dup n r8) (\<lambda>(as, r9).
     p_end (SInsert t cs es as) r9))))))))))"

definition p_stmt :: "'l tok list \<Rightarrow> 'l stmt option" where
  "p_stmt ts =
     (let n = 10 * length ts in
      case eat ''select'' ts of
        Some r \<Rightarrow> Option.bind (p_select n r) (\<lambda>(q, r1). p_end (SSelect q) r1)
      | None \<Rightarrow>
      (case eat ''insert'' ts of
        Some r \<Rightarrow> p_insert n r
      | None \<Rightarrow>
      (case eat ''update'' ts of
        Some r \<Rightarrow>
          Option.bind (p_ident r) (\<lambda>(t, r1). Option.bind (eat ''set'' r1) (\<lambda>r2.
          Option.bind (p_assigns n r2) (\<lambda>(as, r3).
          Option.bind (p_where n r3) (\<lambda>(e, r4). p_end (SUpdate t as e) r4))))
      | None \<Rightarrow>
          Option.bind (eat ''delete'' ts) (\<lambda>r. Option.bind (eat ''from'' r) (\<lambda>r1.
          Option.bind (p_ident r1) (\<lambda>(t, r2).
          Option.bind (p_where n r2) (\<lambda>(e, r3). p_end (SDelete t e) r3)))))))"

definition sql_parse :: "string \<Rightarrow> sqlval list \<Rightarrow> sqlval stmt option" where
  "sql_parse text arg = Option.bind (sql_lex text) (\<lambda>ts. Option.bind (bind_args ts arg) p_stmt)"

subsection \<open>Tables\<close>

type_synonym trow = "string \<Rightarrow> sqlval"

record table =
  tb_cols :: "string list"
  tb_keys :: "string list list"
  tb_rows :: "trow list"

record database =
  dt_tables :: "(string \<times> table) list"
  dt_coll :: "string \<Rightarrow> string"

text \<open>The tables of one select with a row of each, and the scopes from the inside out.\<close>

type_synonym scope = "(string \<times> string list \<times> trow) list"

datatype sqlerr =
    Unsupported
  | AmbiguousColumn string
  | UnknownColumn string
  | UnknownTable string
  | SubqueryRows
  | DuplicateKey

definition ebind :: "sqlerr + 'a \<Rightarrow> ('a \<Rightarrow> sqlerr + 'b) \<Rightarrow> sqlerr + 'b" where
  "ebind r f = (case r of Inl e \<Rightarrow> Inl e | Inr x \<Rightarrow> f x)"

fun emap :: "('a \<Rightarrow> sqlerr + 'b) \<Rightarrow> 'a list \<Rightarrow> sqlerr + 'b list" where
  "emap f [] = Inr []"
| "emap f (x # xs) = ebind (f x) (\<lambda>y. ebind (emap f xs) (\<lambda>ys. Inr (y # ys)))"

fun efilter :: "('a \<Rightarrow> sqlerr + bool) \<Rightarrow> 'a list \<Rightarrow> sqlerr + 'a list" where
  "efilter f [] = Inr []"
| "efilter f (x # xs) = ebind (f x) (\<lambda>b. ebind (efilter f xs) (\<lambda>ys. Inr (if b then x # ys else ys)))"

definition has_col :: "colref \<Rightarrow> string \<times> string list \<times> trow \<Rightarrow> bool" where
  "has_col c t = (snd c \<in> set (fst (snd t)) \<and> (case fst c of None \<Rightarrow> True | Some q \<Rightarrow> q = fst t))"

fun resolve :: "colref \<Rightarrow> scope list \<Rightarrow> sqlerr + sqlval" where
  "resolve c [] = Inl (UnknownColumn (snd c))"
| "resolve c (sc # scs) =
     (case filter (has_col c) sc of
        [] \<Rightarrow> resolve c scs
      | [t] \<Rightarrow> Inr (snd (snd t) (snd c))
      | _ \<Rightarrow> Inl (AmbiguousColumn (snd c)))"

text \<open>Equality of two values: of two strings by the collation; null compares to null.  Other pairs of
  types are outside the fragment.\<close>

fun sql_eq :: "(string \<Rightarrow> string) \<Rightarrow> sqlval \<Rightarrow> sqlval \<Rightarrow> sqlerr + sqlval" where
  "sql_eq coll (SInt a) (SInt b) = Inr (SInt (of_bool (a = b)))"
| "sql_eq coll (SStr a) (SStr b) = Inr (SInt (of_bool (coll a = coll b)))"
| "sql_eq coll SNull _ = Inr SNull"
| "sql_eq coll _ SNull = Inr SNull"
| "sql_eq coll _ _ = Inl Unsupported"

text \<open>A truth value: null, or whether a number is not zero.\<close>

fun truth :: "sqlval \<Rightarrow> sqlerr + bool option" where
  "truth SNull = Inr None"
| "truth (SInt i) = Inr (Some (i \<noteq> 0))"
| "truth (SStr s) = Inl Unsupported"

fun of_truth :: "bool option \<Rightarrow> sqlval" where
  "of_truth None = SNull"
| "of_truth (Some b) = SInt (of_bool b)"

fun and3 :: "bool option \<Rightarrow> bool option \<Rightarrow> bool option" where
  "and3 (Some False) _ = Some False"
| "and3 _ (Some False) = Some False"
| "and3 (Some True) (Some True) = Some True"
| "and3 _ _ = None"

fun not3 :: "bool option \<Rightarrow> bool option" where
  "not3 None = None"
| "not3 (Some b) = Some (\<not> b)"

definition or3 :: "bool option \<Rightarrow> bool option \<Rightarrow> bool option" where
  "or3 a b = not3 (and3 (not3 a) (not3 b))"

text \<open>Membership: true when one is equal, unknown when one is not known to differ.\<close>

fun member3 :: "(string \<Rightarrow> string) \<Rightarrow> sqlval \<Rightarrow> sqlval list \<Rightarrow> sqlerr + bool option" where
  "member3 coll v [] = Inr (Some False)"
| "member3 coll v (x # xs) =
     ebind (sql_eq coll v x) (\<lambda>e. ebind (truth e) (\<lambda>a. ebind (member3 coll v xs) (\<lambda>b. Inr (or3 a b))))"

fun find_tables :: "database \<Rightarrow> string list \<Rightarrow> sqlerr + (string \<times> table) list" where
  "find_tables db [] = Inr []"
| "find_tables db (t # ts) =
     (case map_of (dt_tables db) t of
        None \<Rightarrow> Inl (UnknownTable t)
      | Some tb \<Rightarrow> ebind (find_tables db ts) (\<lambda>tbs. Inr ((t, tb) # tbs)))"

fun row_product :: "(string \<times> table) list \<Rightarrow> scope list" where
  "row_product [] = [[]]"
| "row_product ((n, t) # ts) =
     concat (map (\<lambda>r. map (\<lambda>sc. (n, tb_cols t, r) # sc) (row_product ts)) (tb_rows t))"

definition project :: "bool \<Rightarrow> colref list option \<Rightarrow> scope list \<Rightarrow> scope list \<Rightarrow> sqlerr + row list" where
  "project dist cs env scs =
     (case cs of
        None \<Rightarrow> Inr [[SInt (int (length scs))]]
      | Some cols \<Rightarrow>
          ebind (emap (\<lambda>sc. emap (\<lambda>c. resolve c (sc # env)) cols) scs) (\<lambda>rows.
          Inr (if dist then remdups rows else rows)))"

definition scalar :: "row list \<Rightarrow> sqlerr + sqlval" where
  "scalar rows = (case rows of [] \<Rightarrow> Inr SNull | [[v]] \<Rightarrow> Inr v | _ \<Rightarrow> Inl SubqueryRows)"

definition column1 :: "row list \<Rightarrow> sqlerr + sqlval list" where
  "column1 rows = emap (\<lambda>r. case r of [v] \<Rightarrow> Inr v | _ \<Rightarrow> Inl Unsupported) rows"

definition holds :: "sqlerr + sqlval \<Rightarrow> sqlerr + bool" where
  "holds r = ebind r (\<lambda>v. ebind (truth v) (\<lambda>b. Inr (b = Some True)))"

text \<open>The value of an expression, and the rows of a select before its limit.  A subquery with a limit
  is outside the fragment.\<close>

primrec eval_expr :: "sqlval expr \<Rightarrow> string \<Rightarrow> database \<Rightarrow> scope list \<Rightarrow> sqlerr + sqlval"
  and eval_select :: "sqlval select \<Rightarrow> string \<Rightarrow> database \<Rightarrow> scope list \<Rightarrow> sqlerr + row list" where
  "eval_expr ETrue = (\<lambda>now db env. Inr (SInt 1))"
| "eval_expr (ELit v) = (\<lambda>now db env. Inr v)"
| "eval_expr (ECol c) = (\<lambda>now db env. resolve c env)"
| "eval_expr (EEq a b) = (\<lambda>now db env.
     ebind (eval_expr a now db env) (\<lambda>x. ebind (eval_expr b now db env) (\<lambda>y. sql_eq (dt_coll db) x y)))"
| "eval_expr (EAnd a b) = (\<lambda>now db env.
     ebind (ebind (eval_expr a now db env) truth) (\<lambda>x. ebind (ebind (eval_expr b now db env) truth) (\<lambda>y.
     Inr (of_truth (and3 x y)))))"
| "eval_expr (EOr a b) = (\<lambda>now db env.
     ebind (ebind (eval_expr a now db env) truth) (\<lambda>x. ebind (ebind (eval_expr b now db env) truth) (\<lambda>y.
     Inr (of_truth (or3 x y)))))"
| "eval_expr (EIn a es) = (\<lambda>now db env.
     ebind (eval_expr a now db env) (\<lambda>x. ebind (emap (\<lambda>f. f now db env) (map eval_expr es)) (\<lambda>ys.
     ebind (member3 (dt_coll db) x ys) (\<lambda>b. Inr (of_truth b)))))"
| "eval_expr (EInQ neg a q) = (\<lambda>now db env.
     ebind (eval_expr a now db env) (\<lambda>x. ebind (eval_select q now db env) (\<lambda>rows.
     ebind (column1 rows) (\<lambda>ys. ebind (member3 (dt_coll db) x ys) (\<lambda>b.
     Inr (of_truth (if neg then not3 b else b)))))))"
| "eval_expr (ESub q) = (\<lambda>now db env. ebind (eval_select q now db env) scalar)"
| "eval_expr ENow = (\<lambda>now db env. Inr (SStr now))"
| "eval_expr (ELast e) = eval_expr e"
| "eval_select (Sel dist cs ts wh ob lm) = (\<lambda>now db env.
     if lm \<noteq> None then Inl Unsupported
     else
       ebind (find_tables db ts) (\<lambda>tbs.
       ebind (efilter (\<lambda>sc. holds (eval_expr wh now db (sc # env))) (row_product tbs)) (project dist cs env)))"

subsection \<open>Running statements\<close>

text \<open>The rows a query may answer: the rows of the select in any order, and with a limit that many of
  them.\<close>

definition window :: "(sqlval option \<times> sqlval) option \<Rightarrow> row list \<Rightarrow> row list \<Rightarrow> bool" where
  "window lm full rows =
     (case lm of
        None \<Rightarrow> mset rows = mset full
      | Some (off, SInt n) \<Rightarrow>
          mset rows \<subseteq># mset full \<and>
          length rows = min (nat n) (length full - (case off of Some (SInt k) \<Rightarrow> nat k | _ \<Rightarrow> 0))
      | _ \<Rightarrow> True)"

fun answers :: "string \<Rightarrow> sqlval select \<Rightarrow> database \<Rightarrow> row list \<Rightarrow> bool" where
  "answers now (Sel dist cs ts wh ob lm) db rows =
     (case eval_select (Sel dist cs ts wh ob None) now db [] of
        Inl e \<Rightarrow> e = Unsupported
      | Inr full \<Rightarrow> window lm full rows)"

definition with_table :: "database \<Rightarrow> string \<Rightarrow> (table \<Rightarrow> sqlerr + 'a) \<Rightarrow> sqlerr + 'a" where
  "with_table db t f = (case map_of (dt_tables db) t of None \<Rightarrow> Inl (UnknownTable t) | Some tb \<Rightarrow> f tb)"

definition set_rows :: "database \<Rightarrow> string \<Rightarrow> trow list \<Rightarrow> database" where
  "set_rows db t rows =
     db\<lparr>dt_tables := map (\<lambda>(n, tb). (n, if n = t then tb\<lparr>tb_rows := rows\<rparr> else tb)) (dt_tables db)\<rparr>"

fun collated :: "(string \<Rightarrow> string) \<Rightarrow> sqlval \<Rightarrow> sqlval" where
  "collated coll (SStr s) = SStr (coll s)"
| "collated coll v = v"

text \<open>Two rows with one unique key; a null never collides.\<close>

definition key_clash :: "(string \<Rightarrow> string) \<Rightarrow> string list \<Rightarrow> trow \<Rightarrow> trow \<Rightarrow> bool" where
  "key_clash coll k r r' =
     list_all (\<lambda>c. r c \<noteq> SNull \<and> collated coll (r c) = collated coll (r' c)) k"

definition clash :: "database \<Rightarrow> table \<Rightarrow> trow \<Rightarrow> trow \<Rightarrow> bool" where
  "clash db tb r r' = list_ex (\<lambda>k. key_clash (dt_coll db) k r r') ([''id''] # tb_keys tb)"

fun no_clash :: "(trow \<Rightarrow> trow \<Rightarrow> bool) \<Rightarrow> trow list \<Rightarrow> bool" where
  "no_clash f [] = True"
| "no_clash f (r # rs) = (list_all (\<lambda>r'. \<not> f r r') rs \<and> no_clash f rs)"

definition keys_ok :: "database \<Rightarrow> table \<Rightarrow> bool" where
  "keys_ok db tb = no_clash (clash db tb) (tb_rows tb)"

fun assign :: "string \<Rightarrow> database \<Rightarrow> scope list \<Rightarrow> (string \<times> sqlval expr) list \<Rightarrow> trow \<Rightarrow> sqlerr + trow" where
  "assign now db env [] r = Inr r"
| "assign now db env ((c, e) # as) r =
     ebind (eval_expr e now db env) (\<lambda>v. ebind (assign now db env as r) (\<lambda>r'. Inr (r'(c := v))))"

fun last_id :: "(string \<times> sqlval expr) list \<Rightarrow> string \<Rightarrow> database \<Rightarrow> scope list \<Rightarrow> sqlerr + int" where
  "last_id [] now db env = Inr 0"
| "last_id ((c, e) # as) now db env =
     (case e of
        ELast x \<Rightarrow> ebind (eval_expr x now db env) (\<lambda>v. case v of SInt i \<Rightarrow> Inr i | _ \<Rightarrow> Inl Unsupported)
      | _ \<Rightarrow> last_id as now db env)"

text \<open>An id that the server may give a new row: above every id of the table.\<close>

definition fresh_id :: "table \<Rightarrow> int \<Rightarrow> bool" where
  "fresh_id tb i =
     (0 < i \<and> in_int64 i \<and> list_all (\<lambda>r. case r ''id'' of SInt j \<Rightarrow> j < i | _ \<Rightarrow> True) (tb_rows tb))"

definition run_insert :: "string \<Rightarrow> int \<Rightarrow> trow \<Rightarrow> database \<Rightarrow> string \<Rightarrow> string list \<Rightarrow> sqlval expr list \<Rightarrow>
    (string \<times> sqlval expr) list \<Rightarrow> sqlerr + database \<times> int" where
  "run_insert now i dflt db t cs es as =
     with_table db t (\<lambda>tb.
     if length cs \<noteq> length es \<or> ''id'' \<in> set cs then Inl Unsupported
     else
       ebind (emap (\<lambda>e. eval_expr e now db []) es) (\<lambda>vs.
       let new = (\<lambda>c. case map_of (zip cs vs) c of Some v \<Rightarrow> v | None \<Rightarrow> dflt c)(''id'' := SInt i) in
       case List.extract (clash db tb new) (tb_rows tb) of
         None \<Rightarrow> Inr (set_rows db t (tb_rows tb @ [new]), i)
       | Some (us, old, vs) \<Rightarrow>
           if as = [] then Inl DuplicateKey
           else
             ebind (assign now db [[(t, tb_cols tb, old)]] as old) (\<lambda>r'.
             if list_ex (clash db tb r') (us @ vs) then Inl DuplicateKey
             else
               ebind (last_id as now db [[(t, tb_cols tb, old)]]) (\<lambda>n.
               Inr (set_rows db t (us @ r' # vs), n)))))"

definition run_update :: "string \<Rightarrow> database \<Rightarrow> string \<Rightarrow> (string \<times> sqlval expr) list \<Rightarrow> sqlval expr \<Rightarrow>
    sqlerr + database \<times> int" where
  "run_update now db t as wh =
     with_table db t (\<lambda>tb.
     ebind (emap (\<lambda>r. ebind (holds (eval_expr wh now db [[(t, tb_cols tb, r)]])) (\<lambda>b.
         if b then assign now db [[(t, tb_cols tb, r)]] as r else Inr r)) (tb_rows tb)) (\<lambda>rows.
     if keys_ok db (tb\<lparr>tb_rows := rows\<rparr>) then Inr (set_rows db t rows, 0) else Inl DuplicateKey))"

definition run_delete :: "string \<Rightarrow> database \<Rightarrow> string \<Rightarrow> sqlval expr \<Rightarrow> sqlerr + database \<times> int" where
  "run_delete now db t wh =
     with_table db t (\<lambda>tb.
     ebind (efilter (\<lambda>r. ebind (holds (eval_expr wh now db [[(t, tb_cols tb, r)]])) (\<lambda>b. Inr (\<not> b)))
       (tb_rows tb)) (\<lambda>rows. Inr (set_rows db t rows, 0)))"

text \<open>A statement that changes the tables, for a time, a new id and the defaults of a new row; the
  result has the last inserted id.\<close>

fun run_stmt :: "string \<Rightarrow> int \<Rightarrow> trow \<Rightarrow> sqlval stmt \<Rightarrow> database \<Rightarrow> sqlerr + database \<times> int" where
  "run_stmt now i dflt (SInsert t cs es as) db = run_insert now i dflt db t cs es as"
| "run_stmt now i dflt (SUpdate t as wh) db = run_update now db t as wh"
| "run_stmt now i dflt (SDelete t wh) db = run_delete now db t wh"
| "run_stmt now i dflt (SSelect q) db = Inl Unsupported"

text \<open>The two databases before and after a statement, with the id it reports.  Where the reference does
  not cover the statement, nothing is said.\<close>

definition fresh_for :: "sqlval stmt \<Rightarrow> database \<Rightarrow> int \<Rightarrow> bool" where
  "fresh_for s db i =
     (case s of
        SInsert t cs es as \<Rightarrow> (case map_of (dt_tables db) t of Some tb \<Rightarrow> fresh_id tb i | None \<Rightarrow> True)
      | _ \<Rightarrow> True)"

definition runs :: "sqlval stmt \<Rightarrow> database \<Rightarrow> database \<Rightarrow> int \<Rightarrow> bool" where
  "runs s db db' n =
     (\<exists>now i dflt. fresh_for s db i \<and>
        (run_stmt now i dflt s db = Inl Unsupported \<or> run_stmt now i dflt s db = Inr (db', n)))"

end
