(* ===== verification/SqlText.thy ===== *)
theory SqlText
  imports MySql
begin

text \<open>
  How a statement text with numbers and strings in it is read.  A template is the text with holes; its
  statement is computed once, and a text that fills the holes with numbers and with strings free of
  quotes and backslashes has the same statement with the holes filled.
\<close>

section \<open>Definitions\<close>

datatype piece = Txt string | IntAt nat | StrAt nat

datatype hole = Const sqlval | IntHole nat | StrHole nat

fun pick :: "'a \<Rightarrow> 'a list \<Rightarrow> nat \<Rightarrow> 'a" where
  "pick d [] n = d"
| "pick d (x # xs) 0 = x"
| "pick d (x # xs) (Suc n) = pick d xs n"

definition quote_sql :: "string \<Rightarrow> string" where
  "quote_sql s = [CHR 0x27] @ s @ [CHR 0x27]"

fun render :: "int list \<Rightarrow> string list \<Rightarrow> piece list \<Rightarrow> string" where
  "render ns ss [] = []"
| "render ns ss (Txt t # ps) = t @ render ns ss ps"
| "render ns ss (IntAt n # ps) = show_int (pick 0 ns n) @ render ns ss ps"
| "render ns ss (StrAt n # ps) = quote_sql (pick [] ss n) @ render ns ss ps"

fun fill :: "int list \<Rightarrow> string list \<Rightarrow> hole \<Rightarrow> sqlval" where
  "fill ns ss (Const v) = v"
| "fill ns ss (IntHole n) = SInt (pick 0 ns n)"
| "fill ns ss (StrHole n) = SStr (pick [] ss n)"

definition clean :: "string \<Rightarrow> bool" where
  "clean s = (CHR 0x27 \<notin> set s \<and> CHR 0x5C \<notin> set s)"

datatype tstate = Plain lexst | AfterInt nat | AfterStr nat

definition const_toks :: "sqlval tok list \<Rightarrow> hole tok list" where
  "const_toks ts = map (map_tok Const) ts"

fun t_text :: "tstate \<Rightarrow> string \<Rightarrow> hole tok list \<times> tstate" where
  "t_text (Plain st) s = (case lex_run st s of (ts, st') \<Rightarrow> (const_toks ts, Plain st'))"
| "t_text (AfterInt n) [] = ([], AfterInt n)"
| "t_text (AfterInt n) (c # s) =
     (if decimal c \<or> letter c \<or> c = CHR ''.'' then ([], Plain LBad)
      else case lex_run LNone (c # s) of (ts, st') \<Rightarrow> (TLit (IntHole n) # const_toks ts, Plain st'))"
| "t_text (AfterStr n) [] = ([], AfterStr n)"
| "t_text (AfterStr n) (c # s) =
     (if c = CHR 0x27 then ([], Plain LBad)
      else case lex_run LNone (c # s) of (ts, st') \<Rightarrow> (TLit (StrHole n) # const_toks ts, Plain st'))"

fun t_piece :: "tstate \<Rightarrow> piece \<Rightarrow> hole tok list \<times> tstate" where
  "t_piece st (Txt s) = t_text st s"
| "t_piece st (IntAt n) = ([], if st = Plain LNone then AfterInt n else Plain LBad)"
| "t_piece st (StrAt n) = ([], if st = Plain LNone then AfterStr n else Plain LBad)"

fun t_run :: "tstate \<Rightarrow> piece list \<Rightarrow> hole tok list \<times> tstate" where
  "t_run st [] = ([], st)"
| "t_run st (p # ps) =
     (case t_piece st p of (ts, st1) \<Rightarrow> case t_run st1 ps of (us, st2) \<Rightarrow> (ts @ us, st2))"

fun t_finish :: "tstate \<Rightarrow> hole tok list option" where
  "t_finish (Plain st) = map_option const_toks (lex_finish st)"
| "t_finish (AfterInt n) = Some [TLit (IntHole n)]"
| "t_finish (AfterStr n) = Some [TLit (StrHole n)]"

definition t_lex :: "piece list \<Rightarrow> hole tok list option" where
  "t_lex ps = (case t_run (Plain LNone) ps of (ts, st) \<Rightarrow> map_option (\<lambda>us. ts @ us) (t_finish st))"

definition t_parse :: "piece list \<Rightarrow> hole list \<Rightarrow> hole stmt option" where
  "t_parse ps arg = Option.bind (t_lex ps) (\<lambda>ts. Option.bind (bind_args ts arg) p_stmt)"

section \<open>Lemmas\<close>

subsection \<open>Reading is uniform in the literals\<close>

abbreviation retok :: "('a \<Rightarrow> 'b) \<Rightarrow> 'a tok list \<Rightarrow> 'b tok list" where
  "retok f ts \<equiv> map (map_tok f) ts"

abbreviation rest_map :: "('x \<Rightarrow> 'y) \<Rightarrow> ('a \<Rightarrow> 'b) \<Rightarrow> ('x \<times> 'a tok list) option \<Rightarrow> ('y \<times> 'b tok list) option" where
  "rest_map g f x \<equiv> map_option (map_prod g (retok f)) x"

named_theorems uniform

lemma eat_uniform [uniform]: "eat w (retok f ts) = map_option (retok f) (eat w ts)"
  by (cases "(w, ts)" rule: eat.cases) auto

lemma eats_uniform [uniform]: "eats c (retok f ts) = map_option (retok f) (eats c ts)"
  by (cases "(c, ts)" rule: eats.cases) auto

lemma p_ident_uniform [uniform]: "p_ident (retok f ts) = rest_map (\<lambda>x. x) f (p_ident ts)"
  by (cases ts rule: p_ident.cases) auto

lemma p_lit_uniform [uniform]: "p_lit (retok f ts) = rest_map f f (p_lit ts)"
  by (cases ts rule: p_lit.cases) auto

lemma p_colref_uniform [uniform]: "p_colref (retok f ts) = rest_map (\<lambda>x. x) f (p_colref ts)"
  by (auto simp: p_colref_def uniform split: option.splits Option.bind_splits)

lemma p_colrefs_uniform [uniform]: "p_colrefs n (retok f ts) = rest_map (\<lambda>x. x) f (p_colrefs n ts)"
  by (induction n ts rule: p_colrefs.induct) (auto simp: uniform split: option.splits Option.bind_splits)

lemma p_idents_uniform [uniform]: "p_idents n (retok f ts) = rest_map (\<lambda>x. x) f (p_idents n ts)"
  by (induction n ts rule: p_idents.induct) (auto simp: uniform split: option.splits Option.bind_splits)

lemma p_what_uniform [uniform]: "p_what n (retok f ts) = rest_map (\<lambda>x. x) f (p_what n ts)"
  by (auto simp: p_what_def uniform split: option.splits Option.bind_splits)

lemma p_order_uniform [uniform]: "p_order (retok f ts) = rest_map (\<lambda>x. x) f (p_order ts)"
  by (auto simp: p_order_def uniform split: option.splits Option.bind_splits)

lemma p_limit_uniform [uniform]:
  "p_limit (retok f ts) = rest_map (map_option (map_prod (map_option f) f)) f (p_limit ts)"
  by (auto simp: p_limit_def uniform split: option.splits Option.bind_splits)

definition uniform_at :: "('a \<Rightarrow> 'b) \<Rightarrow> nat \<Rightarrow> bool" where
  "uniform_at f n =
     ((\<forall>ts. p_or n (retok f ts) = rest_map (map_expr f) f (p_or n ts)) \<and>
      (\<forall>ts. p_and n (retok f ts) = rest_map (map_expr f) f (p_and n ts)) \<and>
      (\<forall>ts. p_cmp n (retok f ts) = rest_map (map_expr f) f (p_cmp n ts)) \<and>
      (\<forall>neg a ts. p_set n neg (map_expr f a) (retok f ts) = rest_map (map_expr f) f (p_set n neg a ts)) \<and>
      (\<forall>ts. p_list n (retok f ts) = rest_map (map (map_expr f)) f (p_list n ts)) \<and>
      (\<forall>ts. p_atom n (retok f ts) = rest_map (map_expr f) f (p_atom n ts)) \<and>
      (\<forall>ts. p_select n (retok f ts) = rest_map (map_select f) f (p_select n ts)))"

lemma uniform_atD:
  assumes "uniform_at f n"
  shows "p_or n (retok f ts) = rest_map (map_expr f) f (p_or n ts)"
    and "p_and n (retok f ts) = rest_map (map_expr f) f (p_and n ts)"
    and "p_cmp n (retok f ts) = rest_map (map_expr f) f (p_cmp n ts)"
    and "p_set n neg (map_expr f a) (retok f ts) = rest_map (map_expr f) f (p_set n neg a ts)"
    and "p_list n (retok f ts) = rest_map (map (map_expr f)) f (p_list n ts)"
    and "p_atom n (retok f ts) = rest_map (map_expr f) f (p_atom n ts)"
    and "p_select n (retok f ts) = rest_map (map_select f) f (p_select n ts)"
  using assms by (simp_all add: uniform_at_def)

lemma p_or_step:
  assumes "uniform_at f n"
  shows "p_or (Suc n) (retok f ts) = rest_map (map_expr f) f (p_or (Suc n) ts)"
    and "p_and (Suc n) (retok f ts) = rest_map (map_expr f) f (p_and (Suc n) ts)"
    and "p_list (Suc n) (retok f ts) = rest_map (map (map_expr f)) f (p_list (Suc n) ts)"
  by (auto simp: uniform uniform_atD [OF assms] split: option.split Option.bind_split)

lemma p_set_step:
  assumes "uniform_at f n"
  shows "p_set (Suc n) neg (map_expr f a) (retok f ts) = rest_map (map_expr f) f (p_set (Suc n) neg a ts)"
  by (auto simp: uniform uniform_atD [OF assms] split: option.split Option.bind_split)

lemma p_atom_step:
  assumes "uniform_at f n"
  shows "p_atom (Suc n) (retok f ts) = rest_map (map_expr f) f (p_atom (Suc n) ts)"
proof (cases "eats CHR ''('' ts")
  case None
  then show ?thesis
    by (cases "p_lit ts"; cases "p_colref ts")
      (auto simp add: uniform uniform_atD [OF assms] split: option.split Option.bind_split)
next
  case (Some r)
  then show ?thesis
    by (cases "eat ''select'' r")
      (auto simp: uniform uniform_atD [OF assms] split: option.split Option.bind_split)
qed

lemma p_cmp_step:
  assumes "uniform_at f n"
  shows "p_cmp (Suc n) (retok f ts) = rest_map (map_expr f) f (p_cmp (Suc n) ts)"
proof (cases "p_atom n ts")
  case (Some x)
  obtain a r where x: "x = (a, r)"
    by (cases x)
  show ?thesis
    by (cases "eats CHR ''='' r"; cases "eat ''in'' r"; cases "eat ''not'' r")
      (auto simp: Some x uniform uniform_atD [OF assms] split: Option.bind_split)
qed (simp add: uniform_atD [OF assms])

lemma p_select_step:
  assumes "uniform_at f n"
  shows "p_select (Suc n) (retok f ts) = rest_map (map_select f) f (p_select (Suc n) ts)"
  by (auto simp: uniform uniform_atD [OF assms] split: option.split Option.bind_split)

lemma uniform_at_all: "uniform_at f n"
proof (induction n)
  case (Suc n)
  then show ?case
    unfolding uniform_at_def [of f "Suc n"]
    by (intro conjI allI p_or_step p_set_step p_atom_step p_cmp_step p_select_step)
qed (simp add: uniform_at_def)

lemmas p_expr_uniform [uniform] = uniform_atD [OF uniform_at_all]

lemma p_assigns_uniform [uniform]:
  "p_assigns n (retok f ts) = rest_map (map (map_prod (\<lambda>x. x) (map_expr f))) f (p_assigns n ts)"
  by (induction n ts rule: p_assigns.induct) (auto simp: uniform split: option.splits Option.bind_splits)

lemma p_where_uniform [uniform]: "p_where n (retok f ts) = rest_map (map_expr f) f (p_where n ts)"
  by (auto simp: p_where_def uniform split: option.splits)

lemma p_dup_uniform [uniform]:
  "p_dup n (retok f ts) = rest_map (map (map_prod (\<lambda>x. x) (map_expr f))) f (p_dup n ts)"
  by (auto simp: p_dup_def uniform split: option.splits Option.bind_splits)

lemma p_end_uniform [uniform]: "p_end (g x) (retok f ts) = map_option g (p_end x ts)"
  by (simp add: p_end_def)

lemma bind_uniform:
  assumes "x' = rest_map g f x" "\<And>a r. h' (g a, retok f r) = map_option k (h (a, r))"
  shows "Option.bind x' h' = map_option k (Option.bind x h)"
  using assms by (cases x) auto

lemma bind_toks_uniform:
  assumes "x' = map_option (retok f) x" "\<And>r. h' (retok f r) = map_option k (h r)"
  shows "Option.bind x' h' = map_option k (Option.bind x h)"
  using assms by (cases x) auto

lemma p_insert_uniform [uniform]: "p_insert n (retok f ts) = map_option (map_stmt f) (p_insert n ts)"
  unfolding p_insert_def
  by (rule bind_uniform bind_toks_uniform eat_uniform eats_uniform p_ident_uniform p_idents_uniform
      p_dup_uniform p_expr_uniform | simp add: p_end_def id_def)+

lemma p_stmt_uniform [uniform]: "p_stmt (retok f ts) = map_option (map_stmt f) (p_stmt ts)"
proof -
  have upd: "Option.bind (p_ident (retok f r)) (\<lambda>(t, r1). Option.bind (eat ''set'' r1) (\<lambda>r2.
          Option.bind (p_assigns n r2) (\<lambda>(as, r3).
          Option.bind (p_where n r3) (\<lambda>(e, r4). p_end (SUpdate t as e) r4)))) =
      map_option (map_stmt f) (Option.bind (p_ident r) (\<lambda>(t, r1). Option.bind (eat ''set'' r1) (\<lambda>r2.
          Option.bind (p_assigns n r2) (\<lambda>(as, r3).
          Option.bind (p_where n r3) (\<lambda>(e, r4). p_end (SUpdate t as e) r4)))))" for n r
    by (rule bind_uniform bind_toks_uniform eat_uniform p_ident_uniform p_assigns_uniform
        p_where_uniform | simp add: p_end_def id_def)+
  have del: "Option.bind (eat ''delete'' (retok f ts)) (\<lambda>r. Option.bind (eat ''from'' r) (\<lambda>r1.
          Option.bind (p_ident r1) (\<lambda>(t, r2).
          Option.bind (p_where n r2) (\<lambda>(e, r3). p_end (SDelete t e) r3)))) =
      map_option (map_stmt f) (Option.bind (eat ''delete'' ts) (\<lambda>r. Option.bind (eat ''from'' r) (\<lambda>r1.
          Option.bind (p_ident r1) (\<lambda>(t, r2).
          Option.bind (p_where n r2) (\<lambda>(e, r3). p_end (SDelete t e) r3)))))" for n
    by (rule bind_uniform bind_toks_uniform eat_uniform p_ident_uniform
        p_where_uniform | simp add: p_end_def id_def)+
  have sel: "Option.bind (p_select n (retok f r)) (\<lambda>(q, r1). p_end (SSelect q) r1) =
      map_option (map_stmt f) (Option.bind (p_select n r) (\<lambda>(q, r1). p_end (SSelect q) r1))" for n r
    by (rule bind_uniform p_expr_uniform | simp add: p_end_def id_def)+
  show ?thesis
    by (simp add: p_stmt_def Let_def eat_uniform sel upd del [unfolded eat_uniform] p_insert_uniform split: option.split)
qed

lemma bind_args_uniform [uniform]:
  "bind_args (retok f ts) (map f arg) = map_option (retok f) (bind_args ts arg)"
proof (induction ts arg rule: bind_args.induct)
  case (2 t ts arg)
  then show ?case
    by (cases t; cases arg) (auto simp: option.map_comp comp_def)
qed simp

subsection \<open>Texts and templates\<close>

lemma lex_run_append:
  "lex_run st (a @ b) =
     (case lex_run st a of (ts, st1) \<Rightarrow> case lex_run st1 b of (us, st2) \<Rightarrow> (ts @ us, st2))"
  by (induction a arbitrary: st) (simp_all split: prod.split)

lemma lex_run_bad: "lex_run LBad s = ([], LBad)"
  by (induction s) simp_all

lemma decimal_digit_char: "d < 10 \<Longrightarrow> decimal (digit_char d)"
proof -
  have "list_all (\<lambda>d. decimal (digit_char d)) [0..<10]"
    by code_simp
  then show "d < 10 \<Longrightarrow> decimal (digit_char d)"
    by (simp add: list_all_iff)
qed

lemma decimal_show_nat: "list_all decimal (show_nat n)"
  using show_base_digits [of 10 _ n] by (auto simp: show_nat_def list_all_iff intro: decimal_digit_char)

lemma decimal_other:
  assumes "decimal c"
  shows "\<not> blank c \<and> \<not> letter c"
proof -
  have "\<not> decimal CHR '' '' \<and> \<not> decimal CHR 0x09 \<and> \<not> decimal CHR 0x0A \<and> \<not> decimal CHR 0x0D \<and>
        \<not> decimal CHR ''_'' \<and> \<not> CHR ''a'' \<le> CHR ''9'' \<and> \<not> CHR ''A'' \<le> CHR ''9''"
    by code_simp
  then show ?thesis
    using assms by (auto simp: blank_def letter_def decimal_def dest: order_trans)
qed

lemma lex_run_digits: "list_all decimal s \<Longrightarrow> lex_run (LNum a) s = ([], LNum (rev s @ a))"
  by (induction s arbitrary: a) simp_all

lemma lex_run_show_int: "lex_run LNone (show_int i) = ([], LNum (rev (show_int i)))"
proof -
  have "lex_start CHR ''-'' = ([], LNum ''-'')"
    by code_simp
  moreover obtain c s where "show_nat (nat i) = c # s" "decimal c" "list_all decimal s"
    using decimal_show_nat [of "nat i"] show_base_not_Nil [of 10 "nat i"]
    by (cases "show_nat (nat i)") (auto simp: show_nat_def)
  moreover from this have "lex_start c = ([], LNum [c])"
    using decimal_other [of c] by (simp add: lex_start_def)
  ultimately show ?thesis
    by (simp add: show_int_def lex_run_digits decimal_show_nat)
qed

lemma num_tok_show_int: "in_int64 i \<Longrightarrow> num_tok (rev (show_int i)) = Some (TLit (SInt i))"
  by (simp add: num_tok_def)

lemma lex_run_string: "clean s \<Longrightarrow> lex_run (LStr a) s = ([], LStr (rev s @ a))"
  by (induction s arbitrary: a) (auto simp: clean_def)

lemma lex_run_quote: "clean s \<Longrightarrow> lex_run LNone (quote_sql s) = ([], LEnd (rev s))"
proof -
  assume "clean s"
  moreover have "lex_start CHR 0x27 = ([], LStr [])"
    by code_simp
  ultimately show ?thesis
    by (simp add: quote_sql_def lex_run_append lex_run_string)
qed

fun real_st :: "int list \<Rightarrow> string list \<Rightarrow> tstate \<Rightarrow> lexst" where
  "real_st ns ss (Plain st) = st"
| "real_st ns ss (AfterInt n) = LNum (rev (show_int (pick 0 ns n)))"
| "real_st ns ss (AfterStr n) = LEnd (rev (pick [] ss n))"

definition fillable :: "int list \<Rightarrow> string list \<Rightarrow> bool" where
  "fillable ns ss = (list_all in_int64 ns \<and> list_all clean ss)"

lemma pick_all: "P d \<Longrightarrow> list_all P xs \<Longrightarrow> P (pick d xs n)"
  by (induction d xs n rule: pick.induct) auto

lemma fillable_int: "fillable ns ss \<Longrightarrow> in_int64 (pick 0 ns n)"
  using pick_all [of in_int64 0 ns n] by (simp add: fillable_def in_int64_def int64_min_def int64_max_def)

lemma fillable_str: "fillable ns ss \<Longrightarrow> clean (pick [] ss n)"
  using pick_all [of clean "[]" ss n] by (simp add: fillable_def clean_def)

lemma retok_consts: "retok (fill ns ss) (const_toks ts) = ts"
  by (simp add: const_toks_def tok.map_comp comp_def tok.map_ident)

lemma t_text_real:
  assumes "fillable ns ss" "t_text st s = (ts, st')" "st' \<noteq> Plain LBad"
  shows "lex_run (real_st ns ss st) s = (retok (fill ns ss) ts, real_st ns ss st')"
  using assms fillable_int [OF assms(1)]
  by (cases "(st, s)" rule: t_text.cases)
    (auto simp: retok_consts num_tok_show_int lex_close_def split: if_splits prod.splits)

lemma t_piece_real:
  assumes "fillable ns ss" "t_piece st p = (ts, st')" "st' \<noteq> Plain LBad"
  shows "lex_run (real_st ns ss st) (render ns ss [p]) = (retok (fill ns ss) ts, real_st ns ss st')"
  using assms t_text_real lex_run_show_int lex_run_quote fillable_str
  by (cases p) (auto split: if_splits)

lemma t_run_bad: "t_run (Plain LBad) ps = (ts, st) \<Longrightarrow> st = Plain LBad"
proof (induction ps arbitrary: ts)
  case (Cons p ps)
  then show ?case
    by (cases p) (auto simp: lex_run_bad split: prod.splits)
qed simp

lemma render_Cons: "render ns ss (p # ps) = render ns ss [p] @ render ns ss ps"
  by (cases p) simp_all

lemma t_run_real:
  assumes "fillable ns ss" "t_run st ps = (ts, st')" "st' \<noteq> Plain LBad"
  shows "lex_run (real_st ns ss st) (render ns ss ps) = (retok (fill ns ss) ts, real_st ns ss st')"
  using assms(2,3)
proof (induction ps arbitrary: st ts)
  case (Cons p ps)
  obtain us st1 vs where p: "t_piece st p = (us, st1)" and r: "t_run st1 ps = (vs, st')" and ts: "ts = us @ vs"
    using Cons.prems by (auto split: prod.splits)
  have "st1 \<noteq> Plain LBad"
    using r t_run_bad Cons.prems(2) by blast
  then have "lex_run (real_st ns ss st) (render ns ss [p]) = (retok (fill ns ss) us, real_st ns ss st1)"
    by (rule t_piece_real [OF assms(1) p])
  then show ?case
    using Cons.IH [OF r Cons.prems(2)]
    by (subst render_Cons) (simp add: lex_run_append ts del: render.simps)
qed simp

lemma t_finish_real:
  assumes "fillable ns ss" "t_finish st = Some ts"
  shows "lex_finish (real_st ns ss st) = Some (retok (fill ns ss) ts)"
  using assms by (cases st) (auto simp: retok_consts num_tok_show_int fillable_int)

lemma t_lex_real:
  assumes "fillable ns ss" "t_lex ps = Some ts"
  shows "sql_lex (render ns ss ps) = Some (retok (fill ns ss) ts)"
proof -
  obtain us st vs where r: "t_run (Plain LNone) ps = (us, st)" "t_finish st = Some vs" "ts = us @ vs"
    using assms(2) by (auto simp: t_lex_def split: prod.splits)
  then have "st \<noteq> Plain LBad"
    by auto
  with r show ?thesis
    using t_run_real [OF assms(1) r(1)] t_finish_real [OF assms(1) r(2)] by (simp add: sql_lex_def)
qed

text \<open>A filled template has the statement of the template with the holes filled.\<close>

lemma sql_parse_render:
  assumes "fillable ns ss" "t_parse ps arg = Some s" "text = render ns ss ps"
    "arg' = map (fill ns ss) arg"
  shows "sql_parse text arg' = Some (map_stmt (fill ns ss) s)"
proof -
  obtain ts us where "t_lex ps = Some ts" "bind_args ts arg = Some us" "p_stmt us = Some s"
    using assms(2) by (auto simp: t_parse_def split: Option.bind_splits)
  then show ?thesis
    using t_lex_real [OF assms(1)] by (simp add: assms(3,4) sql_parse_def bind_args_uniform p_stmt_uniform)
qed

end
