(* ===== verification/SqlServer.thy ===== *)
theory SqlServer
  imports SqlText
begin

text \<open>
  The interface to the database server as a locale, what follows from it for the calls of
  \<open>database/sql\<close>, and the reference server, which is one instance; a server that records the texts it
  was sent is another.
\<close>

section \<open>Definitions\<close>

definition sql_failed :: error where
  "sql_failed = ErrText ''Error 1064: You have an error in your SQL syntax''"

definition ref_now :: string where
  "ref_now = ''2018-01-03 15:39:04''"

fun ref_window :: "(sqlval option \<times> sqlval) option \<Rightarrow> row list \<Rightarrow> row list" where
  "ref_window (Some (off, SInt n)) rows =
     take (nat n) (drop (case off of Some (SInt k) \<Rightarrow> nat k | _ \<Rightarrow> 0) rows)"
| "ref_window _ rows = rows"

fun ref_select :: "sqlval select \<Rightarrow> database \<Rightarrow> error + row list" where
  "ref_select (Sel dist cs ts wh ob lm) db =
     (case eval_select (Sel dist cs ts wh ob None) ref_now db [] of
        Inl e \<Rightarrow> Inl sql_failed
      | Inr full \<Rightarrow> Inr (ref_window lm full))"

definition ref_query :: "string \<Rightarrow> sqlval list \<Rightarrow> database \<Rightarrow> (error + row list) \<times> database" where
  "ref_query text arg db =
     (case sql_parse text arg of Some (SSelect q) \<Rightarrow> (ref_select q db, db) | _ \<Rightarrow> (Inl sql_failed, db))"

definition next_id :: "table \<Rightarrow> int" where
  "next_id tb = 1 + foldr (\<lambda>r m. case r ''id'' of SInt j \<Rightarrow> max j m | _ \<Rightarrow> m) (tb_rows tb) 0"

definition ref_id :: "sqlval stmt \<Rightarrow> database \<Rightarrow> int" where
  "ref_id s db =
     (case s of
        SInsert t cs es as \<Rightarrow> (case map_of (dt_tables db) t of Some tb \<Rightarrow> next_id tb | None \<Rightarrow> 1)
      | _ \<Rightarrow> 1)"

definition ref_exec :: "string \<Rightarrow> sqlval list \<Rightarrow> database \<Rightarrow> (error + int \<times> int) \<times> database" where
  "ref_exec text arg db =
     (case sql_parse text arg of
        None \<Rightarrow> (Inl sql_failed, db)
      | Some s \<Rightarrow>
          if \<not> fresh_for s db (ref_id s db) then (Inl sql_failed, db)
          else
            (case run_stmt ref_now (ref_id s db) (\<lambda>c. SStr []) s db of
               Inl e \<Rightarrow> (Inl sql_failed, db)
             | Inr (db', n) \<Rightarrow> (Inr (n, 1), db')))"

definition ref_dbms :: "database dbms" where
  "ref_dbms = \<lparr>db_open = (\<lambda>db. (None, db)), db_query = ref_query, db_exec = ref_exec\<rparr>"

section \<open>Lemmas\<close>

subsection \<open>The interface\<close>

locale sql_server =
  fixes D :: "'w dbms"
    and db :: "'w \<Rightarrow> database"
  assumes open_keeps: "db_open D w = (r, w') \<Longrightarrow> db w' = db w"
    and query_keeps: "db_query D text arg w = (x, w') \<Longrightarrow> db w' = db w"
    and query_rows: "db_query D text arg w = (Inr rows, w') \<Longrightarrow> sql_parse text arg = Some (SSelect q) \<Longrightarrow>
      \<exists>now. answers now q (db w) rows"
    and exec_fails: "db_exec D text arg w = (Inl e, w') \<Longrightarrow> db w' = db w"
    and exec_runs: "db_exec D text arg w = (Inr (n, a), w') \<Longrightarrow> sql_parse text arg = Some s \<Longrightarrow>
      runs s (db w) (db w') n"
begin

lemma GetConnection_keeps: "GetConnection D w = (x, w') \<Longrightarrow> db w' = db w"
  using open_keeps by (auto simp: GetConnection_def split: prod.splits option.splits)

lemma db_Query_keeps: "db_Query D text arg w = (x, w') \<Longrightarrow> db w' = db w"
  using query_keeps by (auto simp: db_Query_def split: prod.splits sum.splits)

lemma db_Query_rows:
  "db_Query D text arg w = (Inr rows, w') \<Longrightarrow> sql_parse text arg = Some (SSelect q) \<Longrightarrow>
   \<exists>now. answers now q (db w) rows"
  using query_rows by (auto simp: db_Query_def split: prod.splits sum.splits)

lemma db_Exec_fails: "db_Exec D text arg w = (Inl f, w') \<Longrightarrow> db w' = db w"
  using exec_fails by (auto simp: db_Exec_def split: prod.splits sum.splits)

lemma db_Exec_runs:
  "db_Exec D text arg w = (Inr (n, a), w') \<Longrightarrow> sql_parse text arg = Some s \<Longrightarrow> runs s (db w) (db w') n"
  using exec_runs by (auto simp: db_Exec_def split: prod.splits sum.splits)

end

text \<open>A recording server keeps the contract.\<close>

lemma traced_server:
  assumes "sql_server D db"
  shows "sql_server (traced D) (\<lambda>w. db (fst w))"
proof -
  note laws = sql_server.open_keeps [OF assms] sql_server.query_keeps [OF assms]
    sql_server.query_rows [OF assms] sql_server.exec_fails [OF assms] sql_server.exec_runs [OF assms]
  show ?thesis
    by unfold_locales (auto simp: traced_def split: prod.splits dest: laws)
qed

subsection \<open>The reference server\<close>

lemma ref_window_window: "window lm full (ref_window lm full)"
proof (cases "(lm, full)" rule: ref_window.cases)
  case (1 off n rows)
  let ?k = "case off of Some (SInt k) \<Rightarrow> nat k | _ \<Rightarrow> 0"
  have "mset (take (nat n) (drop ?k rows)) \<subseteq># mset rows"
    by (metis append_take_drop_id mset_append mset_subset_eq_add_left mset_subset_eq_add_right
        subset_mset.order_trans)
  then show ?thesis
    using 1 by (simp add: window_def)
qed (auto simp: window_def)

lemma ref_select_answers: "ref_select q db = Inr rows \<Longrightarrow> \<exists>now. answers now q db rows"
  by (cases q) (auto simp: ref_window_window split: sum.splits intro!: exI [of _ ref_now])

lemma ref_exec_runs:
  assumes "ref_exec text arg db = (Inr (n, a), db')" "sql_parse text arg = Some s"
  shows "runs s db db' n"
  using assms unfolding ref_exec_def runs_def
  by (auto split: if_splits sum.splits)

interpretation refserver: sql_server ref_dbms "\<lambda>w. w"
proof
  fix sql arg and e :: error and w w' :: database
  show "db_exec ref_dbms sql arg w = (Inl e, w') \<Longrightarrow> w' = w"
    by (auto simp: ref_dbms_def ref_exec_def split: option.splits if_splits sum.splits)
next
  fix sql arg n a s and w w' :: database
  show "db_exec ref_dbms sql arg w = (Inr (n, a), w') \<Longrightarrow> sql_parse sql arg = Some s \<Longrightarrow> runs s w w' n"
    using ref_exec_runs by (simp add: ref_dbms_def)
next
  fix sql arg q rows and w w' :: database
  show "db_query ref_dbms sql arg w = (Inr rows, w') \<Longrightarrow> sql_parse sql arg = Some (SSelect q) \<Longrightarrow>
      \<exists>now. answers now q w rows"
    using ref_select_answers by (auto simp: ref_dbms_def ref_query_def)
qed (auto simp: ref_dbms_def ref_query_def split: option.splits stmt.splits)

interpretation recorder: sql_server "traced ref_dbms" "\<lambda>w. fst w"
  by (rule traced_server) (rule refserver.sql_server_axioms)

subsection \<open>Evaluation\<close>

lemma ebind_simps [simp]: "ebind (Inr x) f = f x" "ebind (Inl e) f = Inl e"
  by (simp_all add: ebind_def)

lemma ebind_eq_Inr: "ebind r f = Inr y \<longleftrightarrow> (\<exists>x. r = Inr x \<and> f x = Inr y)"
  by (cases r) auto

lemma efilter_pure: "(\<And>x. x \<in> set xs \<Longrightarrow> f x = Inr (g x)) \<Longrightarrow> efilter f xs = Inr (filter g xs)"
  by (induction xs) auto

lemma emap_pure: "(\<And>x. x \<in> set xs \<Longrightarrow> f x = Inr (g x)) \<Longrightarrow> emap f xs = Inr (map g xs)"
  by (induction xs) auto

lemma resolve_hit:
  "c \<in> set cols \<Longrightarrow> q \<in> {None, Some t} \<Longrightarrow> resolve (q, c) ([(t, cols, r)] # env) = Inr (r c)"
  by (auto simp: has_col_def)

lemma truth_of_bool [simp]: "truth (SInt (of_bool b)) = Inr (Some b)"
  by simp

lemma and3_Some [simp]: "and3 (Some a) (Some b) = Some (a \<and> b)"
  by (cases a; cases b) simp_all

lemma or3_Some [simp]: "or3 (Some a) (Some b) = Some (a \<or> b)"
  by (cases a; cases b) (simp_all add: or3_def)

lemma holds_of_bool [simp]: "holds (Inr (SInt (of_bool b))) = Inr b"
  by (simp add: holds_def)

lemma row_product_single: "row_product [(t, tb)] = map (\<lambda>r. [(t, tb_cols tb, r)]) (tb_rows tb)"
  by (simp add: concat_map_singleton)

lemma efilter_map: "efilter f (map g xs) = ebind (efilter (\<lambda>x. f (g x)) xs) (\<lambda>ys. Inr (map g ys))"
  by (induction xs) (auto simp: ebind_def split: sum.splits)

text \<open>A select of one column of one table.\<close>

lemma eval_select_single:
  assumes "map_of (dt_tables db) t = Some tb" "c \<in> set (tb_cols tb)" "q \<in> {None, Some t}"
    and "\<And>r. r \<in> set (tb_rows tb) \<Longrightarrow> holds (eval_expr wh now db ([(t, tb_cols tb, r)] # env)) = Inr (P r)"
  shows "eval_select (Sel dist (Some [(q, c)]) [t] wh ob None) now db env =
     Inr (let xs = map (\<lambda>r. [r c]) (filter P (tb_rows tb)) in if dist then remdups xs else xs)"
proof -
  have "efilter (\<lambda>r. holds (eval_expr wh now db ([(t, tb_cols tb, r)] # env))) (tb_rows tb) =
        Inr (filter P (tb_rows tb))"
    by (rule efilter_pure) (rule assms(4))
  moreover have "emap (\<lambda>sc. emap (\<lambda>c. resolve c (sc # env)) [(q, c)])
      (map (\<lambda>r. [(t, tb_cols tb, r)]) rs) = Inr (map (\<lambda>r. [r c]) rs)" for rs
    using resolve_hit [OF assms(2,3)] by (induction rs) simp_all
  ultimately show ?thesis
    by (simp add: assms(1) row_product_single efilter_map project_def Let_def del: row_product.simps emap.simps)
qed

end
