(* ===== verification/RbacSql.thy ===== *)
theory RbacSql
  imports Rbac SqlServer
begin

text \<open>
  The statements behind the texts that the rbac server sends: each text, for all numbers and for all
  strings without quotes and backslashes, is read as one statement of the fragment.
\<close>

section \<open>Definitions\<close>

text \<open>The clause that every insertion of the server ends with.\<close>

definition touch :: "(string \<times> 'l expr) list" where
  "touch = [(''id'', ELast (ECol (None, ''id''))), (''mtime'', ENow)]"

section \<open>Lemmas\<close>

lemma truncate2_Cons: "2 \<le> length s \<Longrightarrow> truncate2 (c # s) = c # truncate2 s"
proof -
  assume "2 \<le> length s"
  then have "length (c # s) - 2 = Suc (length s - 2)"
    by simp
  then show ?thesis
    by (simp only: truncate2_def take_Suc_Cons)
qed

lemma truncate2_append: "2 \<le> length s \<Longrightarrow> truncate2 (t @ s) = t @ truncate2 s"
  by (simp add: truncate2_def)

lemma truncate2_pair: "truncate2 [a, b] = []"
  by (simp add: truncate2_def)

lemmas truncate2_simps = truncate2_Cons truncate2_append truncate2_pair

lemma pick_numeral [simp]: "pick d (x # xs) (numeral k) = pick d xs (pred_numeral k)"
  by (simp add: numeral_eq_Suc)

lemmas insert_text = insert_sql_def truncate2_simps insert_columns_def insert_name_def insert_value_def
  tcol_def quote_sql_def

lemmas sql_text = select_sql_def first_table_def tcol_def select_column_def Let_def where_clause_def
  eq_int_def quoted_def quote_sql_def

lemma user_resources_sql:
  assumes "in_int64 app" "clean email"
  shows "sql_parse (select_sql ''role_resource''
      (eq_int ''app_id'' app @ '' and role_id in  (select role_id from role_user where role_user.user_id = '' @
       ''(select id from user where email='' @ quoted email @ '' and '' @ eq_int ''app_id'' app @ ''))'')
      (ty_fields resource_id_type)) [] =
    Some (map_stmt (fill [app] [email]) (SSelect
      (Sel True (Some [(Some ''role_resource'', ''resource_id'')]) [''role_resource'']
        (EAnd (EEq (ECol (None, ''app_id'')) (ELit (IntHole 0)))
          (EInQ False (ECol (None, ''role_id''))
            (Sel False (Some [(None, ''role_id'')]) [''role_user'']
              (EEq (ECol (Some ''role_user'', ''user_id''))
                (ESub (Sel False (Some [(None, ''id'')]) [''user'']
                  (EAnd (EEq (ECol (None, ''email'')) (ELit (StrHole 0)))
                    (EEq (ECol (None, ''app_id'')) (ELit (IntHole 0)))) None None)))
              None None))) None None)))"
proof (rule sql_parse_render [where arg = "[]" and ps =
    "[Txt ''select DISTINCT role_resource.resource_id from role_resource where app_id='', IntAt 0,
      Txt '' and role_id in  (select role_id from role_user where role_user.user_id = (select id from user where email='',
      StrAt 0, Txt '' and app_id='', IntAt 0, Txt ''))'']"], goal_cases)
  case 2
  show ?case by code_simp
qed (simp_all add: fillable_def assms resource_id_type_def sql_text)

lemma insert_role_resource_sql:
  assumes "in_int64 app" "in_int64 role" "in_int64 res"
  shows "sql_parse (insert_sql ''role_resource'' RoleResource_type
      (zero_RoleResource\<lparr>rr_AppID := app, rr_RoleID := role, rr_ResourceID := res\<rparr>)) [] =
    Some (map_stmt (fill [app, res, role] []) (SInsert ''role_resource''
      [''app_id'', ''resource_id'', ''role_id'', ''ctime'', ''mtime'']
      [ELit (IntHole 0), ELit (IntHole 1), ELit (IntHole 2), ENow, ENow] touch))"
proof (rule sql_parse_render [where arg = "[]" and ps =
    "[Txt ''insert into role_resource (app_id, resource_id, role_id, ctime, mtime) values ('', IntAt 0,
      Txt '', '', IntAt 1, Txt '', '', IntAt 2,
      Txt '', now(), now()) ON DUPLICATE KEY UPDATE id=LAST_INSERT_ID(id), mtime=now()'']"], goal_cases)
  case 2
  show ?case unfolding touch_def by code_simp
qed (simp_all add: fillable_def assms insert_text RoleResource_type_def zero_RoleResource_def)

lemma insert_role_user_sql:
  assumes "in_int64 app" "in_int64 role" "in_int64 user"
  shows "sql_parse (insert_sql ''role_user'' RoleUser_type
      (zero_RoleUser\<lparr>ru_AppID := app, ru_RoleID := role, ru_UserID := user\<rparr>)) [] =
    Some (map_stmt (fill [app, user, role] []) (SInsert ''role_user''
      [''app_id'', ''user_id'', ''role_id'', ''ctime'', ''mtime'']
      [ELit (IntHole 0), ELit (IntHole 1), ELit (IntHole 2), ENow, ENow] touch))"
proof (rule sql_parse_render [where arg = "[]" and ps =
    "[Txt ''insert into role_user (app_id, user_id, role_id, ctime, mtime) values ('', IntAt 0,
      Txt '', '', IntAt 1, Txt '', '', IntAt 2,
      Txt '', now(), now()) ON DUPLICATE KEY UPDATE id=LAST_INSERT_ID(id), mtime=now()'']"], goal_cases)
  case 2
  show ?case unfolding touch_def by code_simp
qed (simp_all add: fillable_def assms insert_text RoleUser_type_def zero_RoleUser_def)

lemma insert_user_sql:
  assumes "in_int64 app" "clean name" "clean email" "name \<noteq> []" "email \<noteq> []"
  shows "sql_parse (insert_sql ''user'' User_type \<lparr>us_ID = 0, us_AppID = app, us_Name = name,
      us_Email = email, us_Ctime = [], us_Mtime = []\<rparr>) [] =
    Some (map_stmt (fill [app] [name, email]) (SInsert ''user''
      [''app_id'', ''name'', ''email'', ''ctime'', ''mtime'']
      [ELit (IntHole 0), ELit (StrHole 0), ELit (StrHole 1), ENow, ENow] touch))"
proof (rule sql_parse_render [where arg = "[]" and ps =
    "[Txt ''insert into user (app_id, name, email, ctime, mtime) values ('', IntAt 0,
      Txt '', '', StrAt 0, Txt '', '', StrAt 1,
      Txt '', now(), now()) ON DUPLICATE KEY UPDATE id=LAST_INSERT_ID(id), mtime=now()'']"], goal_cases)
  case 2
  show ?case unfolding touch_def by code_simp
qed (simp_all add: fillable_def assms insert_text User_type_def)

lemma insert_role_sql:
  assumes "in_int64 app" "in_int64 user" "clean name" "clean comments" "name \<noteq> []" "comments \<noteq> []"
  shows "sql_parse (insert_sql ''role'' Role_type \<lparr>ro_ID = 0, ro_AppID = app, ro_Name = name,
      ro_UserID = user, ro_Comments = comments, ro_Ctime = [], ro_Mtime = []\<rparr>) [] =
    Some (map_stmt (fill [app, user] [name, comments]) (SInsert ''role''
      [''app_id'', ''name'', ''user_id'', ''comments'', ''ctime'', ''mtime'']
      [ELit (IntHole 0), ELit (StrHole 0), ELit (IntHole 1), ELit (StrHole 1), ENow, ENow] touch))"
proof (rule sql_parse_render [where arg = "[]" and ps =
    "[Txt ''insert into role (app_id, name, user_id, comments, ctime, mtime) values ('', IntAt 0,
      Txt '', '', StrAt 0, Txt '', '', IntAt 1, Txt '', '', StrAt 1,
      Txt '', now(), now()) ON DUPLICATE KEY UPDATE id=LAST_INSERT_ID(id), mtime=now()'']"], goal_cases)
  case 2
  show ?case unfolding touch_def by code_simp
qed (simp_all add: fillable_def assms insert_text Role_type_def)

lemma insert_resource_sql:
  assumes "in_int64 app" "clean name" "clean comments" "name \<noteq> []" "comments \<noteq> []"
  shows "sql_parse (insert_sql ''resource'' Resource_type \<lparr>re_ID = 0, re_AppID = app, re_Name = name,
      re_Comments = comments, re_Ctime = [], re_Mtime = []\<rparr>) [] =
    Some (map_stmt (fill [app] [name, comments]) (SInsert ''resource''
      [''app_id'', ''name'', ''comments'', ''ctime'', ''mtime'']
      [ELit (IntHole 0), ELit (StrHole 0), ELit (StrHole 1), ENow, ENow] touch))"
proof (rule sql_parse_render [where arg = "[]" and ps =
    "[Txt ''insert into resource (app_id, name, comments, ctime, mtime) values ('', IntAt 0,
      Txt '', '', StrAt 0, Txt '', '', StrAt 1,
      Txt '', now(), now()) ON DUPLICATE KEY UPDATE id=LAST_INSERT_ID(id), mtime=now()'']"], goal_cases)
  case 2
  show ?case unfolding touch_def by code_simp
qed (simp_all add: fillable_def assms insert_text Resource_type_def)

text \<open>Conjunctions of equations between a column and a number.\<close>

definition col_is :: "string \<Rightarrow> 'l \<Rightarrow> 'l expr" where
  "col_is c v = EEq (ECol (None, c)) (ELit v)"

lemma map_col_is [simp]: "map_expr f (col_is c v) = col_is c (f v)"
  by (simp add: col_is_def)

lemma has_members_sql:
  assumes "in_int64 app" "in_int64 role"
  shows "sql_parse (''select id from role_user where '' @ eq_int ''app_id'' app @ '' and '' @
      eq_int ''role_id'' role @ '' limit 1'') [] =
    Some (map_stmt (fill [app, role] []) (SSelect (Sel False (Some [(None, ''id'')]) [''role_user'']
      (EAnd (col_is ''app_id'' (IntHole 0)) (col_is ''role_id'' (IntHole 1))) None (Some (None, Const (SInt 1))))))"
proof (rule sql_parse_render [where arg = "[]" and ps =
    "[Txt ''select id from role_user where app_id='', IntAt 0, Txt '' and role_id='', IntAt 1, Txt '' limit 1'']"],
    goal_cases)
  case 2
  show ?case unfolding col_is_def by code_simp
qed (simp_all add: fillable_def assms sql_text)

lemma has_grants_sql:
  assumes "in_int64 app" "in_int64 role"
  shows "sql_parse (''select id from role_resource where '' @ eq_int ''app_id'' app @ '' and '' @
      eq_int ''role_id'' role @ '' limit 1'') [] =
    Some (map_stmt (fill [app, role] []) (SSelect (Sel False (Some [(None, ''id'')]) [''role_resource'']
      (EAnd (col_is ''app_id'' (IntHole 0)) (col_is ''role_id'' (IntHole 1))) None (Some (None, Const (SInt 1))))))"
proof (rule sql_parse_render [where arg = "[]" and ps =
    "[Txt ''select id from role_resource where app_id='', IntAt 0, Txt '' and role_id='', IntAt 1, Txt '' limit 1'']"],
    goal_cases)
  case 2
  show ?case unfolding col_is_def by code_simp
qed (simp_all add: fillable_def assms sql_text)

lemma delete_role_sql:
  assumes "in_int64 app" "in_int64 role"
  shows "sql_parse (''delete from role where '' @ eq_int ''id'' role @ '' and '' @ eq_int ''app_id'' app) [] =
    Some (map_stmt (fill [app, role] []) (SDelete ''role''
      (EAnd (col_is ''id'' (IntHole 1)) (col_is ''app_id'' (IntHole 0)))))"
proof (rule sql_parse_render [where arg = "[]" and ps =
    "[Txt ''delete from role where id='', IntAt 1, Txt '' and app_id='', IntAt 0]"], goal_cases)
  case 2
  show ?case unfolding col_is_def by code_simp
qed (simp_all add: fillable_def assms sql_text)

lemma delete_grant_sql:
  assumes "in_int64 app" "in_int64 role" "in_int64 res"
  shows "sql_parse (''delete from role_resource where '' @ eq_int ''app_id'' app @ '' and '' @
      eq_int ''role_id'' role @ '' and resource_id = '' @ show_int res) [] =
    Some (map_stmt (fill [app, role, res] []) (SDelete ''role_resource''
      (EAnd (col_is ''app_id'' (IntHole 0)) (EAnd (col_is ''role_id'' (IntHole 1)) (col_is ''resource_id'' (IntHole 2))))))"
proof (rule sql_parse_render [where arg = "[]" and ps =
    "[Txt ''delete from role_resource where app_id='', IntAt 0, Txt '' and role_id='', IntAt 1,
      Txt '' and resource_id = '', IntAt 2]"], goal_cases)
  case 2
  show ?case unfolding col_is_def by code_simp
qed (simp_all add: fillable_def assms sql_text)

lemma delete_member_sql:
  assumes "in_int64 app" "in_int64 role" "clean email"
  shows "sql_parse (''delete from role_user where '' @ eq_int ''app_id'' app @ '' and '' @
      eq_int ''role_id'' role @ '' and user_id = (select id from user where '' @ eq_int ''app_id'' app @
      '' and email='' @ quoted email @ '')'') [] =
    Some (map_stmt (fill [app, role] [email]) (SDelete ''role_user''
      (EAnd (col_is ''app_id'' (IntHole 0)) (EAnd (col_is ''role_id'' (IntHole 1))
        (EEq (ECol (None, ''user_id'')) (ESub (Sel False (Some [(None, ''id'')]) [''user'']
          (EAnd (col_is ''app_id'' (IntHole 0)) (col_is ''email'' (StrHole 0))) None None)))))))"
proof (rule sql_parse_render [where arg = "[]" and ps =
    "[Txt ''delete from role_user where app_id='', IntAt 0, Txt '' and role_id='', IntAt 1,
      Txt '' and user_id = (select id from user where app_id='', IntAt 0, Txt '' and email='', StrAt 0, Txt '')'']"],
    goal_cases)
  case 2
  show ?case unfolding col_is_def by code_simp
qed (simp_all add: fillable_def assms sql_text)

lemma delete_resource_sql:
  assumes "in_int64 res"
  shows "sql_parse (''delete from resource where '' @ eq_int ''id'' res) [] =
    Some (map_stmt (fill [res] []) (SDelete ''resource'' (col_is ''id'' (IntHole 0))))"
proof (rule sql_parse_render [where arg = "[]" and ps = "[Txt ''delete from resource where id='', IntAt 0]"],
    goal_cases)
  case 2
  show ?case unfolding col_is_def by code_simp
qed (simp_all add: fillable_def assms sql_text)

lemma delete_resource_grants_sql:
  assumes "in_int64 res"
  shows "sql_parse (''delete from role_resource where '' @ eq_int ''resource_id'' res) [] =
    Some (map_stmt (fill [res] []) (SDelete ''role_resource'' (col_is ''resource_id'' (IntHole 0))))"
proof (rule sql_parse_render [where arg = "[]" and ps =
    "[Txt ''delete from role_resource where resource_id='', IntAt 0]"], goal_cases)
  case 2
  show ?case unfolding col_is_def by code_simp
qed (simp_all add: fillable_def assms sql_text)

end
