(* ===== verification/RbacSpec.thy ===== *)
theory RbacSpec
  imports RbacSql
begin

text \<open>
  What the rbac server promises, over a database with the schema of \<open>docs/rbac.sql\<close>: who is in which
  role of which application, and which role may use which resource.  The relations are read off the
  tables, and each function of the server is shown to be the operation on the relations that its name
  says, for every database server that keeps the contract \<open>sql_server\<close>.
\<close>

section \<open>Definitions\<close>

subsection \<open>Schema\<close>

definition is_int :: "sqlval \<Rightarrow> bool" where
  "is_int v = (case v of SInt i \<Rightarrow> in_int64 i | _ \<Rightarrow> False)"

definition is_str :: "sqlval \<Rightarrow> bool" where
  "is_str v = (case v of SStr s \<Rightarrow> True | _ \<Rightarrow> False)"

definition ival :: "trow \<Rightarrow> string \<Rightarrow> int" where
  "ival r c = (case r c of SInt i \<Rightarrow> i | _ \<Rightarrow> 0)"

definition sval :: "trow \<Rightarrow> string \<Rightarrow> string" where
  "sval r c = (case r c of SStr s \<Rightarrow> s | _ \<Rightarrow> [])"

definition row_ok :: "string list \<Rightarrow> string list \<Rightarrow> trow \<Rightarrow> bool" where
  "row_ok ints strs r = (list_all (\<lambda>c. is_int (r c)) ints \<and> list_all (\<lambda>c. is_str (r c)) strs)"

definition table_ok :: "database \<Rightarrow> string \<Rightarrow> string list \<Rightarrow> string list list \<Rightarrow> string list \<Rightarrow> string list \<Rightarrow> bool" where
  "table_ok db t cols keys ints strs =
     (case map_of (dt_tables db) t of
        None \<Rightarrow> False
      | Some tb \<Rightarrow> tb_cols tb = cols \<and> tb_keys tb = keys \<and> list_all (row_ok ints strs) (tb_rows tb) \<and> keys_ok db tb)"

definition user_cols :: "string list" where
  "user_cols = [''id'', ''app_id'', ''name'', ''email'', ''ctime'', ''mtime'']"

definition role_cols :: "string list" where
  "role_cols = [''id'', ''app_id'', ''name'', ''user_id'', ''comments'', ''ctime'', ''mtime'']"

definition resource_cols :: "string list" where
  "resource_cols = [''id'', ''app_id'', ''name'', ''comments'', ''ctime'', ''mtime'']"

definition role_user_cols :: "string list" where
  "role_user_cols = [''id'', ''app_id'', ''role_id'', ''user_id'', ''ctime'', ''mtime'']"

definition role_resource_cols :: "string list" where
  "role_resource_cols = [''id'', ''app_id'', ''role_id'', ''resource_id'', ''ctime'', ''mtime'']"

definition rbac_ok :: "database \<Rightarrow> bool" where
  "rbac_ok db =
     (table_ok db ''user'' user_cols [[''email'', ''app_id'']]
        [''id'', ''app_id''] [''name'', ''email'', ''ctime'', ''mtime''] \<and>
      table_ok db ''role'' role_cols [[''app_id'', ''name'']]
        [''id'', ''app_id'', ''user_id''] [''name'', ''comments'', ''ctime'', ''mtime''] \<and>
      table_ok db ''resource'' resource_cols [[''app_id'', ''name'']]
        [''id'', ''app_id''] [''name'', ''comments'', ''ctime'', ''mtime''] \<and>
      table_ok db ''role_user'' role_user_cols [[''app_id'', ''role_id'', ''user_id'']]
        [''id'', ''app_id'', ''role_id'', ''user_id''] [''ctime'', ''mtime''] \<and>
      table_ok db ''role_resource'' role_resource_cols [[''app_id'', ''role_id'', ''resource_id'']]
        [''id'', ''app_id'', ''role_id'', ''resource_id''] [''ctime'', ''mtime''])"

subsection \<open>Relations\<close>

definition table_rows :: "database \<Rightarrow> string \<Rightarrow> trow list" where
  "table_rows db t = (case map_of (dt_tables db) t of Some tb \<Rightarrow> tb_rows tb | None \<Rightarrow> [])"

text \<open>The users as (id, application, email), the members as (application, role, user), and the grants
  as (application, role, resource).\<close>

definition users :: "database \<Rightarrow> (int \<times> int \<times> string) set" where
  "users db = (\<lambda>r. (ival r ''id'', ival r ''app_id'', sval r ''email'')) ` set (table_rows db ''user'')"

definition members :: "database \<Rightarrow> (int \<times> int \<times> int) set" where
  "members db = (\<lambda>r. (ival r ''app_id'', ival r ''role_id'', ival r ''user_id'')) ` set (table_rows db ''role_user'')"

definition grants :: "database \<Rightarrow> (int \<times> int \<times> int) set" where
  "grants db = (\<lambda>r. (ival r ''app_id'', ival r ''role_id'', ival r ''resource_id'')) ` set (table_rows db ''role_resource'')"

definition same_email :: "database \<Rightarrow> string \<Rightarrow> string \<Rightarrow> bool" where
  "same_email db a b = (dt_coll db a = dt_coll db b)"

text \<open>The resources that a user of an application may use: those granted to a role the user is in.\<close>

definition may_use :: "database \<Rightarrow> int \<Rightarrow> string \<Rightarrow> int set" where
  "may_use db app email =
     {re. \<exists>u e ro a. (u, app, e) \<in> users db \<and> same_email db e email \<and> (a, ro, u) \<in> members db \<and>
        (app, ro, re) \<in> grants db}"

section \<open>Lemmas\<close>

declare eval_expr.simps [simp del] eval_select.simps [simp del] resolve.simps [simp del]

subsection \<open>Rows of well-formed tables\<close>

lemma is_int_ival: "is_int (r c) \<Longrightarrow> r c = SInt (ival r c)"
  by (simp add: is_int_def ival_def split: sqlval.splits)

lemma is_str_sval: "is_str (r c) \<Longrightarrow> r c = SStr (sval r c)"
  by (simp add: is_str_def sval_def split: sqlval.splits)

lemma table_okD:
  assumes "table_ok db t cols keys ints strs"
  obtains tb where "map_of (dt_tables db) t = Some tb" "tb_cols tb = cols" "tb_keys tb = keys"
    "tb_rows tb = table_rows db t" "keys_ok db tb"
    "\<And>r c. r \<in> set (table_rows db t) \<Longrightarrow> c \<in> set ints \<Longrightarrow> r c = SInt (ival r c)"
    "\<And>r c. r \<in> set (table_rows db t) \<Longrightarrow> c \<in> set strs \<Longrightarrow> r c = SStr (sval r c)"
proof -
  obtain tb where tb: "map_of (dt_tables db) t = Some tb" "tb_cols tb = cols" "tb_keys tb = keys"
    "list_all (row_ok ints strs) (tb_rows tb)" "keys_ok db tb"
    using assms by (auto simp: table_ok_def split: option.splits)
  moreover from this have "tb_rows tb = table_rows db t"
    by (simp add: table_rows_def)
  ultimately show ?thesis
    using that is_int_ival is_str_sval by (auto simp: list_all_iff row_ok_def)
qed

lemma no_clash_eq:
  assumes "no_clash f rs" "r \<in> set rs" "r' \<in> set rs" "f r r'" "\<And>a b. f a b \<Longrightarrow> f b a"
  shows "r = r'"
  using assms by (induction rs) (auto simp: list_all_iff)

lemma clash_sym: "clash db tb r r' \<Longrightarrow> clash db tb r' r"
proof -
  have "collated c v = collated c v' \<Longrightarrow> v \<noteq> SNull \<Longrightarrow> v' \<noteq> SNull" for c v v'
    by (cases v; cases v') auto
  then show "clash db tb r r' \<Longrightarrow> clash db tb r' r"
    unfolding clash_def key_clash_def list_ex_iff list_all_iff by metis
qed

lemma keys_ok_unique:
  assumes "keys_ok db tb" "r \<in> set (tb_rows tb)" "r' \<in> set (tb_rows tb)" "clash db tb r r'"
  shows "r = r'"
  using no_clash_eq [OF assms(1) [unfolded keys_ok_def] assms(2,3,4)] clash_sym by blast

lemma no_clash_distinct: "no_clash f rs \<Longrightarrow> (\<And>r. r \<in> set rs \<Longrightarrow> f r r) \<Longrightarrow> distinct rs"
  by (induction rs) (auto simp: list_all_iff)

lemma member3_ints: "member3 coll (SInt x) (map SInt ys) = Inr (Some (x \<in> set ys))"
  by (induction ys) auto

lemma column1_ints: "column1 (map (\<lambda>i. [SInt i]) xs) = Inr (map SInt xs)"
  unfolding column1_def by (induction xs) auto

lemma scan_ids:
  assumes "scan_rows resource_id_type rows = Inr ids" "set rows \<subseteq> range (\<lambda>i. [SInt i])"
  shows "rows = map (\<lambda>i. [SInt i]) ids"
  using assms
  by (induction rows arbitrary: ids)
    (auto simp: ty_scan_def resource_id_type_def tcol_def go_simps split: if_splits)

lemma resolve_col:
  "c \<in> set cols \<Longrightarrow> resolve (None, c) ([(t, cols, r)] # env) = Inr (r c)"
  "c \<in> set cols \<Longrightarrow> resolve (Some t, c) ([(t, cols, r)] # env) = Inr (r c)"
  by (rule resolve_hit; simp)+

text \<open>The user of an email in an application, as the scalar subquery finds it.\<close>

definition user_rows :: "database \<Rightarrow> int \<Rightarrow> string \<Rightarrow> trow list" where
  "user_rows db app email =
     filter (\<lambda>r. same_email db (sval r ''email'') email \<and> ival r ''app_id'' = app) (table_rows db ''user'')"

lemma user_subselect:
  assumes "rbac_ok db"
  shows "eval_select (Sel False (Some [(None, ''id'')]) [''user'']
      (EAnd (EEq (ECol (None, ''email'')) (ELit (SStr email))) (EEq (ECol (None, ''app_id'')) (ELit (SInt app))))
      None None) now db env = Inr (map (\<lambda>r. [r ''id'']) (user_rows db app email))"
proof -
  obtain tb where tb: "map_of (dt_tables db) ''user'' = Some tb" "tb_cols tb = user_cols"
    "tb_rows tb = table_rows db ''user''"
    "\<And>r c. r \<in> set (table_rows db ''user'') \<Longrightarrow> c \<in> set [''id'', ''app_id''] \<Longrightarrow> r c = SInt (ival r c)"
    "\<And>r c. r \<in> set (table_rows db ''user'') \<Longrightarrow> c \<in> set [''name'', ''email'', ''ctime'', ''mtime''] \<Longrightarrow>
      r c = SStr (sval r c)"
    using assms unfolding rbac_ok_def by (auto elim!: table_okD)
  have cols: "''id'' \<in> set user_cols" "''email'' \<in> set user_cols" "''app_id'' \<in> set user_cols"
    by (simp_all add: user_cols_def)
  have "holds (eval_expr (EAnd (EEq (ECol (None, ''email'')) (ELit (SStr email)))
        (EEq (ECol (None, ''app_id'')) (ELit (SInt app)))) now db ([(''user'', user_cols, r)] # env)) =
      Inr (same_email db (sval r ''email'') email \<and> ival r ''app_id'' = app)"
    if "r \<in> set (table_rows db ''user'')" for r
    using tb(4) [OF that, of "''app_id''"] tb(5) [OF that, of "''email''"] cols
    by (simp add: eval_expr.simps resolve_col same_email_def)
  then show ?thesis
    by (subst eval_select_single [OF tb(1), where P =
          "\<lambda>r. same_email db (sval r ''email'') email \<and> ival r ''app_id'' = app"])
      (use cols in \<open>simp_all add: tb(2,3) user_rows_def Let_def\<close>)
qed

lemma at_most_one:
  assumes "distinct xs" "\<And>a b. a \<in> set xs \<Longrightarrow> b \<in> set xs \<Longrightarrow> a = b"
  shows "xs = [] \<or> (\<exists>x. xs = [x])"
proof (cases xs)
  case (Cons x ys)
  then have "ys = []"
    using assms(1) assms(2) [of x "hd ys"] by (cases ys) auto
  then show ?thesis
    using Cons by simp
qed simp

lemma user_rows_unique:
  assumes "rbac_ok db"
  shows "user_rows db app email = [] \<or> (\<exists>u. user_rows db app email = [u])"
proof -
  obtain tb where tb: "tb_keys tb = [[''email'', ''app_id'']]" "tb_rows tb = table_rows db ''user''" "keys_ok db tb"
    "\<And>r c. r \<in> set (table_rows db ''user'') \<Longrightarrow> c \<in> set [''id'', ''app_id''] \<Longrightarrow> r c = SInt (ival r c)"
    "\<And>r c. r \<in> set (table_rows db ''user'') \<Longrightarrow> c \<in> set [''name'', ''email'', ''ctime'', ''mtime''] \<Longrightarrow>
      r c = SStr (sval r c)"
    using assms unfolding rbac_ok_def by (auto elim!: table_okD)
  have "r = r'" if "r \<in> set (user_rows db app email)" "r' \<in> set (user_rows db app email)" for r r'
  proof (rule keys_ok_unique [OF tb(3)])
    show "r \<in> set (tb_rows tb)" "r' \<in> set (tb_rows tb)"
      using that by (auto simp: user_rows_def tb(2))
    then show "clash db tb r r'"
      using that tb(4) [of r "''app_id''"] tb(4) [of r' "''app_id''"] tb(5) [of r "''email''"]
        tb(5) [of r' "''email''"]
      by (simp add: user_rows_def tb(1,2) same_email_def clash_def key_clash_def)
  qed
  moreover have "distinct (user_rows db app email)"
    unfolding user_rows_def
  proof (rule distinct_filter, rule no_clash_distinct)
    show "no_clash (clash db tb) (table_rows db ''user'')"
      using tb(2,3) by (simp add: keys_ok_def)
    show "clash db tb r r" if "r \<in> set (table_rows db ''user'')" for r
      using tb(4) [OF that, of "''id''"] by (simp add: clash_def key_clash_def)
  qed
  ultimately show ?thesis
    using at_most_one by blast
qed

lemma table_select:
  assumes "table_ok db t cols keys ints strs" "c \<in> set cols" "q \<in> {None, Some t}"
    and "\<And>r. r \<in> set (table_rows db t) \<Longrightarrow> holds (eval_expr wh now db ([(t, cols, r)] # env)) = Inr (P r)"
  shows "eval_select (Sel dist (Some [(q, c)]) [t] wh ob None) now db env =
     Inr (let xs = map (\<lambda>r. [r c]) (filter P (table_rows db t)) in if dist then remdups xs else xs)"
proof -
  obtain tb where tb: "map_of (dt_tables db) t = Some tb" "tb_cols tb = cols" "tb_rows tb = table_rows db t"
    using assms(1) by (auto elim!: table_okD)
  show ?thesis
    using eval_select_single [OF tb(1), of c q wh now env P dist ob] assms(2-4) by (simp add: tb(2,3))
qed

lemma table_int:
  assumes "table_ok db t cols keys ints strs" "r \<in> set (table_rows db t)" "c \<in> set ints"
  shows "r c = SInt (ival r c)"
  using assms by (blast elim: table_okD)

lemma table_str:
  assumes "table_ok db t cols keys ints strs" "r \<in> set (table_rows db t)" "c \<in> set strs"
  shows "r c = SStr (sval r c)"
  using assms by (blast elim: table_okD)

lemma rbac_okD:
  assumes "rbac_ok db"
  shows "table_ok db ''user'' user_cols [[''email'', ''app_id'']]
      [''id'', ''app_id''] [''name'', ''email'', ''ctime'', ''mtime'']"
    and "table_ok db ''role'' role_cols [[''app_id'', ''name'']]
      [''id'', ''app_id'', ''user_id''] [''name'', ''comments'', ''ctime'', ''mtime'']"
    and "table_ok db ''resource'' resource_cols [[''app_id'', ''name'']]
      [''id'', ''app_id''] [''name'', ''comments'', ''ctime'', ''mtime'']"
    and "table_ok db ''role_user'' role_user_cols [[''app_id'', ''role_id'', ''user_id'']]
      [''id'', ''app_id'', ''role_id'', ''user_id''] [''ctime'', ''mtime'']"
    and "table_ok db ''role_resource'' role_resource_cols [[''app_id'', ''role_id'', ''resource_id'']]
      [''id'', ''app_id'', ''role_id'', ''resource_id''] [''ctime'', ''mtime'']"
  using assms by (simp_all add: rbac_ok_def)

text \<open>The roles of a user, as the middle subquery finds them.\<close>

definition role_rows :: "database \<Rightarrow> int \<Rightarrow> string \<Rightarrow> trow list" where
  "role_rows db app email =
     filter (\<lambda>r. \<exists>u \<in> set (user_rows db app email). ival r ''user_id'' = ival u ''id'') (table_rows db ''role_user'')"

lemma user_scalar:
  assumes "rbac_ok db"
  shows "scalar (map (\<lambda>r. [r ''id'']) (user_rows db app email)) =
     Inr (case user_rows db app email of [] \<Rightarrow> SNull | u # _ \<Rightarrow> SInt (ival u ''id''))"
proof -
  have "u ''id'' = SInt (ival u ''id'')" if "user_rows db app email = [u]" for u
  proof (rule table_int [OF rbac_okD(1) [OF assms]])
    have "u \<in> set (user_rows db app email)"
      using that by simp
    then show "u \<in> set (table_rows db ''user'')"
      by (simp add: user_rows_def)
  qed simp
  then show ?thesis
    using user_rows_unique [OF assms, of app email] by (auto simp: scalar_def)
qed

lemma role_subselect:
  assumes "rbac_ok db"
  shows "eval_select (Sel False (Some [(None, ''role_id'')]) [''role_user'']
      (EEq (ECol (Some ''role_user'', ''user_id''))
        (ESub (Sel False (Some [(None, ''id'')]) [''user'']
          (EAnd (EEq (ECol (None, ''email'')) (ELit (SStr email)))
            (EEq (ECol (None, ''app_id'')) (ELit (SInt app)))) None None))) None None) now db env =
    Inr (map (\<lambda>i. [SInt i]) (map (\<lambda>r. ival r ''role_id'') (role_rows db app email)))"
proof -
  let ?P = "\<lambda>r. \<exists>u \<in> set (user_rows db app email). ival r ''user_id'' = ival u ''id''"
  note ok = rbac_okD(4) [OF assms]
  have cols: "''role_id'' \<in> set role_user_cols" "''user_id'' \<in> set role_user_cols"
    by (simp_all add: role_user_cols_def)
  have wh: "holds (eval_expr (EEq (ECol (Some ''role_user'', ''user_id''))
        (ESub (Sel False (Some [(None, ''id'')]) [''user'']
          (EAnd (EEq (ECol (None, ''email'')) (ELit (SStr email)))
            (EEq (ECol (None, ''app_id'')) (ELit (SInt app)))) None None))) now db
        ([(''role_user'', role_user_cols, r)] # env)) = Inr (?P r)"
    if "r \<in> set (table_rows db ''role_user'')" for r
    using table_int [OF ok that, of "''user_id''"] user_rows_unique [OF assms, of app email]
    by (auto simp: eval_expr.simps user_subselect [OF assms] user_scalar [OF assms] resolve_col cols holds_def)
  have "map (\<lambda>r. [r ''role_id'']) (role_rows db app email) =
      map (\<lambda>i. [SInt i]) (map (\<lambda>r. ival r ''role_id'') (role_rows db app email))"
    using table_int [OF ok, of _ "''role_id''"] by (simp add: role_rows_def)
  then show ?thesis
    by (subst table_select [OF ok cols(1) _ wh]) (simp_all add: role_rows_def Let_def)
qed

lemma user_resources_select:
  assumes "rbac_ok db"
  shows "eval_select (Sel True (Some [(Some ''role_resource'', ''resource_id'')]) [''role_resource'']
        (EAnd (EEq (ECol (None, ''app_id'')) (ELit (SInt app)))
          (EInQ False (ECol (None, ''role_id''))
            (Sel False (Some [(None, ''role_id'')]) [''role_user'']
              (EEq (ECol (Some ''role_user'', ''user_id''))
                (ESub (Sel False (Some [(None, ''id'')]) [''user'']
                  (EAnd (EEq (ECol (None, ''email'')) (ELit (SStr email)))
                    (EEq (ECol (None, ''app_id'')) (ELit (SInt app)))) None None)))
              None None))) None None) now db [] =
    Inr (remdups (map (\<lambda>r. [SInt (ival r ''resource_id'')]) (filter (\<lambda>r. ival r ''app_id'' = app \<and>
      ival r ''role_id'' \<in> (\<lambda>r. ival r ''role_id'') ` set (role_rows db app email)) (table_rows db ''role_resource''))))"
proof -
  let ?P = "\<lambda>r. ival r ''app_id'' = app \<and> ival r ''role_id'' \<in> (\<lambda>r. ival r ''role_id'') ` set (role_rows db app email)"
  note ok = rbac_okD(5) [OF assms]
  have cols: "''resource_id'' \<in> set role_resource_cols" "''role_id'' \<in> set role_resource_cols"
    "''app_id'' \<in> set role_resource_cols"
    by (simp_all add: role_resource_cols_def)
  have wh: "holds (eval_expr (EAnd (EEq (ECol (None, ''app_id'')) (ELit (SInt app)))
          (EInQ False (ECol (None, ''role_id''))
            (Sel False (Some [(None, ''role_id'')]) [''role_user'']
              (EEq (ECol (Some ''role_user'', ''user_id''))
                (ESub (Sel False (Some [(None, ''id'')]) [''user'']
                  (EAnd (EEq (ECol (None, ''email'')) (ELit (SStr email)))
                    (EEq (ECol (None, ''app_id'')) (ELit (SInt app)))) None None)))
              None None))) now db ([(''role_resource'', role_resource_cols, r)] # [])) = Inr (?P r)"
    if "r \<in> set (table_rows db ''role_resource'')" for r
    using table_int [OF ok that, of "''app_id''"] table_int [OF ok that, of "''role_id''"]
    by (simp add: eval_expr.simps role_subselect [OF assms] column1_ints member3_ints resolve_col cols holds_def
        del: map_map)
  have eq: "map (\<lambda>r. [r ''resource_id'']) (filter ?P (table_rows db ''role_resource'')) =
      map (\<lambda>r. [SInt (ival r ''resource_id'')]) (filter ?P (table_rows db ''role_resource''))"
    using table_int [OF ok, of _ "''resource_id''"] by simp
  show ?thesis
    by (subst table_select [OF ok cols(1) _ wh]) (simp_all add: Let_def eq)
qed

lemma user_rows_users:
  "(\<exists>u \<in> set (user_rows db app email). i = ival u ''id'') \<longleftrightarrow>
   (\<exists>e. (i, app, e) \<in> users db \<and> same_email db e email)"
  by (auto simp: user_rows_def users_def)

lemma role_rows_members:
  "ro \<in> (\<lambda>r. ival r ''role_id'') ` set (role_rows db app email) \<longleftrightarrow>
   (\<exists>u e a. (u, app, e) \<in> users db \<and> same_email db e email \<and> (a, ro, u) \<in> members db)"
  unfolding role_rows_def user_rows_users members_def by auto

subsection \<open>Queries\<close>

context sql_server
begin

lemma queryAll_rows:
  assumes "queryAll D T table wh w = (Inr xs, w')" "sql_parse (select_sql table wh (ty_fields T)) [] = Some (SSelect q)"
  shows "db w' = db w \<and> (\<exists>now rows. answers now q (db w) rows \<and> scan_rows T rows = Inr xs)"
proof -
  obtain w1 rows where c: "GetConnection D w = (Inr (), w1)"
    "db_Query D (select_sql table wh (ty_fields T)) [] w1 = (Inr rows, w')" "scan_rows T rows = Inr xs"
    using assms(1) by (auto simp: queryAll_def cbind_eq_Inr cret_def craise_def split: if_splits)
  then show ?thesis
    using GetConnection_keeps [OF c(1)] db_Query_keeps [OF c(2)] db_Query_rows [OF c(2) assms(2)] by auto
qed

lemma UserResourceGet_may_use:
  assumes "UserResourceGet D app email w = (Inr ids, w')" "rbac_ok (db w)" "in_int64 app" "clean email"
  shows "distinct ids \<and> set ids = may_use (db w) app email \<and> db w' = db w"
proof -
  let ?P = "\<lambda>r. ival r ''app_id'' = app \<and>
    ival r ''role_id'' \<in> (\<lambda>r. ival r ''role_id'') ` set (role_rows (db w) app email)"
  let ?xs = "map (\<lambda>r. [SInt (ival r ''resource_id'')]) (filter ?P (table_rows (db w) ''role_resource''))"
  obtain rows where rows: "mset rows = mset (remdups ?xs)" "scan_rows resource_id_type rows = Inr ids"
    and keeps: "db w' = db w"
    using queryAll_rows [OF assms(1) [unfolded UserResourceGet_def] trans [OF user_resources_sql [OF assms(3,4)]]]
    by (auto simp: user_resources_select [OF assms(2)] window_def)
  have "set rows = set ?xs"
    using mset_eq_setD [OF rows(1)] by simp
  moreover from this have eq: "rows = map (\<lambda>i. [SInt i]) ids"
    using scan_ids [OF rows(2)] by auto
  ultimately have "(\<lambda>i. [SInt i]) ` set ids = set ?xs"
    by (metis set_map)
  moreover have "set ?xs = (\<lambda>i. [SInt i]) ` (\<lambda>r. ival r ''resource_id'') `
      {r \<in> set (table_rows (db w) ''role_resource''). ?P r}"
    by (simp only: set_map set_filter image_image)
  moreover have "inj (\<lambda>i. [SInt i])"
    by (simp add: inj_def)
  ultimately have "set ids = (\<lambda>r. ival r ''resource_id'') ` {r \<in> set (table_rows (db w) ''role_resource''). ?P r}"
    by (simp only: inj_image_eq_iff)
  also have "\<dots> = may_use (db w) app email"
    unfolding role_rows_members may_use_def grants_def by auto
  finally have "set ids = may_use (db w) app email" .
  moreover have "distinct rows"
    using mset_eq_imp_distinct_iff [OF rows(1)] by simp
  ultimately show ?thesis
    using eq keeps by (simp add: distinct_map)
qed

end

subsection \<open>Changes of a table\<close>

lemma map_of_set_rows:
  "map_of (dt_tables (set_rows db t rows)) t' =
     (if t' = t then map_option (\<lambda>tb. tb\<lparr>tb_rows := rows\<rparr>) (map_of (dt_tables db) t) else map_of (dt_tables db) t')"
proof -
  have "map_of (map (\<lambda>(n, tb). (n, if n = t then tb\<lparr>tb_rows := rows\<rparr> else tb)) xs) t' =
     (if t' = t then map_option (\<lambda>tb. tb\<lparr>tb_rows := rows\<rparr>) (map_of xs t) else map_of xs t')" for xs
    by (induction xs) auto
  from this [of "dt_tables db"] show ?thesis
    by (simp add: set_rows_def)
qed

lemma dt_coll_set_rows [simp]: "dt_coll (set_rows db t rows) = dt_coll db"
  by (simp add: set_rows_def)

lemma table_rows_set_rows:
  assumes "table_ok db t cols keys ints strs"
  shows "table_rows (set_rows db t rows) t' = (if t' = t then rows else table_rows db t')"
  using assms by (auto simp: table_rows_def map_of_set_rows table_ok_def split: option.splits)

lemma same_email_set_rows [simp]: "same_email (set_rows db t rows) = same_email db"
  by (simp add: same_email_def fun_eq_iff)

text \<open>Two rows that agree on a key of a table with these keys.\<close>

definition clash_on :: "database \<Rightarrow> string list list \<Rightarrow> trow \<Rightarrow> trow \<Rightarrow> bool" where
  "clash_on db keys r r' = list_ex (\<lambda>k. key_clash (dt_coll db) k r r') ([''id''] # keys)"

lemma clash_is: "clash db tb = clash_on db (tb_keys tb)"
  by (simp add: clash_def clash_on_def fun_eq_iff)

lemma clash_on_sym: "clash_on db keys r r' \<Longrightarrow> clash_on db keys r' r"
  using clash_sym [of db "\<lparr>tb_cols = [], tb_keys = keys, tb_rows = []\<rparr>" r r'] by (simp add: clash_is)

lemma clash_on_set_rows [simp]: "clash_on (set_rows db t rows) keys = clash_on db keys"
  by (simp add: clash_on_def fun_eq_iff)

lemma table_ok_iff:
  "table_ok db t cols keys ints strs \<longleftrightarrow>
     (\<exists>tb. map_of (dt_tables db) t = Some tb \<and> tb_cols tb = cols \<and> tb_keys tb = keys) \<and>
     list_all (row_ok ints strs) (table_rows db t) \<and> no_clash (clash_on db keys) (table_rows db t)"
  by (auto simp: table_ok_def table_rows_def keys_ok_def clash_is split: option.splits)

lemma table_ok_set_rows_other:
  "t' \<noteq> t \<Longrightarrow> table_ok (set_rows db t rows) t' cols keys ints strs = table_ok db t' cols keys ints strs"
  by (simp add: table_ok_iff map_of_set_rows table_rows_def)

lemma table_ok_set_rows:
  assumes "table_ok db t cols keys ints strs" "list_all (row_ok ints strs) rows" "no_clash (clash_on db keys) rows"
  shows "table_ok (set_rows db t rows) t cols keys ints strs"
  using assms table_rows_set_rows [OF assms(1), of rows t] by (auto simp: table_ok_iff map_of_set_rows)

lemma no_clash_filter: "no_clash f rs \<Longrightarrow> no_clash f (filter P rs)"
  by (induction rs) (auto simp: list_all_iff)

lemma no_clash_mid:
  assumes "\<And>a b. f a b \<Longrightarrow> f b a"
  shows "no_clash f (us @ r # vs) \<longleftrightarrow> no_clash f (us @ vs) \<and> list_all (\<lambda>y. \<not> f r y) (us @ vs)"
  using assms by (induction us) (auto simp: list_all_iff)

lemma rbac_ok_set_rows:
  assumes "rbac_ok db"
    and "\<And>cols keys ints strs. table_ok db t cols keys ints strs \<Longrightarrow> t \<in> set [''user'', ''role'', ''resource'', ''role_user'', ''role_resource''] \<Longrightarrow>
      cols \<in> set [user_cols, role_cols, resource_cols, role_user_cols, role_resource_cols] \<Longrightarrow>
      table_ok (set_rows db t rows) t cols keys ints strs"
  shows "rbac_ok (set_rows db t rows)"
  using assms table_ok_set_rows_other unfolding rbac_ok_def
  by (cases "t \<in> set [''user'', ''role'', ''resource'', ''role_user'', ''role_resource'']") auto

text \<open>Deleting rows keeps a database well formed.\<close>

lemma rbac_ok_filter:
  assumes "rbac_ok db"
  shows "rbac_ok (set_rows db t (filter P (table_rows db t)))"
  using assms(1)
proof (rule rbac_ok_set_rows)
  fix cols keys ints strs
  assume ok: "table_ok db t cols keys ints strs"
  then show "table_ok (set_rows db t (filter P (table_rows db t))) t cols keys ints strs"
    by (rule table_ok_set_rows) (use ok in \<open>auto simp: table_ok_iff list_all_iff intro: no_clash_filter\<close>)
qed

lemma runs_delete:
  assumes "runs (SDelete t wh) db db' n" "table_ok db t cols keys ints strs"
    and "\<And>now r. r \<in> set (table_rows db t) \<Longrightarrow> holds (eval_expr wh now db [[(t, cols, r)]]) = Inr (P r)"
  shows "db' = set_rows db t (filter (\<lambda>r. \<not> P r) (table_rows db t))"
proof -
  obtain tb where tb: "map_of (dt_tables db) t = Some tb" "tb_cols tb = cols" "tb_rows tb = table_rows db t"
    using assms(2) by (auto elim!: table_okD)
  have "efilter (\<lambda>r. ebind (holds (eval_expr wh now db [[(t, cols, r)]])) (\<lambda>b. Inr (\<not> b))) (table_rows db t) =
      Inr (filter (\<lambda>r. \<not> P r) (table_rows db t))" for now
    by (rule efilter_pure) (simp add: assms(3))
  then show ?thesis
    using assms(1) by (auto simp: runs_def run_delete_def with_table_def tb)
qed

subsection \<open>Insertion\<close>

definition new_row :: "string list \<Rightarrow> sqlval list \<Rightarrow> trow \<Rightarrow> int \<Rightarrow> trow" where
  "new_row cs vs dflt i = (\<lambda>c. case map_of (zip cs vs) c of Some v \<Rightarrow> v | None \<Rightarrow> dflt c)(''id'' := SInt i)"

text \<open>What an insertion does: a new row under a fresh id, or the time of the row that has the key.\<close>

definition upserted :: "database \<Rightarrow> string \<Rightarrow> string list list \<Rightarrow> trow \<Rightarrow> int \<Rightarrow> string \<Rightarrow> trow list \<Rightarrow> int \<Rightarrow> bool" where
  "upserted db t keys new i now rows n =
     (0 < i \<and> in_int64 i \<and> list_all (\<lambda>r. r ''id'' \<noteq> SInt i) (table_rows db t) \<and>
     (list_all (\<lambda>r. \<not> clash_on db keys new r) (table_rows db t) \<and> rows = table_rows db t @ [new] \<and> n = i \<or>
      (\<exists>us old vs. table_rows db t = us @ old # vs \<and> clash_on db keys new old \<and>
         list_all (\<lambda>r. \<not> clash_on db keys (old(''mtime'' := SStr now)) r) (us @ vs) \<and>
         rows = us @ old(''mtime'' := SStr now) # vs \<and> old ''id'' = SInt n)))"

lemma runs_insert:
  assumes "runs (SInsert t cs es touch) db db' n" "table_ok db t cols keys ints strs"
    and "length cs = length es" "''id'' \<notin> set cs" "''id'' \<in> set cols" "''id'' \<in> set ints"
    and "\<And>now. emap (\<lambda>e. eval_expr e now db []) es = Inr (vs now)"
  shows "\<exists>now i dflt rows. upserted db t keys (new_row cs (vs now) dflt i) i now rows n \<and> db' = set_rows db t rows"
proof -
  obtain tb where tb: "map_of (dt_tables db) t = Some tb" "tb_cols tb = cols" "tb_keys tb = keys"
    "tb_rows tb = table_rows db t"
    using assms(2) by (auto elim!: table_okD)
  obtain now i dflt where fresh: "fresh_id tb i" and run: "run_insert now i dflt db t cs es touch = Inl Unsupported \<or>
      run_insert now i dflt db t cs es touch = Inr (db', n)"
    using assms(1) by (auto simp: runs_def fresh_for_def tb)
  have fresh: "0 < i" "in_int64 i" "list_all (\<lambda>r. r ''id'' \<noteq> SInt i) (table_rows db t)"
    using fresh by (auto simp: fresh_id_def tb list_all_iff)
  let ?new = "new_row cs (vs now) dflt i"
  show ?thesis
  proof (cases "List.extract (clash db tb ?new) (table_rows db t)")
    case None
    then have "run_insert now i dflt db t cs es touch = Inr (set_rows db t (table_rows db t @ [?new]), i)"
      by (simp add: run_insert_def with_table_def tb assms(3,4,7) Let_def new_row_def [symmetric])
    moreover have "list_all (\<lambda>r. \<not> clash_on db keys ?new r) (table_rows db t)"
      using None by (simp add: extract_None_iff clash_is tb list_all_iff)
    ultimately have "upserted db t keys ?new i now (table_rows db t @ [?new]) n \<and>
        db' = set_rows db t (table_rows db t @ [?new])"
      using run fresh by (auto simp: upserted_def)
    then show ?thesis
      by blast
  next
    case (Some x)
    obtain us old ws where x: "x = (us, old, ws)"
      by (cases x)
    have old: "table_rows db t = us @ old # ws" "clash_on db keys ?new old"
      using Some by (auto simp: x extract_Some_iff clash_is tb)
    then have oid: "old ''id'' = SInt (ival old ''id'')"
      using table_int [OF assms(2) _ assms(6), of old] by simp
    have set_old: "assign now db [[(t, cols, old)]] touch old = Inr (old(''mtime'' := SStr now))"
      using oid by (simp add: touch_def eval_expr.simps resolve_col assms(5) fun_eq_iff)
    have set_id: "last_id touch now db [[(t, cols, old)]] = Inr (ival old ''id'')"
      using oid by (simp add: touch_def eval_expr.simps resolve_col assms(5))
    let ?rows = "us @ old(''mtime'' := SStr now) # ws"
    have "run_insert now i dflt db t cs es touch =
        (if list_ex (clash db tb (old(''mtime'' := SStr now))) (us @ ws) then Inl DuplicateKey
         else Inr (set_rows db t ?rows, ival old ''id''))"
      using Some set_old set_id unfolding x
      by (simp add: run_insert_def with_table_def tb assms(3,4,7) Let_def new_row_def [symmetric])
        (simp add: touch_def)
    then have "list_all (\<lambda>r. \<not> clash_on db keys (old(''mtime'' := SStr now)) r) (us @ ws) \<and>
        db' = set_rows db t ?rows \<and> n = ival old ''id''"
      using run by (auto simp: clash_is tb list_all_iff list_ex_iff split: if_splits)
    then have "upserted db t keys ?new i now ?rows n \<and> db' = set_rows db t ?rows"
      using old oid fresh unfolding upserted_def by blast
    then show ?thesis
      by blast
  qed
qed

text \<open>A database stays well formed when a well-typed row is inserted.\<close>

lemma row_ok_mtime:
  "row_ok ints strs r \<Longrightarrow> ''mtime'' \<notin> set ints \<Longrightarrow> row_ok ints strs (r(''mtime'' := SStr now))"
  by (auto simp: row_ok_def list_all_iff is_str_def)

lemma upserted_table_ok:
  assumes "upserted db t keys new i now rows n" "table_ok db t cols keys ints strs" "row_ok ints strs new"
    "''mtime'' \<notin> set ints"
  shows "table_ok (set_rows db t rows) t cols keys ints strs"
  using assms(2)
proof (rule table_ok_set_rows)
  have ok: "list_all (row_ok ints strs) (table_rows db t)" "no_clash (clash_on db keys) (table_rows db t)"
    using assms(2) by (simp_all add: table_ok_iff)
  note mid = no_clash_mid [of "clash_on db keys", OF clash_on_sym]
  show "list_all (row_ok ints strs) rows"
    using assms(1,3) ok(1) row_ok_mtime [OF _ assms(4)] by (auto simp: upserted_def)
  show "no_clash (clash_on db keys) rows"
    using assms(1) ok(2) mid [of _ _ "[]"] by (auto simp: upserted_def mid)
qed

text \<open>The relations after an insertion that is about other columns than the modification time.\<close>

lemma image_touched:
  assumes "table_rows db t = us @ old # vs" "\<And>r now. f (r(''mtime'' := SStr now)) = f r"
  shows "f ` set (us @ old(''mtime'' := SStr now) # vs) = f ` set (table_rows db t)"
  using assms by simp

lemma upserted_image:
  assumes "upserted db t keys new i now rows n" "\<And>r now. f (r(''mtime'' := SStr now)) = f r"
    and "\<And>old. old \<in> set (table_rows db t) \<Longrightarrow> clash_on db keys new old \<Longrightarrow> f old = f new"
  shows "f ` set rows = insert (f new) (f ` set (table_rows db t))"
  using assms(1) unfolding upserted_def
proof (elim disjE exE conjE)
  fix us old vs
  assume a: "table_rows db t = us @ old # vs" "clash_on db keys new old" "rows = us @ old(''mtime'' := SStr now) # vs"
  then have "f ` set rows = f ` set (table_rows db t)" "f old = f new"
    using image_touched [OF a(1) assms(2)] assms(3) by auto
  then show ?thesis
    using a(1) by auto
qed auto

lemma new_row_simps:
  "new_row cs vs dflt i ''id'' = SInt i"
  "c \<noteq> ''id'' \<Longrightarrow> map_of (zip cs vs) c = Some v \<Longrightarrow> new_row cs vs dflt i c = v"
  by (simp_all add: new_row_def)

lemma ival_mtime [simp]: "c \<noteq> ''mtime'' \<Longrightarrow> ival (r(''mtime'' := v)) c = ival r c"
  by (simp add: ival_def)

lemma sval_mtime [simp]: "c \<noteq> ''mtime'' \<Longrightarrow> sval (r(''mtime'' := v)) c = sval r c"
  by (simp add: sval_def)

end
