(* ===== verification/RbacProps.thy ===== *)
theory RbacProps
  imports RbacSpec
begin

text \<open>
  The functions of the rbac server as operations on the relations of \<open>RbacSpec\<close>: granting and revoking
  a resource, adding and removing a member, creating and deleting a role, and what a query then sees.
\<close>

section \<open>Definitions\<close>

text \<open>The roles as (id, application, name).\<close>

definition roles :: "database \<Rightarrow> (int \<times> int \<times> string) set" where
  "roles db = (\<lambda>r. (ival r ''id'', ival r ''app_id'', sval r ''name'')) ` set (table_rows db ''role'')"

text \<open>The abstract server: four relations, and what each operation does to them.\<close>

record rbac_state =
  rs_users :: "(int \<times> int \<times> string) set"
  rs_roles :: "(int \<times> int \<times> string) set"
  rs_members :: "(int \<times> int \<times> int) set"
  rs_grants :: "(int \<times> int \<times> int) set"

definition rbac_view :: "database \<Rightarrow> rbac_state" where
  "rbac_view db = \<lparr>rs_users = users db, rs_roles = roles db, rs_members = members db, rs_grants = grants db\<rparr>"

datatype rbac_op =
    Grant int int int
  | Revoke int int int
  | Join int int string string
  | Leave int int string
  | NewRole int string string string string
  | DropRole int int

definition known_user :: "(string \<Rightarrow> string) \<Rightarrow> int \<Rightarrow> string \<Rightarrow> int \<Rightarrow> rbac_state \<Rightarrow> rbac_state \<Rightarrow> bool" where
  "known_user coll app email uid s s' =
     (rs_users s \<subseteq> rs_users s' \<and> rs_users s' \<subseteq> insert (uid, app, email) (rs_users s) \<and>
      (\<exists>e. (uid, app, e) \<in> rs_users s' \<and> coll e = coll email) \<and> s' = s\<lparr>rs_users := rs_users s'\<rparr>)"

definition known_role :: "(string \<Rightarrow> string) \<Rightarrow> int \<Rightarrow> string \<Rightarrow> int \<Rightarrow> rbac_state \<Rightarrow> rbac_state \<Rightarrow> bool" where
  "known_role coll app name rid s s' =
     (rs_roles s \<subseteq> rs_roles s' \<and> rs_roles s' \<subseteq> insert (rid, app, name) (rs_roles s) \<and>
      (\<exists>e. (rid, app, e) \<in> rs_roles s' \<and> coll e = coll name) \<and> s' = s\<lparr>rs_roles := rs_roles s'\<rparr>)"

text \<open>One operation that succeeds or fails.  A failed one may have entered a user or a role on its
  way, but it has enrolled nobody, granted nothing and taken nothing away.\<close>

inductive spec_step :: "(string \<Rightarrow> string) \<Rightarrow> rbac_op \<Rightarrow> bool \<Rightarrow> rbac_state \<Rightarrow> rbac_state \<Rightarrow> bool" for coll where
  grant: "spec_step coll (Grant app role res) True s (s\<lparr>rs_grants := insert (app, role, res) (rs_grants s)\<rparr>)"
| revoke: "spec_step coll (Revoke app role res) True s (s\<lparr>rs_grants := rs_grants s - {(app, role, res)}\<rparr>)"
| join: "known_user coll app email uid s s1 \<Longrightarrow>
    spec_step coll (Join app role name email) True s (s1\<lparr>rs_members := insert (app, role, uid) (rs_members s1)\<rparr>)"
| leave: "spec_step coll (Leave app role email) True s
    (s\<lparr>rs_members := rs_members s - {(app, role, u) | u e. (u, app, e) \<in> rs_users s \<and> coll e = coll email}\<rparr>)"
| found: "known_user coll app email uid s s1 \<Longrightarrow> known_role coll app name rid s1 s2 \<Longrightarrow>
    known_user coll app email uid' s2 s3 \<Longrightarrow>
    spec_step coll (NewRole app name user email comments) True s
      (s3\<lparr>rs_members := insert (app, rid, uid') (rs_members s3)\<rparr>)"
| drop_role: "(\<nexists>u. (app, role, u) \<in> rs_members s) \<Longrightarrow> (\<nexists>r. (app, role, r) \<in> rs_grants s) \<Longrightarrow>
    spec_step coll (DropRole app role) True s (s\<lparr>rs_roles := rs_roles s - {role} \<times> {app} \<times> UNIV\<rparr>)"
| failed: "rs_members s' = rs_members s \<Longrightarrow> rs_grants s' = rs_grants s \<Longrightarrow> rs_users s \<subseteq> rs_users s' \<Longrightarrow>
    rs_roles s \<subseteq> rs_roles s' \<Longrightarrow> spec_step coll op False s s'"

inductive spec_run :: "(string \<Rightarrow> string) \<Rightarrow> (rbac_op \<times> bool) list \<Rightarrow> rbac_state \<Rightarrow> rbac_state \<Rightarrow> bool" for coll where
  done_: "spec_run coll [] s s"
| more: "spec_step coll op b s s1 \<Longrightarrow> spec_run coll ops s1 s2 \<Longrightarrow> spec_run coll ((op, b) # ops) s s2"

text \<open>The same operations on the server, and a sequence of them with their outcomes.\<close>

fun perform :: "'w dbms \<Rightarrow> rbac_op \<Rightarrow> ('w, unit) call" where
  "perform D (Grant app role res) = cbind (RelationResourceRoleAdd D app res role) (\<lambda>_. creturn ())"
| "perform D (Revoke app role res) = RoleResourceDelete D app role res"
| "perform D (Join app role name email) = cbind (RoleUserAdd D app role name email) (\<lambda>_. creturn ())"
| "perform D (Leave app role email) = RoleUserDelete D app role email"
| "perform D (NewRole app name user email comments) = cbind (RoleAdd D app name user email comments) (\<lambda>_. creturn ())"
| "perform D (DropRole app role) = RoleDelete D app role"

fun perform_all :: "'w dbms \<Rightarrow> rbac_op list \<Rightarrow> 'w \<Rightarrow> bool list \<times> 'w" where
  "perform_all D [] w = ([], w)"
| "perform_all D (op # ops) w =
     (case perform D op w of (x, w1) \<Rightarrow> case perform_all D ops w1 of (bs, w2) \<Rightarrow> ((\<not> isl x) # bs, w2))"

definition good_text :: "string \<Rightarrow> bool" where
  "good_text s = (s \<noteq> [] \<and> clean s)"

fun op_ok :: "rbac_op \<Rightarrow> bool" where
  "op_ok (Grant app role res) = (in_int64 app \<and> in_int64 role \<and> in_int64 res)"
| "op_ok (Revoke app role res) = (in_int64 app \<and> in_int64 role \<and> in_int64 res)"
| "op_ok (Join app role name email) = (in_int64 app \<and> in_int64 role \<and> good_text name \<and> good_text email)"
| "op_ok (Leave app role email) = (in_int64 app \<and> in_int64 role \<and> clean email)"
| "op_ok (NewRole app name user email comments) =
     (in_int64 app \<and> good_text name \<and> good_text user \<and> good_text email \<and> good_text comments)"
| "op_ok (DropRole app role) = (in_int64 app \<and> in_int64 role)"

text \<open>A small database: one user, who is in a role that may use one resource.\<close>

definition mk_row :: "(string \<times> sqlval) list \<Rightarrow> trow" where
  "mk_row kvs c = (case map_of kvs c of Some v \<Rightarrow> v | None \<Rightarrow> SStr [])"

definition demo_db :: database where
  "demo_db =
     \<lparr>dt_tables =
        [(''user'', \<lparr>tb_cols = user_cols, tb_keys = [[''email'', ''app_id'']], tb_rows =
            [mk_row [(''id'', SInt 1), (''app_id'', SInt 7), (''name'', SStr ''bob''), (''email'', SStr ''bob@x.io'')]]\<rparr>),
         (''role'', \<lparr>tb_cols = role_cols, tb_keys = [[''app_id'', ''name'']], tb_rows =
            [mk_row [(''id'', SInt 3), (''app_id'', SInt 7), (''name'', SStr ''dev''), (''user_id'', SInt 1)]]\<rparr>),
         (''resource'', \<lparr>tb_cols = resource_cols, tb_keys = [[''app_id'', ''name'']], tb_rows =
            [mk_row [(''id'', SInt 5), (''app_id'', SInt 7), (''name'', SStr ''api'')]]\<rparr>),
         (''role_user'', \<lparr>tb_cols = role_user_cols, tb_keys = [[''app_id'', ''role_id'', ''user_id'']], tb_rows =
            [mk_row [(''id'', SInt 1), (''app_id'', SInt 7), (''role_id'', SInt 3), (''user_id'', SInt 1)]]\<rparr>),
         (''role_resource'', \<lparr>tb_cols = role_resource_cols, tb_keys = [[''app_id'', ''role_id'', ''resource_id'']], tb_rows =
            [mk_row [(''id'', SInt 1), (''app_id'', SInt 7), (''role_id'', SInt 3), (''resource_id'', SInt 5)]]\<rparr>)],
      dt_coll = to_lower\<rparr>"

definition demo_ops :: "rbac_op list" where
  "demo_ops = [Grant 7 3 6, DropRole 7 3, Leave 7 3 ''BOB@x.io'']"

section \<open>Lemmas\<close>

subsection \<open>Calls\<close>

context sql_server
begin

lemma add_runs:
  assumes "add D T table x w = (Inr n, w')" "sql_parse (insert_sql table T x) [] = Some s"
  shows "runs s (db w) (db w') n"
proof -
  obtain w1 a where c: "GetConnection D w = (Inr (), w1)" "db_Exec D (insert_sql table T x) [] w1 = (Inr (n, a), w')"
    using assms(1) by (auto simp: add_def cbind_eq_Inr creturn_def craise_def split: if_splits prod.splits)
  then show ?thesis
    using GetConnection_keeps [OF c(1)] db_Exec_runs [OF c(2) assms(2)] by simp
qed

lemma exec_runs_stmt:
  assumes "exec D sql w = (Inr a, w')" "sql_parse sql [] = Some s"
  shows "\<exists>n. runs s (db w) (db w') n"
proof -
  obtain w1 n where c: "GetConnection D w = (Inr (), w1)" "db_Exec D sql [] w1 = (Inr (n, a), w')"
    using assms(1) by (auto simp: exec_def cbind_eq_Inr creturn_def split: prod.splits)
  then show ?thesis
    using GetConnection_keeps [OF c(1)] db_Exec_runs [OF c(2) assms(2)] by auto
qed

lemma exec_failed: "exec D sql w = (Inl f, w') \<Longrightarrow> db w' = db w"
  by (auto simp: exec_def cbind_def creturn_def split: prod.splits sum.splits
      dest!: GetConnection_keeps db_Exec_fails)

lemma exec_unit_runs:
  assumes "cbind (exec D sql) (\<lambda>_. creturn ()) w = (Inr u, w')" "sql_parse sql [] = Some s"
  shows "\<exists>n. runs s (db w) (db w') n"
  using assms exec_runs_stmt by (auto simp: cbind_eq_Inr creturn_def)

lemma exec_unit_failed:
  "cbind (exec D sql) (\<lambda>_. creturn ()) w = (Inl f, w') \<Longrightarrow> db w' = db w"
  using exec_failed by (auto simp: cbind_def creturn_def split: prod.splits sum.splits)

lemma validate_rows:
  assumes "validate D sql w = (Inr b, w')" "sql_parse sql [] = Some (SSelect q)"
  shows "db w' = db w \<and> (\<exists>now rows. answers now q (db w) rows \<and> b = (rows \<noteq> []))"
proof -
  obtain w1 rows where c: "GetConnection D w = (Inr (), w1)" "db_Query D sql [] w1 = (Inr rows, w')" "b = (rows \<noteq> [])"
    using assms(1) by (auto simp: validate_def cbind_eq_Inr creturn_def)
  then show ?thesis
    using GetConnection_keeps [OF c(1)] db_Query_keeps [OF c(2)] db_Query_rows [OF c(2) assms(2)] by auto
qed

lemma validate_keeps: "validate D sql w = (x, w') \<Longrightarrow> db w' = db w"
  by (auto simp: validate_def cbind_def creturn_def split: prod.splits sum.splits
      dest!: GetConnection_keeps db_Query_keeps)

lemma add_failed: "add D T table x w = (Inl f, w') \<Longrightarrow> db w' = db w"
  by (auto simp: add_def cbind_def creturn_def craise_def split: prod.splits sum.splits if_splits
      dest!: GetConnection_keeps db_Exec_fails)

end

subsection \<open>Insertions on the relations\<close>

lemma map_touch [simp]: "map (map_prod id (map_expr f)) touch = touch"
  by (simp add: touch_def)

lemma emap_literals:
  "emap (\<lambda>e. eval_expr e now db []) (map ELit vs @ [ENow, ENow]) = Inr (vs @ [SStr now, SStr now])"
  by (induction vs) (simp_all add: eval_expr.simps)

lemma clash_key:
  assumes "clash_on db [k] new old" "old ''id'' \<noteq> new ''id''" "is_int (new ''id'')"
  shows "key_clash (dt_coll db) k new old"
  using assms by (auto simp: clash_on_def key_clash_def is_int_def split: sqlval.splits) (cases "old ''id''"; auto)

lemma key_clash_int:
  assumes "key_clash coll k new old" "c \<in> set k" "new c = SInt x"
  shows "old c = SInt x"
  using assms by (cases "old c") (auto simp: key_clash_def list_all_iff dest!: bspec)

lemma key_clash_str:
  assumes "key_clash coll k new old" "c \<in> set k" "new c = SStr x"
  shows "\<exists>y. old c = SStr y \<and> coll x = coll y"
  using assms by (cases "old c") (auto simp: key_clash_def list_all_iff dest!: bspec)

lemma ival_SInt: "r c = SInt x \<Longrightarrow> ival r c = x"
  by (simp add: ival_def)

lemma sval_SStr: "r c = SStr x \<Longrightarrow> sval r c = x"
  by (simp add: sval_def)

lemma upserted_id:
  "upserted db t keys new i now rows n \<Longrightarrow> old \<in> set (table_rows db t) \<Longrightarrow> old ''id'' \<noteq> SInt i"
  by (auto simp: upserted_def list_all_iff)

text \<open>The frame of a change of one table.\<close>

lemma relations_set_rows:
  assumes "table_ok db t cols keys ints strs"
  shows "t \<noteq> ''user'' \<Longrightarrow> users (set_rows db t rows) = users db"
    "t \<noteq> ''role_user'' \<Longrightarrow> members (set_rows db t rows) = members db"
    "t \<noteq> ''role_resource'' \<Longrightarrow> grants (set_rows db t rows) = grants db"
    "t \<noteq> ''role'' \<Longrightarrow> roles (set_rows db t rows) = roles db"
  by (simp_all add: users_def roles_def members_def grants_def table_rows_set_rows [OF assms])

text \<open>Inserting a row into a relation table: the relation gains the triple.\<close>

lemma insert_relation:
  assumes "runs (SInsert t [''app_id'', c, ''role_id'', ''ctime'', ''mtime'']
      (map ELit [SInt app, SInt x, SInt role] @ [ENow, ENow]) touch) db db' n"
    and ok: "table_ok db t cols [[''app_id'', ''role_id'', c]] [''id'', ''app_id'', ''role_id'', c] [''ctime'', ''mtime'']"
    and "''id'' \<in> set cols" "c \<notin> set [''id'', ''app_id'', ''role_id'', ''ctime'', ''mtime'']"
    and "in_int64 app" "in_int64 role" "in_int64 x"
  shows "\<exists>rows. db' = set_rows db t rows \<and>
    table_ok db' t cols [[''app_id'', ''role_id'', c]] [''id'', ''app_id'', ''role_id'', c] [''ctime'', ''mtime''] \<and>
    (\<lambda>r. (ival r ''app_id'', ival r ''role_id'', ival r c)) ` set rows =
      insert (app, role, x) ((\<lambda>r. (ival r ''app_id'', ival r ''role_id'', ival r c)) ` set (table_rows db t))"
proof -
  have "\<exists>now i dflt rows. upserted db t [[''app_id'', ''role_id'', c]]
      (new_row [''app_id'', c, ''role_id'', ''ctime'', ''mtime'']
        ([SInt app, SInt x, SInt role] @ [SStr now, SStr now]) dflt i) i now rows n \<and> db' = set_rows db t rows"
    by (rule runs_insert [OF assms(1) ok _ _ _ _ emap_literals]) (use assms in auto)
  then obtain now i dflt rows where up: "upserted db t [[''app_id'', ''role_id'', c]]
      (new_row [''app_id'', c, ''role_id'', ''ctime'', ''mtime'']
        [SInt app, SInt x, SInt role, SStr now, SStr now] dflt i) i now rows n"
    and db': "db' = set_rows db t rows"
    by auto
  let ?new = "new_row [''app_id'', c, ''role_id'', ''ctime'', ''mtime'']
        [SInt app, SInt x, SInt role, SStr now, SStr now] dflt i"
  let ?f = "\<lambda>r. (ival r ''app_id'', ival r ''role_id'', ival r c)"
  have new: "?new ''app_id'' = SInt app" "?new c = SInt x" "?new ''role_id'' = SInt role"
    "?new ''ctime'' = SStr now" "?new ''mtime'' = SStr now" "?new ''id'' = SInt i" "in_int64 i"
    using up assms(4) by (auto simp: new_row_def upserted_def)
  have "table_ok db' t cols [[''app_id'', ''role_id'', c]] [''id'', ''app_id'', ''role_id'', c] [''ctime'', ''mtime'']"
    unfolding db' by (rule upserted_table_ok [OF up ok])
      (use assms(3-7) in \<open>auto simp: row_ok_def new is_int_def is_str_def\<close>)
  moreover have "?f ` set rows = insert (?f ?new) (?f ` set (table_rows db t))"
  proof (rule upserted_image [OF up])
    fix old
    assume old: "old \<in> set (table_rows db t)" "clash_on db [[''app_id'', ''role_id'', c]] ?new old"
    then have "key_clash (dt_coll db) [''app_id'', ''role_id'', c] ?new old"
      using upserted_id [OF up old(1)] new by (intro clash_key) (auto simp: is_int_def)
    then show "?f old = ?f ?new"
      using key_clash_int [where c = "''app_id''" and new = ?new and old = old]
        key_clash_int [where c = "''role_id''" and new = ?new and old = old]
        key_clash_int [where c = c and new = ?new and old = old]
      by (simp add: ival_SInt new)
  qed (use assms(4) in simp)
  ultimately show ?thesis
    using db' by (auto simp: ival_SInt new)
qed

lemma insert_role_resource:
  assumes "runs (SInsert ''role_resource'' [''app_id'', ''resource_id'', ''role_id'', ''ctime'', ''mtime'']
      (map ELit [SInt app, SInt res, SInt role] @ [ENow, ENow]) touch) db db' n" "rbac_ok db"
    and "in_int64 app" "in_int64 role" "in_int64 res"
  shows "grants db' = insert (app, role, res) (grants db) \<and> members db' = members db \<and> users db' = users db \<and>
    roles db' = roles db \<and> dt_coll db' = dt_coll db \<and> rbac_ok db'"
proof -
  note ok = rbac_okD(5) [OF assms(2)]
  have c: "''id'' \<in> set role_resource_cols" "''resource_id'' \<notin> set [''id'', ''app_id'', ''role_id'', ''ctime'', ''mtime'']"
    by (simp_all add: role_resource_cols_def)
  show ?thesis
    using insert_relation [OF assms(1) ok c assms(3-5)]
  proof (elim exE conjE, goal_cases)
    case (1 rows)
    then show ?case
      using assms(2) by (simp add: grants_def rbac_ok_def table_ok_set_rows_other table_rows_set_rows [OF ok]
          relations_set_rows [OF ok])
  qed
qed

lemma insert_role_user:
  assumes "runs (SInsert ''role_user'' [''app_id'', ''user_id'', ''role_id'', ''ctime'', ''mtime'']
      (map ELit [SInt app, SInt user, SInt role] @ [ENow, ENow]) touch) db db' n" "rbac_ok db"
    and "in_int64 app" "in_int64 role" "in_int64 user"
  shows "members db' = insert (app, role, user) (members db) \<and> grants db' = grants db \<and> users db' = users db \<and>
    roles db' = roles db \<and> dt_coll db' = dt_coll db \<and> rbac_ok db'"
proof -
  note ok = rbac_okD(4) [OF assms(2)]
  have c: "''id'' \<in> set role_user_cols" "''user_id'' \<notin> set [''id'', ''app_id'', ''role_id'', ''ctime'', ''mtime'']"
    by (simp_all add: role_user_cols_def)
  show ?thesis
    using insert_relation [OF assms(1) ok c assms(3-5)]
  proof (elim exE conjE, goal_cases)
    case (1 rows)
    then show ?case
      using assms(2) by (simp add: members_def rbac_ok_def table_ok_set_rows_other table_rows_set_rows [OF ok]
          relations_set_rows [OF ok])
  qed
qed

text \<open>Inserting a row into a table of named things: the reported id is that of a row with the
  application and the name, and at most that row is new.\<close>

definition named :: "string \<Rightarrow> trow \<Rightarrow> int \<times> int \<times> string" where
  "named c r = (ival r ''id'', ival r ''app_id'', sval r c)"

lemma upserted_named:
  assumes up: "upserted db t [k] new i now rows n" and "new ''id'' = SInt i" "new ''app_id'' = SInt app" "new c = SStr s"
    and "set k = {''app_id'', c}" "c \<noteq> ''mtime''"
    and ids: "list_all (\<lambda>r. is_int (r ''id'')) (table_rows db t)"
  shows "named c ` set (table_rows db t) \<subseteq> named c ` set rows \<and>
    named c ` set rows \<subseteq> insert (n, app, s) (named c ` set (table_rows db t)) \<and> in_int64 n \<and>
    (\<exists>e. (n, app, e) \<in> named c ` set rows \<and> dt_coll db e = dt_coll db s)"
  using up unfolding upserted_def
proof (elim conjE disjE exE)
  assume a: "rows = table_rows db t @ [new]" "n = i" "in_int64 i"
  have "named c new = (i, app, s)"
    using assms by (simp add: named_def ival_SInt sval_SStr)
  then show ?thesis
    using a by auto
next
  fix us old vs
  assume a: "table_rows db t = us @ old # vs" "clash_on db [k] new old"
    "rows = us @ old(''mtime'' := SStr now) # vs" "old ''id'' = SInt n"
  then have old: "old \<in> set (table_rows db t)"
    by simp
  have kc: "key_clash (dt_coll db) k new old"
    using clash_key [OF a(2)] upserted_id [OF up old] assms(2) up by (auto simp: is_int_def upserted_def)
  obtain y where y: "old ''app_id'' = SInt app" "old c = SStr y" "dt_coll db s = dt_coll db y"
    using key_clash_int [OF kc, of "''app_id''" app] key_clash_str [OF kc, of c s] assms(3-5) by auto
  have same: "named c ` set rows = named c ` set (table_rows db t)"
    unfolding a(3) by (rule image_touched [OF a(1)]) (use assms(6) in \<open>simp add: named_def\<close>)
  have "named c old = (n, app, y)"
    using a(4) y by (simp add: named_def ival_SInt sval_SStr)
  then have "(n, app, y) \<in> named c ` set rows"
    using old same by force
  then show ?thesis
    using y(3) same ids old a(4) by (auto simp: is_int_def list_all_iff)
qed

lemma insert_user:
  assumes "runs (SInsert ''user'' [''app_id'', ''name'', ''email'', ''ctime'', ''mtime'']
      (map ELit [SInt app, SStr name, SStr email] @ [ENow, ENow]) touch) db db' n" "rbac_ok db" "in_int64 app"
  shows "users db \<subseteq> users db' \<and> users db' \<subseteq> insert (n, app, email) (users db) \<and> in_int64 n \<and>
    (\<exists>e. (n, app, e) \<in> users db' \<and> same_email db e email) \<and>
    members db' = members db \<and> grants db' = grants db \<and> roles db' = roles db \<and> dt_coll db' = dt_coll db \<and> rbac_ok db'"
proof -
  note ok = rbac_okD(1) [OF assms(2)]
  have "\<exists>now i dflt rows. upserted db ''user'' [[''email'', ''app_id'']]
      (new_row [''app_id'', ''name'', ''email'', ''ctime'', ''mtime'']
        ([SInt app, SStr name, SStr email] @ [SStr now, SStr now]) dflt i) i now rows n \<and> db' = set_rows db ''user'' rows"
    by (rule runs_insert [OF assms(1) ok _ _ _ _ emap_literals]) (auto simp: user_cols_def)
  then obtain now i dflt rows where up: "upserted db ''user'' [[''email'', ''app_id'']]
      (new_row [''app_id'', ''name'', ''email'', ''ctime'', ''mtime'']
        [SInt app, SStr name, SStr email, SStr now, SStr now] dflt i) i now rows n"
    and db': "db' = set_rows db ''user'' rows"
    by auto
  let ?new = "new_row [''app_id'', ''name'', ''email'', ''ctime'', ''mtime'']
        [SInt app, SStr name, SStr email, SStr now, SStr now] dflt i"
  have new: "?new ''id'' = SInt i" "?new ''app_id'' = SInt app" "?new ''email'' = SStr email" "?new ''name'' = SStr name"
    "?new ''ctime'' = SStr now" "?new ''mtime'' = SStr now" "in_int64 i"
    using up by (simp_all add: new_row_def upserted_def)
  have "table_ok db' ''user'' user_cols [[''email'', ''app_id'']]
      [''id'', ''app_id''] [''name'', ''email'', ''ctime'', ''mtime'']"
    unfolding db' by (rule upserted_table_ok [OF up ok]) (simp_all add: row_ok_def new is_int_def is_str_def assms)
  moreover have ids: "list_all (\<lambda>r. is_int (r ''id'')) (table_rows db ''user'')"
    using ok by (auto simp: table_ok_iff list_all_iff row_ok_def)
  have "set ([''email'', ''app_id'']) = {''app_id'', ''email''}" "''email'' \<noteq> ''mtime''"
    by auto
  note upserted_named [where c = "''email''", OF up, OF new(1-3) this ids]
  moreover have "users db' = named ''email'' ` set rows" "users db = named ''email'' ` set (table_rows db ''user'')"
    by (simp_all add: users_def named_def db' table_rows_set_rows [OF ok])
  ultimately show ?thesis
    using assms(2) by (simp add: rbac_ok_def db' table_ok_set_rows_other relations_set_rows [OF ok] same_email_def
        insert_commute)
qed

lemma insert_role:
  assumes "runs (SInsert ''role'' [''app_id'', ''name'', ''user_id'', ''comments'', ''ctime'', ''mtime'']
      (map ELit [SInt app, SStr name, SInt user, SStr comments] @ [ENow, ENow]) touch) db db' n"
    "rbac_ok db" "in_int64 app" "in_int64 user"
  shows "roles db \<subseteq> roles db' \<and> roles db' \<subseteq> insert (n, app, name) (roles db) \<and> in_int64 n \<and>
    (\<exists>e. (n, app, e) \<in> roles db' \<and> dt_coll db e = dt_coll db name) \<and>
    members db' = members db \<and> grants db' = grants db \<and> users db' = users db \<and> dt_coll db' = dt_coll db \<and> rbac_ok db'"
proof -
  note ok = rbac_okD(2) [OF assms(2)]
  have "\<exists>now i dflt rows. upserted db ''role'' [[''app_id'', ''name'']]
      (new_row [''app_id'', ''name'', ''user_id'', ''comments'', ''ctime'', ''mtime'']
        ([SInt app, SStr name, SInt user, SStr comments] @ [SStr now, SStr now]) dflt i) i now rows n \<and>
      db' = set_rows db ''role'' rows"
    by (rule runs_insert [OF assms(1) ok _ _ _ _ emap_literals]) (auto simp: role_cols_def)
  then obtain now i dflt rows where up: "upserted db ''role'' [[''app_id'', ''name'']]
      (new_row [''app_id'', ''name'', ''user_id'', ''comments'', ''ctime'', ''mtime'']
        [SInt app, SStr name, SInt user, SStr comments, SStr now, SStr now] dflt i) i now rows n"
    and db': "db' = set_rows db ''role'' rows"
    by auto
  let ?new = "new_row [''app_id'', ''name'', ''user_id'', ''comments'', ''ctime'', ''mtime'']
        [SInt app, SStr name, SInt user, SStr comments, SStr now, SStr now] dflt i"
  have new: "?new ''id'' = SInt i" "?new ''app_id'' = SInt app" "?new ''name'' = SStr name" "?new ''user_id'' = SInt user"
    "?new ''comments'' = SStr comments" "?new ''ctime'' = SStr now" "?new ''mtime'' = SStr now" "in_int64 i"
    using up by (simp_all add: new_row_def upserted_def)
  have "table_ok db' ''role'' role_cols [[''app_id'', ''name'']]
      [''id'', ''app_id'', ''user_id''] [''name'', ''comments'', ''ctime'', ''mtime'']"
    unfolding db' by (rule upserted_table_ok [OF up ok]) (simp_all add: row_ok_def new is_int_def is_str_def assms)
  moreover have ids: "list_all (\<lambda>r. is_int (r ''id'')) (table_rows db ''role'')"
    using ok by (auto simp: table_ok_iff list_all_iff row_ok_def)
  have "set ([''app_id'', ''name'']) = {''app_id'', ''name''}" "''name'' \<noteq> ''mtime''"
    by auto
  note upserted_named [where c = "''name''", OF up, OF new(1-3) this ids]
  moreover have "roles db' = named ''name'' ` set rows" "roles db = named ''name'' ` set (table_rows db ''role'')"
    by (simp_all add: roles_def named_def db' table_rows_set_rows [OF ok])
  ultimately show ?thesis
    using assms(2) by (simp add: rbac_ok_def db' table_ok_set_rows_other relations_set_rows [OF ok])
qed

subsection \<open>Deletions on the relations\<close>

lemma eval_col_is:
  assumes "c \<in> set cols" "r c = SInt i"
  shows "eval_expr (col_is c (SInt j)) now db ([(t, cols, r)] # env) = Inr (SInt (of_bool (i = j)))"
  using assms by (simp add: col_is_def eval_expr.simps resolve_col)

lemma delete_relation:
  assumes "runs (SDelete t (EAnd (col_is ''app_id'' (SInt app)) (EAnd (col_is ''role_id'' (SInt role)) (col_is c (SInt x))))) db db' n"
    and ok: "table_ok db t cols keys ints strs" and "set [''app_id'', ''role_id'', c] \<subseteq> set ints" "set ints \<subseteq> set cols"
  shows "db' = set_rows db t (filter (\<lambda>r. \<not> (ival r ''app_id'' = app \<and> ival r ''role_id'' = role \<and> ival r c = x))
    (table_rows db t))"
proof (rule runs_delete [OF assms(1) ok])
  fix now r
  assume r: "r \<in> set (table_rows db t)"
  have "eval_expr (col_is d (SInt j)) now db [[(t, cols, r)]] = Inr (SInt (of_bool (ival r d = j)))"
    if "d \<in> set ints" for d j
    using eval_col_is [of d cols r] table_int [OF ok r that] that assms(4) by blast
  then show "holds (eval_expr (EAnd (col_is ''app_id'' (SInt app)) (EAnd (col_is ''role_id'' (SInt role))
      (col_is c (SInt x)))) now db [[(t, cols, r)]]) =
      Inr (ival r ''app_id'' = app \<and> ival r ''role_id'' = role \<and> ival r c = x)"
    using assms(3) by (simp add: eval_expr.simps)
qed

lemma relation_subset:
  "set [''app_id'', ''role_id'', ''resource_id''] \<subseteq> set [''id'', ''app_id'', ''role_id'', ''resource_id'']"
  "set [''id'', ''app_id'', ''role_id'', ''resource_id''] \<subseteq> set role_resource_cols"
  by (simp_all add: role_resource_cols_def)

lemma delete_grant:
  assumes "runs (SDelete ''role_resource'' (EAnd (col_is ''app_id'' (SInt app)) (EAnd (col_is ''role_id'' (SInt role))
      (col_is ''resource_id'' (SInt res))))) db db' n" "rbac_ok db"
  shows "grants db' = grants db - {(app, role, res)} \<and> members db' = members db \<and> users db' = users db \<and>
    roles db' = roles db \<and> dt_coll db' = dt_coll db \<and> rbac_ok db'"
proof -
  note ok = rbac_okD(5) [OF assms(2)]
  have db': "db' = set_rows db ''role_resource'' (filter (\<lambda>r. \<not> (ival r ''app_id'' = app \<and> ival r ''role_id'' = role \<and>
      ival r ''resource_id'' = res)) (table_rows db ''role_resource''))"
    by (rule delete_relation [OF assms(1) ok relation_subset])
  moreover have "rbac_ok db'"
    unfolding db' by (rule rbac_ok_filter [OF assms(2)])
  ultimately show ?thesis
    by (auto simp: grants_def table_rows_set_rows [OF ok] relations_set_rows [OF ok])
qed

lemma user_subselect_swapped:
  assumes "rbac_ok db"
  shows "eval_select (Sel False (Some [(None, ''id'')]) [''user'']
      (EAnd (col_is ''app_id'' (SInt app)) (col_is ''email'' (SStr email))) None None) now db env =
    Inr (map (\<lambda>r. [r ''id'']) (user_rows db app email))"
proof -
  note ok = rbac_okD(1) [OF assms]
  have cols: "''id'' \<in> set user_cols" "''email'' \<in> set user_cols" "''app_id'' \<in> set user_cols"
    by (simp_all add: user_cols_def)
  have "holds (eval_expr (EAnd (col_is ''app_id'' (SInt app)) (col_is ''email'' (SStr email))) now db
      ([(''user'', user_cols, r)] # env)) = Inr (same_email db (sval r ''email'') email \<and> ival r ''app_id'' = app)"
    if "r \<in> set (table_rows db ''user'')" for r
    using table_int [OF ok that, of "''app_id''"] table_str [OF ok that, of "''email''"] cols
    by (simp add: eval_expr.simps col_is_def resolve_col same_email_def conj_commute)
  then show ?thesis
    by (subst table_select [OF ok cols(1), where P =
          "\<lambda>r. same_email db (sval r ''email'') email \<and> ival r ''app_id'' = app"])
      (simp_all add: user_rows_def Let_def)
qed

lemma delete_member:
  assumes "runs (SDelete ''role_user'' (EAnd (col_is ''app_id'' (SInt app)) (EAnd (col_is ''role_id'' (SInt role))
      (EEq (ECol (None, ''user_id'')) (ESub (Sel False (Some [(None, ''id'')]) [''user'']
        (EAnd (col_is ''app_id'' (SInt app)) (col_is ''email'' (SStr email))) None None)))))) db db' n" "rbac_ok db"
  shows "members db' = members db - {(app, role, u) | u e. (u, app, e) \<in> users db \<and> same_email db e email} \<and>
    grants db' = grants db \<and> users db' = users db \<and> roles db' = roles db \<and> dt_coll db' = dt_coll db \<and> rbac_ok db'"
proof -
  note ok = rbac_okD(4) [OF assms(2)]
  let ?P = "\<lambda>r. ival r ''app_id'' = app \<and> ival r ''role_id'' = role \<and>
    (\<exists>u \<in> set (user_rows db app email). ival r ''user_id'' = ival u ''id'')"
  have cols: "''app_id'' \<in> set role_user_cols" "''role_id'' \<in> set role_user_cols" "''user_id'' \<in> set role_user_cols"
    by (simp_all add: role_user_cols_def)
  have db': "db' = set_rows db ''role_user'' (filter (\<lambda>r. \<not> ?P r) (table_rows db ''role_user''))"
  proof (rule runs_delete [OF assms(1) ok])
    fix now r
    assume r: "r \<in> set (table_rows db ''role_user'')"
    have i: "r ''app_id'' = SInt (ival r ''app_id'')" "r ''role_id'' = SInt (ival r ''role_id'')"
      "r ''user_id'' = SInt (ival r ''user_id'')"
      using table_int [OF ok r] by auto
    show "holds (eval_expr (EAnd (col_is ''app_id'' (SInt app)) (EAnd (col_is ''role_id'' (SInt role))
      (EEq (ECol (None, ''user_id'')) (ESub (Sel False (Some [(None, ''id'')]) [''user'']
        (EAnd (col_is ''app_id'' (SInt app)) (col_is ''email'' (SStr email))) None None))))) now db
        [[(''role_user'', role_user_cols, r)]]) = Inr (?P r)"
    proof (cases "user_rows db app email")
      case Nil
      then show ?thesis
        using eval_col_is [OF cols(1), of r, OF i(1)] eval_col_is [OF cols(2), of r, OF i(2)] i(3)
        by (cases "ival r ''app_id'' = app"; cases "ival r ''role_id'' = role")
          (auto simp: eval_expr.simps user_subselect_swapped [OF assms(2)] resolve_col cols holds_def scalar_def)
    next
      case (Cons u us)
      then have u: "user_rows db app email = [u]"
        using user_rows_unique [OF assms(2), of app email] by auto
      then show ?thesis
        using eval_col_is [OF cols(1), of r, OF i(1)] eval_col_is [OF cols(2), of r, OF i(2)] i(3) user_scalar [OF assms(2), of app email]
        by (simp add: eval_expr.simps user_subselect_swapped [OF assms(2)] resolve_col cols)
    qed
  qed
  moreover have "rbac_ok db'"
    unfolding db' by (rule rbac_ok_filter [OF assms(2)])
  ultimately show ?thesis
    by (auto simp: members_def table_rows_set_rows [OF ok] relations_set_rows [OF ok] user_rows_users)
qed

lemma delete_role:
  assumes "runs (SDelete ''role'' (EAnd (col_is ''id'' (SInt role)) (col_is ''app_id'' (SInt app)))) db db' n" "rbac_ok db"
  shows "roles db' = roles db - {role} \<times> {app} \<times> UNIV \<and> members db' = members db \<and> users db' = users db \<and>
    grants db' = grants db \<and> dt_coll db' = dt_coll db \<and> rbac_ok db'"
proof -
  note ok = rbac_okD(2) [OF assms(2)]
  have cols: "''app_id'' \<in> set role_cols" "''id'' \<in> set role_cols"
    by (simp_all add: role_cols_def)
  have db': "db' = set_rows db ''role'' (filter (\<lambda>r. \<not> (ival r ''id'' = role \<and> ival r ''app_id'' = app))
      (table_rows db ''role''))"
  proof (rule runs_delete [OF assms(1) ok])
    fix now r
    assume r: "r \<in> set (table_rows db ''role'')"
    have i: "r ''app_id'' = SInt (ival r ''app_id'')" "r ''id'' = SInt (ival r ''id'')"
      using table_int [OF ok r] by auto
    show "holds (eval_expr (EAnd (col_is ''id'' (SInt role)) (col_is ''app_id'' (SInt app))) now db
        [[(''role'', role_cols, r)]]) = Inr (ival r ''id'' = role \<and> ival r ''app_id'' = app)"
      using eval_col_is [OF cols(1), of r, OF i(1)] eval_col_is [OF cols(2), of r, OF i(2)] by (simp add: eval_expr.simps)
  qed
  moreover have "rbac_ok db'"
    unfolding db' by (rule rbac_ok_filter [OF assms(2)])
  ultimately show ?thesis
    by (auto simp: roles_def table_rows_set_rows [OF ok] relations_set_rows [OF ok])
qed

subsection \<open>Functions as operations\<close>

text \<open>The step of a database from one well-formed state to the next that an operation allows.\<close>

definition simulates :: "rbac_op \<Rightarrow> bool \<Rightarrow> database \<Rightarrow> database \<Rightarrow> bool" where
  "simulates op b db db' =
     (rbac_ok db' \<and> dt_coll db' = dt_coll db \<and> spec_step (dt_coll db) op b (rbac_view db) (rbac_view db'))"

lemma simulates_same: "rbac_ok db \<Longrightarrow> simulates op False db db"
  by (simp add: simulates_def spec_step.failed)

lemma window_limit1: "window (Some (None, SInt 1)) full rows \<Longrightarrow> rows = [] \<longleftrightarrow> full = []"
  by (cases full) (auto simp: window_def)

context sql_server
begin

lemma grant_simulates:
  assumes "RelationResourceRoleAdd D app res role w = (x, w')" "rbac_ok (db w)" "in_int64 app" "in_int64 role" "in_int64 res"
  shows "simulates (Grant app role res) (\<not> isl x) (db w) (db w')"
proof (cases x)
  case (Inl f)
  then show ?thesis
    using assms add_failed simulates_same unfolding RelationResourceRoleAdd_def by fastforce
next
  case (Inr n)
  have "runs (SInsert ''role_resource'' [''app_id'', ''resource_id'', ''role_id'', ''ctime'', ''mtime'']
      (map ELit [SInt app, SInt res, SInt role] @ [ENow, ENow]) touch) (db w) (db w') n"
    using add_runs [OF assms(1) [unfolded RelationResourceRoleAdd_def Inr] insert_role_resource_sql [OF assms(3-5)]]
    by simp
  then show ?thesis
    using insert_role_resource [OF _ assms(2-5)] spec_step.grant [of "dt_coll (db w)" app role res "rbac_view (db w)"]
    by (simp add: simulates_def rbac_view_def Inr)
qed

lemma revoke_simulates:
  assumes "RoleResourceDelete D app role res w = (x, w')" "rbac_ok (db w)" "in_int64 app" "in_int64 role" "in_int64 res"
  shows "simulates (Revoke app role res) (\<not> isl x) (db w) (db w')"
proof (cases x)
  case (Inl f)
  then show ?thesis
    using exec_unit_failed [OF assms(1) [unfolded RoleResourceDelete_def Inl]] simulates_same assms(2) by simp
next
  case (Inr u)
  then show ?thesis
    using exec_unit_runs [OF assms(1) [unfolded RoleResourceDelete_def Inr] delete_grant_sql [OF assms(3-5)]]
      delete_grant [OF _ assms(2)] spec_step.revoke [of "dt_coll (db w)" app role res "rbac_view (db w)"]
    by (auto simp: simulates_def rbac_view_def)
qed

lemma leave_simulates:
  assumes "RoleUserDelete D app role email w = (x, w')" "rbac_ok (db w)" "in_int64 app" "in_int64 role" "clean email"
  shows "simulates (Leave app role email) (\<not> isl x) (db w) (db w')"
proof (cases x)
  case (Inl f)
  then show ?thesis
    using exec_unit_failed [OF assms(1) [unfolded RoleUserDelete_def Inl]] simulates_same assms(2) by simp
next
  case (Inr u)
  then show ?thesis
    using exec_unit_runs [OF assms(1) [unfolded RoleUserDelete_def Inr] delete_member_sql [OF assms(3-5)]]
      delete_member [OF _ assms(2), of app role email]
      spec_step.leave [of "dt_coll (db w)" app role email "rbac_view (db w)"]
    by (auto simp: simulates_def rbac_view_def same_email_def)
qed

text \<open>Entering a user or a role returns the id under which it is known.\<close>

lemma UserAdd_known:
  assumes "UserAdd D app name email w = (Inr uid, w')" "rbac_ok (db w)" "in_int64 app" "good_text name" "good_text email"
  shows "known_user (dt_coll (db w)) app email uid (rbac_view (db w)) (rbac_view (db w')) \<and>
    in_int64 uid \<and> dt_coll (db w') = dt_coll (db w) \<and> rbac_ok (db w')"
proof -
  have "runs (SInsert ''user'' [''app_id'', ''name'', ''email'', ''ctime'', ''mtime'']
      (map ELit [SInt app, SStr name, SStr email] @ [ENow, ENow]) touch) (db w) (db w') uid"
    using add_runs [OF assms(1) [unfolded UserAdd_def] insert_user_sql [of app name email]] assms(3-5)
    by (simp add: good_text_def)
  then show ?thesis
    using insert_user [OF _ assms(2,3)] by (auto simp: known_user_def rbac_view_def same_email_def)
qed

lemma add_role_known:
  assumes "add D Role_type ''role'' \<lparr>ro_ID = 0, ro_AppID = app, ro_Name = name, ro_UserID = uid,
      ro_Comments = comments, ro_Ctime = [], ro_Mtime = []\<rparr> w = (Inr rid, w')"
    "rbac_ok (db w)" "in_int64 app" "in_int64 uid" "good_text name" "good_text comments"
  shows "known_role (dt_coll (db w)) app name rid (rbac_view (db w)) (rbac_view (db w')) \<and>
    in_int64 rid \<and> dt_coll (db w') = dt_coll (db w) \<and> rbac_ok (db w')"
proof -
  have "runs (SInsert ''role'' [''app_id'', ''name'', ''user_id'', ''comments'', ''ctime'', ''mtime'']
      (map ELit [SInt app, SStr name, SInt uid, SStr comments] @ [ENow, ENow]) touch) (db w) (db w') rid"
    using add_runs [OF assms(1) insert_role_sql [of app uid name comments]] assms(3-6)
    by (simp add: good_text_def)
  then show ?thesis
    using insert_role [OF _ assms(2-4)] by (auto simp: known_role_def rbac_view_def)
qed

lemma add_member:
  assumes "add D RoleUser_type ''role_user''
      (zero_RoleUser\<lparr>ru_AppID := app, ru_RoleID := role, ru_UserID := uid\<rparr>) w = (Inr n, w')"
    "rbac_ok (db w)" "in_int64 app" "in_int64 role" "in_int64 uid"
  shows "rbac_view (db w') = (rbac_view (db w))\<lparr>rs_members := insert (app, role, uid) (rs_members (rbac_view (db w)))\<rparr> \<and>
    dt_coll (db w') = dt_coll (db w) \<and> rbac_ok (db w')"
proof -
  have "runs (SInsert ''role_user'' [''app_id'', ''user_id'', ''role_id'', ''ctime'', ''mtime'']
      (map ELit [SInt app, SInt uid, SInt role] @ [ENow, ENow]) touch) (db w) (db w') n"
    using add_runs [OF assms(1) insert_role_user_sql [OF assms(3-5)]] by simp
  then show ?thesis
    using insert_role_user [OF _ assms(2-5)] by (simp add: rbac_view_def)
qed

end

lemma known_user_failed: "known_user coll app email uid s s' \<Longrightarrow> spec_step coll op False s s'"
  by (rule spec_step.failed) (auto simp: known_user_def, (metis rbac_state.select_convs rbac_state.surjective rbac_state.update_convs)+)

lemma known_role_failed: "known_role coll app name rid s s' \<Longrightarrow> spec_step coll op False s s'"
  by (rule spec_step.failed) (auto simp: known_role_def, (metis rbac_state.select_convs rbac_state.surjective rbac_state.update_convs)+)

lemma failed_trans: "spec_step coll op False s s1 \<Longrightarrow> spec_step coll op False s1 s2 \<Longrightarrow> spec_step coll op False s s2"
  by (auto elim!: spec_step.cases intro!: spec_step.failed)

context sql_server
begin

lemma UserAdd_failed: "UserAdd D app name email w = (Inl f, w') \<Longrightarrow> db w' = db w"
  unfolding UserAdd_def by (rule add_failed)

text \<open>Enrolling a user: known users grow, and on success the membership is entered.\<close>

lemma RoleUserAdd_view:
  assumes "RoleUserAdd D app role name email w = (x, w')" "rbac_ok (db w)"
    "in_int64 app" "in_int64 role" "good_text name" "good_text email"
  shows "rbac_ok (db w') \<and> dt_coll (db w') = dt_coll (db w) \<and>
    (if isl x then spec_step (dt_coll (db w)) op False (rbac_view (db w)) (rbac_view (db w'))
     else \<exists>uid s1. known_user (dt_coll (db w)) app email uid (rbac_view (db w)) s1 \<and>
       rbac_view (db w') = s1\<lparr>rs_members := insert (app, role, uid) (rs_members s1)\<rparr>)"
proof -
  obtain y w1 where u: "UserAdd D app name email w = (y, w1)"
    by (cases "UserAdd D app name email w")
  show ?thesis
  proof (cases y)
    case (Inl f)
    then show ?thesis
      using assms(1,2) u UserAdd_failed [of app name email w f w1]
      by (auto simp: RoleUserAdd_def cbind_def intro: spec_step.failed)
  next
    case (Inr uid)
    note k = UserAdd_known [OF u [unfolded Inr] assms(2,3,5,6)]
    let ?m = "zero_RoleUser\<lparr>ru_AppID := app, ru_RoleID := role, ru_UserID := uid\<rparr>"
    have a: "add D RoleUser_type ''role_user'' ?m w1 = (x, w')"
      using assms(1) u by (simp add: RoleUserAdd_def cbind_def Inr)
    show ?thesis
    proof (cases x)
      case (Inl f)
      then show ?thesis
        using add_failed [OF a [unfolded Inl]] k known_user_failed by auto
    next
      case (Inr n)
      then show ?thesis
        using add_member [OF a [unfolded Inr] _ assms(3,4)] k by auto
    qed
  qed
qed

lemma join_simulates:
  assumes "RoleUserAdd D app role name email w = (x, w')" "rbac_ok (db w)"
    "in_int64 app" "in_int64 role" "good_text name" "good_text email"
  shows "simulates (Join app role name email) (\<not> isl x) (db w) (db w')"
  using RoleUserAdd_view [OF assms, of "Join app role name email"]
  by (auto simp: simulates_def split: if_splits intro: spec_step.join)

lemma found_simulates:
  assumes "RoleAdd D app name user email comments w = (x, w')" "rbac_ok (db w)"
    "in_int64 app" "good_text name" "good_text user" "good_text email" "good_text comments"
  shows "simulates (NewRole app name user email comments) (\<not> isl x) (db w) (db w')"
proof -
  let ?op = "NewRole app name user email comments"
  obtain y w1 where u: "UserAdd D app user email w = (y, w1)"
    by (cases "UserAdd D app user email w")
  show ?thesis
  proof (cases y)
    case (Inl f)
    then show ?thesis
      using assms(1,2) u UserAdd_failed [of app user email w f w1] simulates_same
      by (auto simp: RoleAdd_def cbind_def)
  next
    case (Inr uid)
    note k = UserAdd_known [OF u [unfolded Inr] assms(2,3,5,6)]
    let ?r = "\<lparr>ro_ID = 0, ro_AppID = app, ro_Name = name, ro_UserID = uid, ro_Comments = comments, ro_Ctime = [], ro_Mtime = []\<rparr>"
    obtain z w2 where r: "add D Role_type ''role'' ?r w1 = (z, w2)"
      by (cases "add D Role_type ''role'' ?r w1")
    show ?thesis
    proof (cases z)
      case (Inl f)
      then have "x = Inl f" "w' = w2"
        using assms(1) u r Inr by (simp_all add: RoleAdd_def cbind_def)
      then show ?thesis
        using add_failed [OF r [unfolded Inl]] k known_user_failed by (auto simp: simulates_def)
    next
      case rid: (Inr rid)
      note l = add_role_known [OF r [unfolded rid] _ assms(3) _ assms(4,7)]
      obtain m where m: "RoleUserAdd D app rid user email w2 = (m, w')" "isl x \<longleftrightarrow> isl m"
        using assms(1) u r Inr rid by (auto simp: RoleAdd_def cbind_def creturn_def split: prod.splits sum.splits)
      have "spec_step (dt_coll (db w)) ?op False (rbac_view (db w)) (rbac_view (db w2))"
        using failed_trans [OF known_user_failed known_role_failed] k l by metis
      then show ?thesis
        using RoleUserAdd_view [OF m(1) _ assms(3) _ assms(5,6), of ?op] k l m(2)
        by (auto simp: simulates_def split: if_splits intro: spec_step.found failed_trans [of _ _ _ "rbac_view (db w2)"])
    qed
  qed
qed

end

lemma related_select:
  assumes "table_ok db t cols keys ints strs" "set [''id'', ''app_id'', ''role_id''] \<subseteq> set ints" "set ints \<subseteq> set cols"
  shows "eval_select (Sel False (Some [(None, ''id'')]) [t]
      (EAnd (col_is ''app_id'' (SInt app)) (col_is ''role_id'' (SInt role))) None None) now db [] =
    Inr (map (\<lambda>r. [r ''id'']) (filter (\<lambda>r. ival r ''app_id'' = app \<and> ival r ''role_id'' = role) (table_rows db t)))"
proof -
  have "holds (eval_expr (EAnd (col_is ''app_id'' (SInt app)) (col_is ''role_id'' (SInt role))) now db
      ([(t, cols, r)] # [])) = Inr (ival r ''app_id'' = app \<and> ival r ''role_id'' = role)"
    if r: "r \<in> set (table_rows db t)" for r
  proof -
    have "eval_expr (col_is d (SInt j)) now db [[(t, cols, r)]] = Inr (SInt (of_bool (ival r d = j)))"
      if "d \<in> set ints" for d j
      using eval_col_is [of d cols r] table_int [OF assms(1) r that] that assms(3) by blast
    then show ?thesis
      using assms(2) by (simp add: eval_expr.simps)
  qed
  moreover have "''id'' \<in> set cols"
    using assms(2,3) by auto
  ultimately show ?thesis
    by (subst table_select [OF assms(1), where P = "\<lambda>r. ival r ''app_id'' = app \<and> ival r ''role_id'' = role"])
      (simp_all add: Let_def)
qed

lemma filter_relation:
  "filter (\<lambda>r. ival r ''app_id'' = app \<and> ival r ''role_id'' = role) rows = [] \<longleftrightarrow>
   (\<nexists>x. (app, role, x) \<in> (\<lambda>r. (ival r ''app_id'', ival r ''role_id'', ival r c)) ` set rows)"
  by (auto simp: filter_empty_conv image_iff)

context sql_server
begin

lemma has_members:
  assumes "validate D (''select id from role_user where '' @ eq_int ''app_id'' app @ '' and '' @
      eq_int ''role_id'' role @ '' limit 1'') w = (Inr b, w')" "rbac_ok (db w)" "in_int64 app" "in_int64 role"
  shows "b \<longleftrightarrow> (\<exists>u. (app, role, u) \<in> members (db w))"
proof -
  have "set [''id'', ''app_id'', ''role_id''] \<subseteq> set [''id'', ''app_id'', ''role_id'', ''user_id'']"
    "set [''id'', ''app_id'', ''role_id'', ''user_id''] \<subseteq> set role_user_cols"
    by (simp_all add: role_user_cols_def)
  note sel = related_select [OF rbac_okD(4) [OF assms(2)] this]
  show ?thesis
    using validate_rows [OF assms(1) trans [OF has_members_sql [OF assms(3,4)]]]
      filter_relation [of app role "table_rows (db w) ''role_user''" "''user_id''"]
    by (auto simp: sel members_def dest!: window_limit1)
qed

lemma has_grants:
  assumes "validate D (''select id from role_resource where '' @ eq_int ''app_id'' app @ '' and '' @
      eq_int ''role_id'' role @ '' limit 1'') w = (Inr b, w')" "rbac_ok (db w)" "in_int64 app" "in_int64 role"
  shows "b \<longleftrightarrow> (\<exists>r. (app, role, r) \<in> grants (db w))"
proof -
  have "set [''id'', ''app_id'', ''role_id''] \<subseteq> set [''id'', ''app_id'', ''role_id'', ''resource_id'']"
    "set [''id'', ''app_id'', ''role_id'', ''resource_id''] \<subseteq> set role_resource_cols"
    by (simp_all add: role_resource_cols_def)
  note sel = related_select [OF rbac_okD(5) [OF assms(2)] this]
  show ?thesis
    using validate_rows [OF assms(1) trans [OF has_grants_sql [OF assms(3,4)]]]
      filter_relation [of app role "table_rows (db w) ''role_resource''" "''resource_id''"]
    by (auto simp: sel grants_def dest!: window_limit1)
qed

end

context sql_server
begin

lemma drop_simulates:
  assumes "RoleDelete D app role w = (x, w')" "rbac_ok (db w)" "in_int64 app" "in_int64 role"
  shows "simulates (DropRole app role) (\<not> isl x) (db w) (db w')"
proof -
  let ?q1 = "''select id from role_user where '' @ eq_int ''app_id'' app @ '' and '' @ eq_int ''role_id'' role @ '' limit 1''"
  let ?q2 = "''select id from role_resource where '' @ eq_int ''app_id'' app @ '' and '' @ eq_int ''role_id'' role @ '' limit 1''"
  let ?d = "''delete from role where '' @ eq_int ''id'' role @ '' and '' @ eq_int ''app_id'' app"
  obtain b1 w1 where v1: "validate D ?q1 w = (b1, w1)"
    by (cases "validate D ?q1 w")
  obtain b2 w2 where v2: "validate D ?q2 w1 = (b2, w2)"
    by (cases "validate D ?q2 w1")
  have keep: "db w1 = db w" "db w2 = db w"
    using validate_keeps [OF v1] validate_keeps [OF v2] by simp_all
  consider "isl x" "db w' = db w"
    | "b1 = Inr False" "b2 = Inr False" "cbind (exec D ?d) (\<lambda>_. creturn ()) w2 = (x, w')"
    using assms(1) v1 v2 keep unfolding RoleDelete_def cbind_def [of "validate D ?q1"] cbind_def [of "validate D ?q2"]
    by (auto simp: craise_def split: sum.splits if_splits bool.splits simp del: append.simps)
  then show ?thesis
  proof cases
    case 1
    then show ?thesis
      using simulates_same assms(2) by simp
  next
    case 2
    have none: "\<nexists>u. (app, role, u) \<in> members (db w)" "\<nexists>r. (app, role, r) \<in> grants (db w)"
      using has_members [OF v1 [unfolded 2(1)] assms(2-4)] has_grants [OF v2 [unfolded 2(2)] _ assms(3,4)] keep assms(2)
      by simp_all
    show ?thesis
    proof (cases x)
      case (Inl f)
      then show ?thesis
        using exec_unit_failed [OF 2(3) [unfolded Inl]] keep simulates_same assms(2) by simp
    next
      case (Inr u)
      show ?thesis
        using exec_unit_runs [OF 2(3) [unfolded Inr] delete_role_sql [OF assms(3,4)]] delete_role [OF _ assms(2)] keep none
          spec_step.drop_role [of app role "rbac_view (db w)" "dt_coll (db w)"]
        by (auto simp: simulates_def rbac_view_def Inr)
    qed
  qed
qed

lemma isl_unit: "cbind c (\<lambda>_. creturn ()) w = (x, w') \<Longrightarrow> \<exists>y. c w = (y, w') \<and> isl y = isl x"
  by (auto simp: cbind_def creturn_def split: prod.splits sum.splits)

lemma perform_simulates:
  assumes "perform D op w = (x, w')" "rbac_ok (db w)" "op_ok op"
  shows "simulates op (\<not> isl x) (db w) (db w')"
proof (cases op)
  case (Grant app role res)
  then show ?thesis
    using assms isl_unit [of "RelationResourceRoleAdd D app res role" w x w'] grant_simulates by fastforce
next
  case (Revoke app role res)
  then show ?thesis
    using assms revoke_simulates by simp
next
  case (Join app role name email)
  then show ?thesis
    using assms isl_unit [of "RoleUserAdd D app role name email" w x w'] join_simulates by fastforce
next
  case (Leave app role email)
  then show ?thesis
    using assms leave_simulates by simp
next
  case (NewRole app name user email comments)
  then show ?thesis
    using assms isl_unit [of "RoleAdd D app name user email comments" w x w'] found_simulates by fastforce
next
  case (DropRole app role)
  then show ?thesis
    using assms drop_simulates by simp
qed

lemma perform_all_refines:
  assumes "perform_all D ops w = (bs, w')" "rbac_ok (db w)" "list_all op_ok ops"
  shows "rbac_ok (db w') \<and> dt_coll (db w') = dt_coll (db w) \<and>
    spec_run (dt_coll (db w)) (zip ops bs) (rbac_view (db w)) (rbac_view (db w'))"
  using assms
proof (induction ops arbitrary: w bs)
  case (Cons op ops)
  obtain x w1 where p: "perform D op w = (x, w1)"
    by (cases "perform D op w")
  obtain cs where c: "perform_all D ops w1 = (cs, w')" "bs = (\<not> isl x) # cs"
    using Cons.prems(1) p by (auto split: prod.splits)
  have "simulates op (\<not> isl x) (db w) (db w1)"
    using perform_simulates [OF p Cons.prems(2)] Cons.prems(3) by simp
  then show ?case
    using Cons.IH [OF c(1)] Cons.prems(3) by (auto simp: simulates_def c(2) intro: spec_run.more)
qed (simp add: spec_run.done_)

end

subsection \<open>Deleting a resource, and reading roles\<close>

lemma delete_by_id:
  assumes "runs (SDelete t (col_is c (SInt x))) db db' n" "rbac_ok db"
    and ok: "table_ok db t cols keys ints strs" and "c \<in> set ints" "set ints \<subseteq> set cols"
  shows "db' = set_rows db t (filter (\<lambda>r. ival r c \<noteq> x) (table_rows db t)) \<and> rbac_ok db'"
proof -
  have "db' = set_rows db t (filter (\<lambda>r. \<not> ival r c = x) (table_rows db t))"
  proof (rule runs_delete [OF assms(1) ok])
    fix now r
    assume r: "r \<in> set (table_rows db t)"
    have "r c = SInt (ival r c)" "c \<in> set cols"
      using table_int [OF ok r assms(4)] assms(4,5) by auto
    then show "holds (eval_expr (col_is c (SInt x)) now db [[(t, cols, r)]]) = Inr (ival r c = x)"
      using eval_col_is [of c cols r "ival r c" x now db t "[]"] by simp
  qed
  then show ?thesis
    using rbac_ok_filter [OF assms(2)] by simp
qed

context sql_server
begin

lemma ResourceDelete_effect:
  assumes "ResourceDelete D res w = (Inr u, w')" "rbac_ok (db w)" "in_int64 res"
  shows "rbac_ok (db w') \<and> grants (db w') = {g \<in> grants (db w). snd (snd g) \<noteq> res} \<and>
    table_rows (db w') ''resource'' = filter (\<lambda>r. ival r ''id'' \<noteq> res) (table_rows (db w) ''resource'') \<and>
    members (db w') = members (db w) \<and> users (db w') = users (db w) \<and> roles (db w') = roles (db w)"
proof -
  obtain a1 w1 where e1: "exec D (''delete from resource where '' @ eq_int ''id'' res) w = (Inr a1, w1)"
    and e2: "cbind (exec D (''delete from role_resource where '' @ eq_int ''resource_id'' res)) (\<lambda>_. creturn ()) w1 = (Inr u, w')"
    using assms(1) unfolding ResourceDelete_def
    by (subst (asm) cbind_eq_Inr) auto
  note ok = rbac_okD(3) [OF assms(2)]
  have s1: "set [''id'', ''app_id''] \<subseteq> set resource_cols"
    by (simp add: resource_cols_def)
  have d1: "db w1 = set_rows (db w) ''resource'' (filter (\<lambda>r. ival r ''id'' \<noteq> res) (table_rows (db w) ''resource'')) \<and> rbac_ok (db w1)"
    by (rule exE [OF exec_runs_stmt [OF e1 delete_resource_sql [OF assms(3)]]]) (rule delete_by_id [OF _ assms(2) ok _ s1], simp_all)
  note r1 = conjunct2 [OF d1]
  note ok1 = rbac_okD(5) [OF r1]
  have s2: "set [''id'', ''app_id'', ''role_id'', ''resource_id''] \<subseteq> set role_resource_cols"
    by (simp add: role_resource_cols_def)
  have d2: "db w' = set_rows (db w1) ''role_resource'' (filter (\<lambda>r. ival r ''resource_id'' \<noteq> res) (table_rows (db w1) ''role_resource'')) \<and> rbac_ok (db w')"
    by (rule exE [OF exec_unit_runs [OF e2 delete_resource_grants_sql [OF assms(3)]]]) (rule delete_by_id [OF _ r1 ok1 _ s2], simp_all)
  note e1 = conjunct1 [OF d1] and e2 = conjunct1 [OF d2]
  have t1: "table_rows (db w1) t' = (if t' = ''resource'' then filter (\<lambda>r. ival r ''id'' \<noteq> res) (table_rows (db w) ''resource'')
      else table_rows (db w) t')" for t'
    unfolding e1 by (rule table_rows_set_rows [OF ok])
  have t2: "table_rows (db w') t' = (if t' = ''role_resource'' then filter (\<lambda>r. ival r ''resource_id'' \<noteq> res)
      (table_rows (db w1) ''role_resource'') else table_rows (db w1) t')" for t'
    unfolding e2 by (rule table_rows_set_rows [OF ok1])
  show ?thesis
    using conjunct2 [OF d2] by (auto simp: grants_def members_def users_def roles_def t1 t2)
qed

end

section \<open>Properties\<close>

lemma demo_db_ok: "rbac_ok demo_db"
  by code_simp

lemma demo_ops_ok: "list_all op_ok demo_ops"
  by code_simp

lemma demo_outcomes: "fst (perform_all ref_dbms demo_ops demo_db) = [True, False, True]"
  by code_simp

lemma demo_query: "fst (UserResourceGet ref_dbms 7 ''Bob@x.io'' demo_db) = Inr [5]"
  by code_simp





text \<open>C32: Deleting a resource removes it and every grant of it, of whichever application: the function
  has no application to check, and the handler that calls it ignores the one of the token.\<close>

theorem ResourceDelete_every_application:
  assumes "sql_server D db" "rbac_ok (db w)" "in_int64 res" "ResourceDelete D res w = (Inr u, w')"
  shows "grants (db w') = {g \<in> grants (db w). snd (snd g) \<noteq> res} \<and>
    table_rows (db w') ''resource'' = filter (\<lambda>r. ival r ''id'' \<noteq> res) (table_rows (db w) ''resource'') \<and>
    members (db w') = members (db w) \<and> users (db w') = users (db w) \<and> roles (db w') = roles (db w)"
  using sql_server.ResourceDelete_effect [OF assms(1,4,2,3)] by simp

theorem ResourceDelete_every_application_witness:
  "\<exists>w'. ResourceDelete ref_dbms 5 demo_db = (Inr (), w') \<and> grants w' = {}"
proof -
  have "fst (ResourceDelete ref_dbms 5 demo_db) = Inr ()"
    by code_simp
  then obtain w' where w': "ResourceDelete ref_dbms 5 demo_db = (Inr (), w')"
    by (metis prod.collapse)
  have "in_int64 5" "grants demo_db = {(7, 3, 5)}"
    by code_simp+
  then show ?thesis
    using ResourceDelete_every_application [OF refserver.sql_server_axioms demo_db_ok _ w'] w' by auto
qed

end
