(* ===== verification/Document.thy ===== *)
theory Document
  imports Router Registry "HOL-Library.AList"
begin

text \<open>
  The service library, \<open>src/service\<close>: an application registers its objects, the library derives the
  routes and the documentation of every method by reflection over its argument types, and turns a
  request into a call.

  A Go type is a \<open>gotyp\<close>; a struct type is named and its fields are looked up in an environment, so
  that a type may contain itself.  \<open>newField\<close> recurs over the types, and a recursive type makes it
  recur for ever: it takes the depth of the call stack as fuel, and \<open>None\<close> is a call that has not
  returned.  A map is an association list; the order in which a range yields its keys is a parameter.
\<close>

section \<open>Definitions\<close>

subsection \<open>Types\<close>

datatype gotyp = Basic string | Struct string | Ptr gotyp | Slice gotyp

fun type_String :: "gotyp \<Rightarrow> string" where
  "type_String (Basic s) = s"
| "type_String (Struct s) = s"
| "type_String (Ptr t) = ''*'' @ type_String t"
| "type_String (Slice t) = ''[]'' @ type_String t"

record StructField =
  sf_Name :: string
  sf_Type :: gotyp
  sf_Anonymous :: bool
  sf_comment :: string
  sf_required :: string
  sf_json :: string

type_synonym typenv = "(string \<times> StructField list) list"

definition struct_fields :: "typenv \<Rightarrow> string \<Rightarrow> StructField list" where
  "struct_fields env s = (case map_of env s of None \<Rightarrow> [] | Some fs \<Rightarrow> fs)"

fun un_ptr :: "gotyp \<Rightarrow> gotyp" where
  "un_ptr (Ptr t) = t"
| "un_ptr t = t"

fun un_slice :: "gotyp \<Rightarrow> gotyp" where
  "un_slice (Slice t) = t"
| "un_slice t = t"

subsection \<open>Fields\<close>

datatype field =
  Field (fd_Name: string) (fd_Type: string) (fd_Required: bool) (fd_Child: "(string \<times> field) list")
    (fd_Comment: string) (fd_anonymous: bool)

type_synonym fields = "(string \<times> field) list"

definition json_name :: "StructField \<Rightarrow> string" where
  "json_name sf = (let n = hd (split_on CHR '','' (sf_json sf)) in if n = [] then sf_Name sf else n)"

definition make_field :: "StructField \<Rightarrow> fields \<Rightarrow> field" where
  "make_field sf child =
     Field (json_name sf) (type_String (sf_Type sf)) (sf_required sf = ''true'') child (sf_comment sf) (sf_Anonymous sf)"

definition set_all :: "fields \<Rightarrow> fields \<Rightarrow> fields" where
  "set_all new fm = fold (\<lambda>(k, f). AList.update k f) new fm"

fun newField :: "nat \<Rightarrow> typenv \<Rightarrow> StructField \<Rightarrow> field option" where
  "newField 0 env sf = None"
| "newField (Suc n) env sf =
     (case un_slice (un_ptr (sf_Type sf)) of
        Struct s \<Rightarrow>
          map_option (\<lambda>fs. make_field sf (set_all fs []))
            (those (map (\<lambda>f. map_option (\<lambda>x. (sf_Name f, x)) (newField n env f)) (struct_fields env s)))
      | _ \<Rightarrow> Some (make_field sf []))"

subsection \<open>Merging embedded structs\<close>

text \<open>The first loop of \<open>merge\<close>: each key that is still there when the range comes to it, with the
  value it has by then.  An embedded field is replaced by its children; the flag tells whether there
  was one.\<close>

fun merge_pass :: "string list \<Rightarrow> fields \<Rightarrow> fields \<times> bool" where
  "merge_pass [] fm = (fm, False)"
| "merge_pass (k # ks) fm =
     (case map_of fm k of
        None \<Rightarrow> merge_pass ks fm
      | Some v \<Rightarrow>
          if fd_anonymous v then (fst (merge_pass ks (set_all (fd_Child v) (AList.delete k fm))), True)
          else merge_pass ks fm)"

primrec field_size :: "field \<Rightarrow> nat" where
  "field_size (Field nm ty rq child cm an) = Suc (sum_list (map (\<lambda>p. snd p) (map (map_prod (\<lambda>k. k) field_size) child)))"

definition fields_size :: "fields \<Rightarrow> nat" where
  "fields_size fm = sum_list (map (\<lambda>p. field_size (snd p)) fm)"

definition with_child :: "field \<Rightarrow> fields \<Rightarrow> field" where
  "with_child f c = Field (fd_Name f) (fd_Type f) (fd_Required f) c (fd_Comment f) (fd_anonymous f)"

lemma field_size_eq: "field_size f = Suc (fields_size (fd_Child f))"
  by (cases f) (simp add: fields_size_def comp_def)

lemma fields_size_simps [simp]:
  "fields_size [] = 0" "fields_size ((k, f) # fm) = field_size f + fields_size fm"
  by (simp_all add: fields_size_def)

lemma fields_size_update: "fields_size (AList.update k f fm) \<le> field_size f + fields_size fm"
  by (induction fm) auto

lemma fields_size_delete: "fields_size (AList.delete k fm) \<le> fields_size fm"
  by (induction fm) auto

lemma fields_size_delete_Some:
  "map_of fm k = Some v \<Longrightarrow> field_size v + fields_size (AList.delete k fm) \<le> fields_size fm"
proof (induction fm)
  case (Cons p fm)
  then show ?case
    using fields_size_delete [of k fm] by (cases p) (auto split: if_splits)
qed simp

lemma fields_size_set_all: "fields_size (set_all new fm) \<le> fields_size new + fields_size fm"
proof (induction new arbitrary: fm)
  case (Cons p new)
  obtain k f where p: "p = (k, f)" by force
  have "fields_size (set_all new (AList.update k f fm)) \<le> fields_size new + (field_size f + fields_size fm)"
    using Cons [of "AList.update k f fm"] fields_size_update [of k f fm] by linarith
  then show ?case
    by (simp add: set_all_def p)
qed (simp add: set_all_def)

lemma merge_pass_size:
  "fields_size (fst (merge_pass ks fm)) + of_bool (snd (merge_pass ks fm)) \<le> fields_size fm"
proof (induction ks fm rule: merge_pass.induct)
  case (2 k ks fm)
  show ?case
  proof (cases "map_of fm k")
    case (Some v)
    show ?thesis
    proof (cases "fd_anonymous v")
      case True
      let ?fm = "set_all (fd_Child v) (AList.delete k fm)"
      have "fields_size (fst (merge_pass ks ?fm)) \<le> fields_size ?fm"
        using 2(2) [OF Some True] by simp
      also have "Suc \<dots> \<le> fields_size fm"
        using fields_size_set_all [of "fd_Child v" "AList.delete k fm"] fields_size_delete_Some [OF Some]
        by (simp add: field_size_eq)
      finally show ?thesis using Some True by simp
    next
      case False
      then show ?thesis using 2(3) [OF Some] Some by simp
    qed
  qed (use 2 in simp)
qed simp

lemma fields_size_child: "p \<in> set fm \<Longrightarrow> fields_size (fd_Child (snd p)) < fields_size fm"
  by (induction fm) (auto simp: field_size_eq)

text \<open>\<open>merge\<close>: the pass over this level, then the children of every field, until a pass finds no
  embedded field.\<close>

function merge :: "(fields \<Rightarrow> string list) \<Rightarrow> fields \<Rightarrow> fields" where
  "merge ord fm =
     (let r = merge_pass (ord fm) fm;
          fm' = map (\<lambda>(k, f). (k, if fd_Child f = [] then f else with_child f (merge ord (fd_Child f)))) (fst r)
      in if snd r then merge ord fm' else fm')"
  by pat_completeness auto

lemma fields_size_map:
  assumes "\<And>k f. (k, f) \<in> set fm \<Longrightarrow> fd_Child f \<noteq> [] \<Longrightarrow> fields_size (g f) \<le> fields_size (fd_Child f)"
  shows "fields_size (map (\<lambda>(k, f). (k, if fd_Child f = [] then f else with_child f (g f))) fm) \<le> fields_size fm"
  using assms
proof (induction fm)
  case (Cons p fm)
  obtain k f where p: "p = (k, f)" by force
  have "field_size (if fd_Child f = [] then f else with_child f (g f)) \<le> field_size f"
    using Cons.prems [of k f] p by (simp add: field_size_eq with_child_def)
  with Cons p show ?case by fastforce
qed simp

lemma merge_dom_size: "merge_dom (ord, fm) \<Longrightarrow> fields_size (merge ord fm) \<le> fields_size fm"
proof (induction ord fm rule: merge.pinduct)
  case (1 ord fm)
  let ?r = "merge_pass (ord fm) fm"
  let ?fm = "map (\<lambda>(k, f). (k, if fd_Child f = [] then f else with_child f (merge ord (fd_Child f)))) (fst ?r)"
  have "fields_size ?fm \<le> fields_size (fst ?r)"
    using 1(2) [OF refl] by (intro fields_size_map) auto
  moreover have "fields_size (merge ord ?fm) \<le> fields_size ?fm" if "snd ?r"
    using 1(3) [OF refl refl] that by simp
  moreover have "fields_size (fst ?r) \<le> fields_size fm"
    using merge_pass_size [of "ord fm" fm] by simp
  ultimately show ?case
    unfolding merge.psimps [OF 1(1)] Let_def by auto
qed

termination merge
proof (relation "measure (\<lambda>(ord, fm). fields_size fm)")
  fix ord fm r x k f
  assume "r = merge_pass (ord fm) fm" "x \<in> set (fst r)" "(k, f) = x"
  then show "((ord, fd_Child f), ord, fm) \<in> measure (\<lambda>(ord, fm). fields_size fm)"
    using merge_pass_size [of "ord fm" fm] fields_size_child [of x "fst r"] by (auto simp: less_le_trans)
next
  fix ord fm r fm'
  assume r: "r = merge_pass (ord fm) fm" "snd r"
    and dom: "\<And>x k f. x \<in> set (fst r) \<Longrightarrow> (k, f) = x \<Longrightarrow> fd_Child f \<noteq> [] \<Longrightarrow> merge_dom (ord, fd_Child f)"
    and fm': "fm' = map (\<lambda>(k, f). (k, if fd_Child f = [] then f else with_child f (merge ord (fd_Child f)))) (fst r)"
  have "fields_size fm' \<le> fields_size (fst r)"
    unfolding fm' by (rule fields_size_map) (use dom merge_dom_size in auto)
  then show "((ord, fm'), ord, fm) \<in> measure (\<lambda>(ord, fm). fields_size fm)"
    using merge_pass_size [of "ord fm" fm] r by simp
qed simp

declare merge.simps [simp del]

subsection \<open>The documentation of a service\<close>

record dmethod =
  me_Comment :: string
  me_Request :: fields
  me_Response :: fields

record dmodule =
  mo_URL :: string
  mo_Methods :: "(string \<times> dmethod) list"

type_synonym document = "(string \<times> dmodule) list"

text \<open>A method as reflection sees it, with the function it stands for.\<close>

record 'f reflectMethod =
  rm_Name :: string
  rm_In :: "gotyp list"
  rm_Func :: 'f

text \<open>A call that may not return, return an error or panic.\<close>

definition obind :: "'a result option \<Rightarrow> ('a \<Rightarrow> 'b result option) \<Rightarrow> 'b result option" where
  "obind r f = (case r of None \<Rightarrow> None | Some (Inl e) \<Rightarrow> Some (Inl e) | Some (Inr x) \<Rightarrow> f x)"

definition parse_arg :: "nat \<Rightarrow> typenv \<Rightarrow> gotyp \<Rightarrow> fields \<Rightarrow> fields result option" where
  "parse_arg n env arg fm =
     (case un_ptr arg of
        Struct s \<Rightarrow>
          map_option (\<lambda>fs. Inr (set_all fs fm))
            (those (map (\<lambda>f. map_option (\<lambda>x. (sf_Name f, x)) (newField n env f))
              (filter (\<lambda>f. type_String (sf_Type f) \<noteq> ''service.RequestHeader'') (struct_fields env s))))
      | _ \<Rightarrow> Some (Inl (Panic (PanicText ''reflect: NumField of non-struct type''))))"

definition getExportComment :: "string \<Rightarrow> (string \<rightharpoonup> string) \<Rightarrow> string \<Rightarrow> string \<Rightarrow> string \<Rightarrow> string result" where
  "getExportComment project docExport name url meth =
     rbind (go_slice url 0 (int (length url) - int (length name) - 2)) (\<lambda>key.
     Inr (case docExport (project @ key @ ''.'' @ name @ ''.'' @ meth) of None \<Rightarrow> [] | Some c \<Rightarrow> c))"

text \<open>A module is found by the name of the type alone and keeps the path of its first registration.\<close>

definition document_add ::
  "(fields \<Rightarrow> string list) \<Rightarrow> nat \<Rightarrow> typenv \<Rightarrow> string \<Rightarrow> (string \<rightharpoonup> string) \<Rightarrow> string \<Rightarrow> string \<Rightarrow>
    'f reflectMethod \<Rightarrow> document \<Rightarrow> document result option" where
  "document_add ord n env project docExport name url rm d =
     (let md = (case map_of d name of Some md \<Rightarrow> md | None \<Rightarrow> \<lparr>mo_URL = url, mo_Methods = []\<rparr>) in
      obind (Some (case map_of (mo_Methods md) (rm_Name rm) of
          Some m \<Rightarrow> Inr m
        | None \<Rightarrow> rbind (getExportComment project docExport name url (rm_Name rm)) (\<lambda>c.
            Inr \<lparr>me_Comment = c, me_Request = [], me_Response = []\<rparr>))) (\<lambda>m.
      obind (Some (go_index (rm_In rm) 1)) (\<lambda>in1.
      obind (parse_arg n env in1 (me_Request m)) (\<lambda>req.
      obind (Some (go_index (rm_In rm) 2)) (\<lambda>in2.
      obind (parse_arg n env in2 (me_Response m)) (\<lambda>resp.
      Some (Inr (AList.update name
        (md\<lparr>mo_Methods := AList.update (rm_Name rm)
          (m\<lparr>me_Request := merge ord req, me_Response := merge ord resp\<rparr>) (mo_Methods md)\<rparr>) d))))))))"

subsection \<open>The page of the documentation\<close>

record docViewField =
  vf_Name :: string
  vf_Type :: string
  vf_Required :: bool
  vf_Comment :: string

record docViewMethod =
  vm_Name :: string
  vm_URL :: string
  vm_Method :: string
  vm_Comment :: string
  vm_Request :: "docViewField list"
  vm_Response :: "docViewField list"

definition view_field :: "nat \<Rightarrow> field \<Rightarrow> docViewField" where
  "view_field level f =
     \<lparr>vf_Name = str_repeat ''&nbsp;&nbsp;&sdot;&nbsp;&nbsp;'' level @ fd_Name f, vf_Type = fd_Type f,
      vf_Required = fd_Required f, vf_Comment = fd_Comment f\<rparr>"

lemma field_size_child: "p \<in> set (fd_Child f) \<Longrightarrow> field_size (snd p) < field_size f"
proof -
  have "p \<in> set fm \<Longrightarrow> field_size (snd p) \<le> fields_size fm" for fm
    by (induction fm) auto
  then show "p \<in> set (fd_Child f) \<Longrightarrow> field_size (snd p) < field_size f"
    by (simp add: field_size_eq [of f] less_Suc_eq_le)
qed

function views :: "nat \<Rightarrow> field \<Rightarrow> docViewField list" where
  "views level f = view_field level f # concat (map (\<lambda>p. views (level + 1) (snd p)) (fd_Child f))"
  by pat_completeness auto
termination
  by (relation "measure (\<lambda>(level, f). field_size f)") (simp_all add: field_size_child)

definition view_fields :: "fields \<Rightarrow> docViewField list" where
  "view_fields fm = concat (map (\<lambda>p. view_field 0 (snd p) # concat (map (\<lambda>c. views 1 (snd c)) (fd_Child (snd p)))) fm)"

definition view :: "document \<Rightarrow> docViewMethod list" where
  "view d = concat (map (\<lambda>(mk, mv). map (\<lambda>(mmk, mmv).
     \<lparr>vm_Name = mk, vm_URL = mo_URL mv, vm_Method = mmk, vm_Comment = me_Comment mmv,
      vm_Request = view_fields (me_Request mmv), vm_Response = view_fields (me_Response mmv)\<rparr>) (mo_Methods mv)) d)"

subsection \<open>Registration and calls\<close>

text \<open>What the HTTP server of the library dispatches to.\<close>

datatype endpoint = DebugGET | VersionGET | DocumentGET | DocViewGET | ServiceHandler

record 'f Service_obj =
  sv_doc :: document
  sv_docView :: "docViewMethod list"
  sv_router :: "(string \<times> 'f reflectMethod) list"
  sv_http :: "endpoint httpServer"

definition router_add :: "string \<Rightarrow> string \<Rightarrow> 'f reflectMethod \<Rightarrow> (string \<times> 'f reflectMethod) list \<Rightarrow> (string \<times> 'f reflectMethod) list" where
  "router_add meth path m methods = AList.update (meth @ path) m methods"

definition router_get :: "string \<Rightarrow> string \<Rightarrow> (string \<times> 'f reflectMethod) list \<Rightarrow> 'f reflectMethod option" where
  "router_get meth path methods = map_of methods (meth @ path)"

definition New :: "'f Service_obj" where
  "New = \<lparr>sv_doc = [], sv_docView = [], sv_router = [], sv_http = newHTTPServer\<rparr>"

definition get_object :: "string \<Rightarrow> endpoint \<Rightarrow> endpoint object" where
  "get_object name e = \<lparr>ob_type = name, ob_ptr = True, ob_methods = [(''GET'', True, e)]\<rparr>"

definition Init :: "'f Service_obj \<Rightarrow> 'f Service_obj" where
  "Init s = s\<lparr>sv_http := fold enter
     [AtPrefix (get_object ''*debug.Debug'' DebugGET) ''/debug/pprof/'',
      AtPrefix (get_object ''*debug.Version'' VersionGET) ''/debug/version/'',
      AtPrefix (get_object ''*service.document'' DocumentGET) ''/document/''] (sv_http s)\<rparr>"

definition Start_routes :: "'f Service_obj \<Rightarrow> 'f Service_obj" where
  "Start_routes s = s\<lparr>sv_docView := view (sv_doc s),
     sv_http := enter (AtPath (get_object ''*service.docView'' DocViewGET) ''/doc/'') (sv_http s)\<rparr>"

text \<open>The type of a registered object: the names of the type itself or of the type it points to.\<close>

record 'f objtype =
  ot_Name :: string
  ot_PkgPath :: string
  ot_Methods :: "(string \<times> 'f reflectMethod) list"

definition object_url :: "string \<Rightarrow> 'f objtype \<Rightarrow> string" where
  "object_url project t =
     (let pkg = trim_prefix (ot_PkgPath t) project in
      (if pkg = ''main'' then ''/main'' else pkg) @ ''/'' @ ot_Name t @ ''/'')"

fun register_verbs ::
  "(fields \<Rightarrow> string list) \<Rightarrow> nat \<Rightarrow> typenv \<Rightarrow> string \<Rightarrow> (string \<rightharpoonup> string) \<Rightarrow> 'f objtype \<Rightarrow> string list \<Rightarrow>
    'f Service_obj \<Rightarrow> (unit result \<times> 'f Service_obj) option" where
  "register_verbs ord n env project docExport t [] s = Some (Inr (), s)"
| "register_verbs ord n env project docExport t (k # ks) s =
     (case map_of (ot_Methods t) k of
        None \<Rightarrow> register_verbs ord n env project docExport t ks s
      | Some m \<Rightarrow>
          if length (rm_In m) \<noteq> 3 then register_verbs ord n env project docExport t ks s
          else
            (let url = object_url project t in
             case RegisterHandler ServiceHandler (to_upper k) url (sv_http s) of
               (Inl e, h) \<Rightarrow> Some (Inl e, s\<lparr>sv_http := h\<rparr>)
             | (Inr _, h) \<Rightarrow>
                 (let s1 = s\<lparr>sv_http := h, sv_router := router_add (to_upper k) url m (sv_router s)\<rparr> in
                  case document_add ord n env project docExport (ot_Name t) url m (sv_doc s1) of
                    None \<Rightarrow> None
                  | Some (Inl e) \<Rightarrow> Some (Inl e, s1)
                  | Some (Inr d) \<Rightarrow> register_verbs ord n env project docExport t ks (s1\<lparr>sv_doc := d\<rparr>))))"

definition Register ::
  "(fields \<Rightarrow> string list) \<Rightarrow> nat \<Rightarrow> typenv \<Rightarrow> string \<Rightarrow> (string \<rightharpoonup> string) \<Rightarrow> 'f objtype \<Rightarrow>
    'f Service_obj \<Rightarrow> (unit result \<times> 'f Service_obj) option" where
  "Register ord n env project docExport t s =
     register_verbs ord n env project docExport t [''Get'', ''Post'', ''Put'', ''Delete''] s"

text \<open>\<open>handler\<close> and \<open>proxy\<close>: the function of the method decodes the request into its argument type,
  or fails, and gives the response to print.  It is handed the session of the request.\<close>

datatype 'p outcome = NotFound | BadRequest error | Sent 'p | Crashed panic

definition proxy :: "Request \<Rightarrow> (string \<Rightarrow> Request \<Rightarrow> 'p result) reflectMethod \<Rightarrow> 'p outcome" where
  "proxy r m =
     (case rm_Func m (header_get (rq_Header r) ''Session'') r of
        Inl (Error e) \<Rightarrow> BadRequest e
      | Inl (Panic p) \<Rightarrow> Crashed p
      | Inr x \<Rightarrow> Sent x)"

definition handler :: "(string \<Rightarrow> Request \<Rightarrow> 'p result) Service_obj \<Rightarrow> Request \<Rightarrow> 'p outcome" where
  "handler s r =
     (case router_get (rq_Method r) (url_Path (rq_URL r)) (sv_router s) of
        None \<Rightarrow> NotFound
      | Some m \<Rightarrow> proxy r m)"

text \<open>Distinct keys at every level, as a map has them; and no embedded field at any level.\<close>

function keyed :: "fields \<Rightarrow> bool" where
  "keyed fm = (distinct (map fst fm) \<and> list_all (\<lambda>p. keyed (fd_Child (snd p))) fm)"
  by pat_completeness auto
termination
  by (relation "measure fields_size") (auto simp: fields_size_child)

function plain :: "fields \<Rightarrow> bool" where
  "plain fm = list_all (\<lambda>p. \<not> fd_anonymous (snd p) \<and> plain (fd_Child (snd p))) fm"
  by pat_completeness auto
termination
  by (relation "measure fields_size") (auto simp: fields_size_child)

declare keyed.simps [simp del] plain.simps [simp del]

text \<open>A range visits every key.\<close>

definition visits :: "(fields \<Rightarrow> string list) \<Rightarrow> bool" where
  "visits ord \<longleftrightarrow> (\<forall>fm. set (map fst fm) \<subseteq> set (ord fm))"

definition doc_ok :: "document \<Rightarrow> bool" where
  "doc_ok d \<longleftrightarrow> distinct (map fst d) \<and> (\<forall>(name, md) \<in> set d. distinct (map fst (mo_Methods md)) \<and>
     (\<forall>(meth, m) \<in> set (mo_Methods md). keyed (me_Request m) \<and> plain (me_Request m) \<and> keyed (me_Response m) \<and> plain (me_Response m)))"

text \<open>The invariant of a service: the HTTP server dispatches to \<open>handler\<close> exactly the keys of the
  router, and the documentation has no embedded field.\<close>

definition service_ok :: "'f Service_obj \<Rightarrow> bool" where
  "service_ok s \<longleftrightarrow>
     (\<forall>k. map_of (hs_path (sv_http s)) k = Some ServiceHandler \<longleftrightarrow> map_of (sv_router s) k \<noteq> None) \<and>
     (\<forall>p \<in> set (hs_prefix (sv_http s)). \<forall>e \<in> set (pf_exps p). hr_call e \<noteq> ServiceHandler) \<and>
     doc_ok (sv_doc s)"

text \<open>The method that answers a request, and the routes an object asks for.\<close>

definition called :: "'f Service_obj \<Rightarrow> string \<Rightarrow> string \<Rightarrow> 'f reflectMethod option" where
  "called s meth path =
     (case getHandler (sv_http s) meth path of
        Some ServiceHandler \<Rightarrow> router_get meth path (sv_router s)
      | _ \<Rightarrow> None)"

definition object_routes :: "string \<Rightarrow> 'f objtype \<Rightarrow> string list \<Rightarrow> (string \<times> 'f reflectMethod) list" where
  "object_routes project t ks =
     concat (map (\<lambda>k. case map_of (ot_Methods t) k of
         None \<Rightarrow> []
       | Some m \<Rightarrow> if length (rm_In m) = 3 then [(to_upper k @ object_url project t, m)] else []) ks)"

text \<open>The struct types whose fields \<open>newField\<close> goes through for a field, and which of them contain
  themselves.\<close>

definition field_struct :: "StructField \<Rightarrow> string option" where
  "field_struct sf = (case un_slice (un_ptr (sf_Type sf)) of Struct s \<Rightarrow> Some s | _ \<Rightarrow> None)"

definition part_of :: "typenv \<Rightarrow> (string \<times> string) set" where
  "part_of env = {(t, s). \<exists>f \<in> set (struct_fields env s). field_struct f = Some t}"

definition recursive_type :: "typenv \<Rightarrow> string \<Rightarrow> bool" where
  "recursive_type env s \<longleftrightarrow> (\<exists>t. (t, s) \<in> (part_of env)\<^sup>* \<and> (t, t) \<in> (part_of env)\<^sup>+)"

section \<open>Reflection over recursive types\<close>

lemma newField_Suc:
  "newField (Suc n) env sf =
     (case field_struct sf of
        Some s \<Rightarrow>
          map_option (\<lambda>fs. make_field sf (set_all fs []))
            (those (map (\<lambda>f. map_option (\<lambda>x. (sf_Name f, x)) (newField n env f)) (struct_fields env s)))
      | None \<Rightarrow> Some (make_field sf []))"
  by (simp add: field_struct_def split: gotyp.split)

declare newField.simps(2) [simp del]

lemma those_eq_None: "those xs = None \<longleftrightarrow> None \<in> set xs"
  by (induction xs) (auto split: option.splits)

definition returns :: "nat \<Rightarrow> typenv \<Rightarrow> StructField \<Rightarrow> bool" where
  "returns n env sf \<longleftrightarrow> newField n env sf \<noteq> None"

lemma returns_Suc:
  "returns (Suc n) env sf \<longleftrightarrow>
     (\<forall>s. field_struct sf = Some s \<longrightarrow> (\<forall>f \<in> set (struct_fields env s). returns n env f))"
proof -
  have "newField (Suc n) env sf = None \<longleftrightarrow>
      (\<exists>s. field_struct sf = Some s \<and> (\<exists>f \<in> set (struct_fields env s). newField n env f = None))"
    by (auto simp: newField_Suc those_eq_None split: option.splits)
  then show ?thesis
    by (simp only: returns_def) simp
qed

lemma returns_mono: "returns n env sf \<Longrightarrow> n \<le> m \<Longrightarrow> returns m env sf"
proof (induction n arbitrary: m sf)
  case (Suc n)
  then obtain m' where "m = Suc m'" "n \<le> m'" by (cases m) auto
  then show ?case
    using Suc.IH Suc.prems(1) by (auto simp: returns_Suc)
qed (simp add: returns_def)

text \<open>One more call for each step down: the fields of a type that is reached in finitely many steps
  return.\<close>

lemma part_return:
  assumes "s \<in> Wellfounded.acc (part_of env)"
  shows "\<exists>n. \<forall>f \<in> set (struct_fields env s). returns n env f"
  using assms
proof (induction rule: acc.induct)
  case (accI s)
  have "\<exists>n. returns n env f" if f: "f \<in> set (struct_fields env s)" for f
  proof (cases "field_struct f")
    case None
    then have "returns (Suc 0) env f" by (simp add: returns_Suc)
    then show ?thesis by blast
  next
    case (Some t)
    then have "(t, s) \<in> part_of env" using f by (auto simp: part_of_def)
    with accI obtain n where "\<forall>f \<in> set (struct_fields env t). returns n env f" by blast
    then have "returns (Suc n) env f"
      unfolding returns_Suc Some by simp
    then show ?thesis by blast
  qed
  then obtain N where N: "returns (N f) env f" if "f \<in> set (struct_fields env s)" for f
    by metis
  have "returns (sum_list (map N (struct_fields env s))) env f" if "f \<in> set (struct_fields env s)" for f
    using N [OF that] by (rule returns_mono) (use that in \<open>simp add: member_le_sum_list\<close>)
  then show ?case by blast
qed

lemma returned_acc:
  assumes "returns n env sf" "field_struct sf = Some s"
  shows "s \<in> Wellfounded.acc (part_of env)"
  using assms
proof (induction n arbitrary: sf s)
  case (Suc n)
  show ?case
  proof (rule accI)
    fix t
    assume "(t, s) \<in> part_of env"
    then obtain f where "f \<in> set (struct_fields env s)" "field_struct f = Some t"
      by (auto simp: part_of_def)
    with Suc show "t \<in> Wellfounded.acc (part_of env)"
      by (auto simp: returns_Suc)
  qed
qed (simp add: returns_def)

lemma finite_part_of: "finite (part_of env)"
proof (rule finite_subset)
  let ?fs = "concat (map snd env)"
  show "part_of env \<subseteq> (\<lambda>f. the (field_struct f)) ` set ?fs \<times> fst ` set env"
  proof
    fix p
    assume "p \<in> part_of env"
    then obtain t s f where p: "p = (t, s)" "f \<in> set (struct_fields env s)" "field_struct f = Some t"
      by (auto simp: part_of_def)
    then obtain fs where "map_of env s = Some fs" "f \<in> set fs"
      by (cases "map_of env s") (auto simp: struct_fields_def)
    then have fs: "(s, fs) \<in> set env" "f \<in> set fs"
      by (auto dest: map_of_SomeD)
    have "t = the (field_struct f)" "f \<in> set ?fs" "s = fst (s, fs)"
      using p fs by (simp_all, force)
    then show "p \<in> (\<lambda>f. the (field_struct f)) ` set ?fs \<times> fst ` set env"
      unfolding p(1) using fs(1) by (intro SigmaI image_eqI)
  qed
qed simp

lemma acc_iff_not_recursive: "s \<in> Wellfounded.acc (part_of env) \<longleftrightarrow> \<not> recursive_type env s"
proof
  assume acc: "s \<in> Wellfounded.acc (part_of env)"
  show "\<not> recursive_type env s"
  proof
    assume "recursive_type env s"
    then obtain t where t: "(t, s) \<in> (part_of env)\<^sup>*" "(t, t) \<in> (part_of env)\<^sup>+"
      by (auto simp: recursive_type_def)
    have "t \<in> Wellfounded.acc (part_of env)"
      using acc_downwards [OF acc t(1)] .
    then have "(t, t) \<notin> (part_of env)\<^sup>+"
      by (induction rule: acc.induct) (metis rtrancl_into_trancl2 tranclD2)
    with t(2) show False by contradiction
  qed
next
  assume nr: "\<not> recursive_type env s"
  define R where "R = {(u, t). (u, t) \<in> part_of env \<and> (t, s) \<in> (part_of env)\<^sup>*}"
  have sub: "R\<^sup>+ \<subseteq> (part_of env)\<^sup>+"
    by (rule trancl_mono_subset) (auto simp: R_def)
  have "(t, t) \<notin> R\<^sup>+" for t
  proof
    assume t: "(t, t) \<in> R\<^sup>+"
    then obtain u where "(u, t) \<in> R" by (meson tranclE)
    then have "(t, s) \<in> (part_of env)\<^sup>*" by (simp add: R_def)
    then show False
      using nr t sub unfolding recursive_type_def by blast
  qed
  moreover have "finite R"
    by (rule finite_subset [OF _ finite_part_of]) (auto simp: R_def)
  ultimately have wf: "wf R"
    by (simp add: finite_acyclic_wf acyclic_def)
  have "(t, s) \<in> (part_of env)\<^sup>* \<Longrightarrow> t \<in> Wellfounded.acc (part_of env)" for t
    using wf
  proof (induction t)
    case (less t)
    show ?case
    proof (rule accI)
      fix u
      assume "(u, t) \<in> part_of env"
      then have "(u, t) \<in> R" "(u, s) \<in> (part_of env)\<^sup>*"
        using less.prems by (simp_all add: R_def converse_rtrancl_into_rtrancl)
      then show "u \<in> Wellfounded.acc (part_of env)" by (rule less.IH)
    qed
  qed
  then show "s \<in> Wellfounded.acc (part_of env)" by simp
qed

section \<open>Merging\<close>

lemma keyedI: "distinct (map fst fm) \<Longrightarrow> (\<And>k f. (k, f) \<in> set fm \<Longrightarrow> keyed (fd_Child f)) \<Longrightarrow> keyed fm"
  by (subst keyed.simps) (auto simp: list_all_iff)

lemma keyedD:
  assumes "keyed fm"
  shows "distinct (map fst fm)" "(k, f) \<in> set fm \<Longrightarrow> keyed (fd_Child f)"
  using assms by (subst (asm) keyed.simps, auto simp: list_all_iff)+

lemma plainI:
  "(\<And>k f. (k, f) \<in> set fm \<Longrightarrow> \<not> fd_anonymous f) \<Longrightarrow> (\<And>k f. (k, f) \<in> set fm \<Longrightarrow> plain (fd_Child f)) \<Longrightarrow> plain fm"
  by (subst plain.simps) (auto simp: list_all_iff)

lemma plainD:
  assumes "plain fm" "(k, f) \<in> set fm"
  shows "\<not> fd_anonymous f" "plain (fd_Child f)"
  using assms by (subst (asm) plain.simps, force simp: list_all_iff)+

lemma keyed_Nil [simp]: "keyed []" "plain []"
  by (rule keyedI plainI; simp)+

lemma set_update_subset: "set (AList.update k f fm) \<subseteq> insert (k, f) (set fm)"
  by (induction fm) auto

lemma keyed_update:
  assumes "keyed fm" "keyed (fd_Child f)"
  shows "keyed (AList.update k f fm)"
proof (rule keyedI)
  fix k' f'
  assume "(k', f') \<in> set (AList.update k f fm)"
  then have "f' = f \<or> (k', f') \<in> set fm"
    using set_update_subset [of k f fm] by auto
  then show "keyed (fd_Child f')"
    using assms(2) keyedD(2) [OF assms(1)] by blast
qed (simp add: distinct_update keyedD(1) [OF assms(1)])

lemma keyed_set_all: "keyed fm \<Longrightarrow> (\<And>k f. (k, f) \<in> set new \<Longrightarrow> keyed (fd_Child f)) \<Longrightarrow> keyed (set_all new fm)"
  by (induction new arbitrary: fm) (auto simp: set_all_def intro: keyed_update)

lemma keyed_delete: "keyed fm \<Longrightarrow> keyed (AList.delete k fm)"
  by (rule keyedI) (auto simp: AList.delete_eq keyedD(1) distinct_map_filter intro: keyedD(2))

lemma keyed_merge_pass: "keyed fm \<Longrightarrow> keyed (fst (merge_pass ks fm))"
proof (induction ks fm rule: merge_pass.induct)
  case (2 k ks fm)
  show ?case
  proof (cases "map_of fm k")
    case (Some v)
    then have "keyed (fd_Child v)"
      using keyedD(2) [OF "2.prems"] by (blast dest: map_of_SomeD)
    then have "keyed (set_all (fd_Child v) (AList.delete k fm))"
      using "2.prems" keyedD(2) by (intro keyed_set_all keyed_delete)
    then show ?thesis
      using 2 Some by simp
  qed (use 2 in simp)
qed simp

lemma merge_pass_done:
  "\<not> snd (merge_pass ks fm) \<Longrightarrow> fst (merge_pass ks fm) = fm \<and> (\<forall>k \<in> set ks. \<forall>v. map_of fm k = Some v \<longrightarrow> \<not> fd_anonymous v)"
proof (induction ks fm rule: merge_pass.induct)
  case (2 k ks fm)
  show ?case
  proof (cases "map_of fm k")
    case (Some v)
    then show ?thesis
      using 2 by (cases "fd_anonymous v") simp_all
  qed (use 2 in simp)
qed simp

lemma merge_pass_plain:
  "\<forall>(k, f) \<in> set fm. \<not> fd_anonymous f \<Longrightarrow> merge_pass ks fm = (fm, False)"
  by (induction ks) (auto split: option.splits dest: map_of_SomeD)

lemma child_of_map:
  assumes "(k, f) \<in> set (map (\<lambda>(k, f). (k, if fd_Child f = [] then f else with_child f (g f))) fm)"
  obtains f' where "(k, f') \<in> set fm" "fd_anonymous f = fd_anonymous f'"
    "fd_Child f = (if fd_Child f' = [] then [] else g f')"
  using assms by (force simp: with_child_def split: if_splits)

lemma merge_keyed_plain:
  "visits ord \<Longrightarrow> keyed fm \<Longrightarrow> keyed (merge ord fm) \<and> plain (merge ord fm)"
proof (induction ord fm rule: merge.induct)
  case (1 ord fm)
  let ?r = "merge_pass (ord fm) fm"
  let ?fm = "map (\<lambda>(k, f). (k, if fd_Child f = [] then f else with_child f (merge ord (fd_Child f)))) (fst ?r)"
  have r: "keyed (fst ?r)" using "1.prems"(2) by (rule keyed_merge_pass)
  have child: "keyed (merge ord (fd_Child f)) \<and> plain (merge ord (fd_Child f))"
    if "(k, f) \<in> set (fst ?r)" "fd_Child f \<noteq> []" for k f
    using 1(1) [OF refl that(1) refl that(2) "1.prems"(1)] keyedD(2) [OF r that(1)] by simp
  have "map fst ?fm = map fst (fst ?r)"
    by (auto simp: comp_def)
  then have dist: "distinct (map fst ?fm)"
    using keyedD(1) [OF r] by (simp only:)
  have sub: "keyed (fd_Child f) \<and> plain (fd_Child f)" if "(k, f) \<in> set ?fm" for k f
    using that by (rule child_of_map) (use child in simp)
  have keyed: "keyed ?fm"
    using dist sub by (blast intro: keyedI)
  show ?case
  proof (cases "snd ?r")
    case True
    then show ?thesis
      using 1(2) [OF refl refl True "1.prems"(1) keyed] merge.simps [of ord fm] by (simp add: Let_def)
  next
    case False
    have na: "\<not> fd_anonymous f" if "(k, f) \<in> set fm" for k f
      using merge_pass_done [OF False] that keyedD(1) [OF "1.prems"(2)] "1.prems"(1)
      by (force simp: visits_def)
    have "\<not> fd_anonymous f" if "(k, f) \<in> set ?fm" for k f
      by (rule child_of_map [OF that]) (use merge_pass_done [OF False] na in auto)
    then have "plain ?fm"
      using sub by (blast intro: plainI)
    then show ?thesis
      using False keyed merge.simps [of ord fm] by (simp add: Let_def)
  qed
qed

lemma merge_of_plain: "plain fm \<Longrightarrow> merge ord fm = fm"
proof (induction ord fm rule: merge.induct)
  case (1 ord fm)
  have r: "merge_pass (ord fm) fm = (fm, False)"
    using plainD(1) [OF "1.prems"] by (intro merge_pass_plain) auto
  have "with_child f (merge ord (fd_Child f)) = f" if "(k, f) \<in> set fm" "fd_Child f \<noteq> []" for k f
    using 1(1) [of "(fm, False)" "(k, f)" k f] that r plainD(2) [OF "1.prems" that(1)] by (simp add: with_child_def)
  then show ?case
    by (subst merge.simps) (auto simp: r Let_def intro!: map_idI)
qed

section \<open>Registration\<close>

lemma those_Some: "those xs = Some ys \<Longrightarrow> map Some ys = xs"
  by (induction xs arbitrary: ys) (auto split: option.splits)

lemma those_fields:
  assumes "those (map (\<lambda>f. map_option (\<lambda>x. (sf_Name f, x)) (newField n env f)) sfs) = Some fs" "(k, g) \<in> set fs"
  shows "\<exists>f \<in> set sfs. newField n env f = Some g"
proof -
  have "Some (k, g) \<in> set (map Some fs)" using assms(2) by simp
  then obtain f where "f \<in> set sfs" "map_option (\<lambda>x. (sf_Name f, x)) (newField n env f) = Some (k, g)"
    unfolding those_Some [OF assms(1)] by (metis (no_types, lifting) image_iff set_map)
  then show ?thesis by auto
qed

lemma newField_keyed: "newField n env sf = Some f \<Longrightarrow> keyed (fd_Child f)"
proof (induction n arbitrary: sf f)
  case (Suc n)
  show ?case
  proof (cases "field_struct sf")
    case None
    then show ?thesis
      using Suc.prems by (auto simp: newField_Suc make_field_def)
  next
    case (Some s)
    then obtain fs where fs: "those (map (\<lambda>f. map_option (\<lambda>x. (sf_Name f, x)) (newField n env f)) (struct_fields env s)) = Some fs"
      and f: "fd_Child f = set_all fs []"
      using Suc.prems by (auto simp: newField_Suc make_field_def)
    show ?thesis
      unfolding f using those_fields [OF fs] Suc.IH by (intro keyed_set_all) auto
  qed
qed simp

lemma parse_arg_keyed:
  assumes "parse_arg n env arg fm = Some (Inr fm')" "keyed fm"
  shows "keyed fm'"
proof -
  obtain s where s: "un_ptr arg = Struct s"
    using assms(1) by (auto simp: parse_arg_def split: gotyp.splits)
  then obtain fs where fs: "those (map (\<lambda>f. map_option (\<lambda>x. (sf_Name f, x)) (newField n env f))
    (filter (\<lambda>f. type_String (sf_Type f) \<noteq> ''service.RequestHeader'') (struct_fields env s))) = Some fs"
    and fm': "fm' = set_all fs fm"
    using assms(1) by (auto simp: parse_arg_def)
  show ?thesis
    unfolding fm' using assms(2) those_fields [OF fs] newField_keyed by (intro keyed_set_all) blast+
qed

lemma obind_eq: "obind r f = Some (Inr y) \<longleftrightarrow> (\<exists>x. r = Some (Inr x) \<and> f x = Some (Inr y))"
  by (auto simp: obind_def split: option.splits sum.splits)

definition method_ok :: "dmethod \<Rightarrow> bool" where
  "method_ok m \<longleftrightarrow> keyed (me_Request m) \<and> plain (me_Request m) \<and> keyed (me_Response m) \<and> plain (me_Response m)"

lemma doc_ok_iff:
  "doc_ok d \<longleftrightarrow> distinct (map fst d) \<and> (\<forall>name md. (name, md) \<in> set d \<longrightarrow>
     distinct (map fst (mo_Methods md)) \<and> (\<forall>k m. (k, m) \<in> set (mo_Methods md) \<longrightarrow> method_ok m))"
  unfolding doc_ok_def method_ok_def by fast

lemma document_add_Some:
  assumes "document_add ord n env project docExport name url rm d = Some (Inr d')"
    and md: "md = (case map_of d name of Some md \<Rightarrow> md | None \<Rightarrow> \<lparr>mo_URL = url, mo_Methods = []\<rparr>)"
  obtains m in1 in2 req resp where
    "map_of (mo_Methods md) (rm_Name rm) = Some m \<or> me_Request m = [] \<and> me_Response m = []"
    "parse_arg n env in1 (me_Request m) = Some (Inr req)" "parse_arg n env in2 (me_Response m) = Some (Inr resp)"
    "d' = AList.update name (md\<lparr>mo_Methods := AList.update (rm_Name rm)
        (m\<lparr>me_Request := merge ord req, me_Response := merge ord resp\<rparr>) (mo_Methods md)\<rparr>) d"
proof -
  obtain m in1 req in2 resp where "(case map_of (mo_Methods md) (rm_Name rm) of
          Some m \<Rightarrow> Inr m
        | None \<Rightarrow> rbind (getExportComment project docExport name url (rm_Name rm)) (\<lambda>c.
            Inr \<lparr>me_Comment = c, me_Request = [], me_Response = []\<rparr>)) = Inr m"
    and rest: "parse_arg n env in1 (me_Request m) = Some (Inr req)" "parse_arg n env in2 (me_Response m) = Some (Inr resp)"
      "d' = AList.update name (md\<lparr>mo_Methods := AList.update (rm_Name rm)
        (m\<lparr>me_Request := merge ord req, me_Response := merge ord resp\<rparr>) (mo_Methods md)\<rparr>) d"
    using assms(1) unfolding document_add_def Let_def obind_eq md [symmetric] by blast
  moreover have "map_of (mo_Methods md) (rm_Name rm) = Some m \<or> me_Request m = [] \<and> me_Response m = []"
    using calculation(1) by (auto simp: go_simps split: option.splits)
  ultimately show ?thesis
    using that by blast
qed

lemma document_add_ok:
  assumes "document_add ord n env project docExport name url rm d = Some (Inr d')" "doc_ok d" "visits ord"
  shows "doc_ok d'"
proof -
  define md where md: "md = (case map_of d name of Some md \<Rightarrow> md | None \<Rightarrow> \<lparr>mo_URL = url, mo_Methods = []\<rparr>)"
  from assms(1) md obtain m in1 in2 req resp where m:
    "map_of (mo_Methods md) (rm_Name rm) = Some m \<or> me_Request m = [] \<and> me_Response m = []"
    "parse_arg n env in1 (me_Request m) = Some (Inr req)" "parse_arg n env in2 (me_Response m) = Some (Inr resp)"
    "d' = AList.update name (md\<lparr>mo_Methods := AList.update (rm_Name rm)
        (m\<lparr>me_Request := merge ord req, me_Response := merge ord resp\<rparr>) (mo_Methods md)\<rparr>) d"
    by (rule document_add_Some)
  have old: "distinct (map fst (mo_Methods md)) \<and> (\<forall>k x. (k, x) \<in> set (mo_Methods md) \<longrightarrow> method_ok x)"
    using assms(2) md by (cases "map_of d name") (auto simp: doc_ok_iff dest!: map_of_SomeD)
  have "keyed (me_Request m) \<and> keyed (me_Response m)"
    using m(1) old by (auto simp: method_ok_def dest: map_of_SomeD)
  then have new: "method_ok (m\<lparr>me_Request := merge ord req, me_Response := merge ord resp\<rparr>)"
    using merge_keyed_plain [OF assms(3)] parse_arg_keyed [OF m(2)] parse_arg_keyed [OF m(3)] by (simp add: method_ok_def)
  have "distinct (map fst (mo_Methods md')) \<and> (\<forall>k x. (k, x) \<in> set (mo_Methods md') \<longrightarrow> method_ok x)"
    if "(nm, md') \<in> set d'" for nm md'
  proof (cases "(nm, md') \<in> set d")
    case False
    then have "mo_Methods md' = AList.update (rm_Name rm) (m\<lparr>me_Request := merge ord req, me_Response := merge ord resp\<rparr>) (mo_Methods md)"
      using that m(4) set_update_subset by fastforce
    then show ?thesis
      using set_update_subset new old by (fastforce simp: distinct_update)
  qed (use assms(2) doc_ok_iff in blast)
  moreover have "distinct (map fst d')"
    unfolding m(4) using assms(2) by (simp add: distinct_update doc_ok_iff)
  ultimately show ?thesis
    unfolding doc_ok_iff by blast
qed

lemma to_upper_verbs:
  "to_upper ''Get'' = ''GET''" "to_upper ''Post'' = ''POST''" "to_upper ''Put'' = ''PUT''" "to_upper ''Delete'' = ''DELETE''"
  by code_simp+

lemma object_routes_Cons:
  "object_routes project t (k # ks) =
     (case map_of (ot_Methods t) k of
        None \<Rightarrow> []
      | Some m \<Rightarrow> if length (rm_In m) = 3 then [(to_upper k @ object_url project t, m)] else []) @
     object_routes project t ks"
  by (simp add: object_routes_def)

lemma object_routes_keys:
  "key \<in> set (map fst (object_routes project t ks)) \<Longrightarrow> \<exists>k \<in> set ks. key = to_upper k @ object_url project t"
  by (induction ks) (auto simp: object_routes_Cons object_routes_def [of _ _ "[]"] split: option.splits if_splits)

text \<open>What a successful registration adds.\<close>

definition routes_added :: "(string \<times> 'f reflectMethod) list \<Rightarrow> 'f Service_obj \<Rightarrow> 'f Service_obj \<Rightarrow> bool" where
  "routes_added rs s s' \<longleftrightarrow>
     hs_prefix (sv_http s') = hs_prefix (sv_http s) \<and>
     (\<forall>k. map_of (sv_router s') k = (case map_of rs k of Some m \<Rightarrow> Some m | None \<Rightarrow> map_of (sv_router s) k)) \<and>
     (\<forall>k. map_of (hs_path (sv_http s')) k =
        (case map_of rs k of Some m \<Rightarrow> Some ServiceHandler | None \<Rightarrow> map_of (hs_path (sv_http s)) k))"

definition enter_route :: "string \<Rightarrow> 'f reflectMethod \<Rightarrow> 'f Service_obj \<Rightarrow> 'f Service_obj" where
  "enter_route key m s =
     s\<lparr>sv_http := (sv_http s)\<lparr>hs_path := hs_path (sv_http s) @ [(key, ServiceHandler)]\<rparr>,
       sv_router := AList.update key m (sv_router s)\<rparr>"

lemma enter_route_ok:
  assumes "service_ok s" "map_of (hs_path (sv_http s)) key = None" "doc_ok d"
  shows "service_ok (enter_route key m s\<lparr>sv_doc := d\<rparr>)" "routes_added [(key, m)] s (enter_route key m s\<lparr>sv_doc := d\<rparr>)"
proof -
  have "map_of (hs_path (sv_http s) @ [(key, ServiceHandler)]) k =
      (if k = key then Some ServiceHandler else map_of (hs_path (sv_http s)) k)" for k
    using assms(2) by (auto simp: map_add_def split: option.splits)
  then show "service_ok (enter_route key m s\<lparr>sv_doc := d\<rparr>)" "routes_added [(key, m)] s (enter_route key m s\<lparr>sv_doc := d\<rparr>)"
    using assms unfolding service_ok_def enter_route_def routes_added_def
    by (simp_all add: update_conv' del: map_of_append)
qed

lemma routes_added_trans:
  assumes "routes_added [(key, m)] s s1" "routes_added rs s1 s2" "key \<notin> set (map fst rs)"
  shows "routes_added ((key, m) # rs) s s2"
proof -
  have "map_of rs key = None" using assms(3) by (simp add: map_of_eq_None_iff)
  with assms(1,2) show ?thesis
    by (auto simp: routes_added_def split: option.splits)
qed

lemma register_verbs_ok:
  assumes "register_verbs ord n env project docExport t ks s = Some (r, s')" "service_ok s" "visits ord"
    "distinct (map to_upper ks)"
  shows "service_ok s' \<and> (r = Inr () \<longrightarrow> routes_added (object_routes project t ks) s s')"
  using assms
proof (induction ks arbitrary: s)
  case Nil
  then show ?case by (auto simp: object_routes_def routes_added_def)
next
  case (Cons k ks)
  let ?url = "object_url project t"
  let ?key = "to_upper k @ ?url"
  show ?case
  proof (cases "\<exists>m. map_of (ot_Methods t) k = Some m \<and> length (rm_In m) = 3")
    case False
    then have "register_verbs ord n env project docExport t ks s = Some (r, s')"
      "object_routes project t (k # ks) = object_routes project t ks"
      using Cons.prems(1) by (auto simp: object_routes_Cons split: option.splits)
    then show ?thesis
      using Cons.IH [of s] Cons.prems by simp
  next
    case True
    then obtain m where m: "map_of (ot_Methods t) k = Some m" "length (rm_In m) = 3" by blast
    show ?thesis
    proof (cases "map_of (hs_path (sv_http s)) ?key")
      case (Some h)
      then show ?thesis
        using Cons.prems m by (auto simp: RegisterHandler_def)
    next
      case None
      let ?doc = "document_add ord n env project docExport (ot_Name t) ?url m (sv_doc s)"
      have run: "(case ?doc of None \<Rightarrow> None | Some (Inl e) \<Rightarrow> Some (Inl e, enter_route ?key m s)
          | Some (Inr d) \<Rightarrow> register_verbs ord n env project docExport t ks (enter_route ?key m s\<lparr>sv_doc := d\<rparr>)) = Some (r, s')"
        using Cons.prems(1) m None unfolding enter_route_def by (simp add: RegisterHandler_def router_add_def Let_def)
      have doc: "doc_ok (sv_doc s)" using Cons.prems(2) by (simp add: service_ok_def)
      show ?thesis
      proof (cases "\<exists>d. ?doc = Some (Inr d)")
        case False
        then show ?thesis
          using run enter_route_ok(1) [OF Cons.prems(2) None doc, of m]
          by (auto simp: enter_route_def split: option.splits sum.splits)
      next
        case True
        then obtain d where d: "?doc = Some (Inr d)" by blast
        then have "doc_ok d" using document_add_ok doc Cons.prems(3) by blast
        note ok = enter_route_ok [OF Cons.prems(2) None this, of m]
        have "?key \<notin> set (map fst (object_routes project t ks))"
          using object_routes_keys [of ?key project t ks] Cons.prems(4) by auto
        then show ?thesis
          using Cons.IH [of "enter_route ?key m s\<lparr>sv_doc := d\<rparr>"] run d ok Cons.prems m routes_added_trans [OF ok(2)]
          by (simp add: object_routes_Cons)
      qed
    qed
  qed
qed

lemma called_routes_added:
  assumes "routes_added rs s s'"
  shows "called s' meth path = (case map_of rs (meth @ path) of Some m \<Rightarrow> Some m | None \<Rightarrow> called s meth path)"
proof (cases "map_of rs (meth @ path)")
  case None
  then have "getHandler (sv_http s') meth path = getHandler (sv_http s) meth path"
    "router_get meth path (sv_router s') = router_get meth path (sv_router s)"
    using assms by (auto simp: getHandler_def routes_added_def router_get_def split: option.splits)
  with None show ?thesis unfolding called_def by (simp only: option.case)
next
  case (Some m)
  then show ?thesis
    using assms by (simp add: called_def getHandler_def routes_added_def router_get_def)
qed

section \<open>Properties\<close>

text \<open>C17: The documentation of a field is derived in finitely many steps exactly when the struct types
  it leads to do not contain themselves, through whatever pointers and slices: a linked list, or the
  request of the standard library, which holds the response that holds the request, makes the
  registration of an object never return.\<close>

theorem newField_returns_iff:
  "(\<exists>n f. newField n env sf = Some f) \<longleftrightarrow> \<not> (\<exists>s. field_struct sf = Some s \<and> recursive_type env s)"
proof (cases "field_struct sf")
  case None
  then have "newField (Suc 0) env sf = Some (make_field sf [])"
    by (simp add: newField_Suc)
  with None show ?thesis by auto
next
  case (Some s)
  have "(\<exists>n. returns n env sf) \<longleftrightarrow> s \<in> Wellfounded.acc (part_of env)"
  proof
    assume "s \<in> Wellfounded.acc (part_of env)"
    then obtain n where "\<forall>f \<in> set (struct_fields env s). returns n env f"
      using part_return by blast
    then have "returns (Suc n) env sf"
      unfolding returns_Suc Some by simp
    then show "\<exists>n. returns n env sf" by blast
  qed (use returned_acc [OF _ Some] in blast)
  then show ?thesis
    using Some acc_iff_not_recursive by (auto simp: returns_def)
qed


definition sample_type :: "nat objtype" where
  "sample_type = \<lparr>ot_Name = ''Login'', ot_PkgPath = ''git/demo/user'', ot_Methods =
     [(''Get'', \<lparr>rm_Name = ''Get'', rm_In = [Struct ''user.Login'', Struct ''user.Req'', Ptr (Struct ''user.Resp'')], rm_Func = 1\<rparr>),
      (''Put'', \<lparr>rm_Name = ''Put'', rm_In = [Struct ''user.Login''], rm_Func = 2\<rparr>)]\<rparr>"

definition sample_env :: typenv where
  "sample_env =
     [(''user.Req'', [\<lparr>sf_Name = ''RequestHeader'', sf_Type = Struct ''service.RequestHeader'', sf_Anonymous = True,
         sf_comment = [], sf_required = [], sf_json = []\<rparr>,
        \<lparr>sf_Name = ''Page'', sf_Type = Struct ''user.Page'', sf_Anonymous = True, sf_comment = [], sf_required = [], sf_json = []\<rparr>]),
      (''user.Page'', [\<lparr>sf_Name = ''Size'', sf_Type = Basic ''int'', sf_Anonymous = False, sf_comment = [],
         sf_required = ''true'', sf_json = ''size,omitempty''\<rparr>]),
      (''user.Resp'', [])]"


end
