(* ===== verification/HttpClient.thy ===== *)
theory HttpClient
  imports Server Json "HOL-Library.AList"
begin

text \<open>
  The HTTP client that the programs call each other with, \<open>client.go\<close> under
  \<open>_vendor/github.com/dearcode/crab/http/client\<close>, and the documents in the other direction: the
  answers of the library's \<open>Send\<close> functions as JSON, and reading a JSON value into a Go variable.

  The network is a parameter: \<open>net_do\<close> stands for building the request, sending it and reading the
  whole body, and gives the status and the body, or the error of any of these.
\<close>

section \<open>Definitions\<close>

subsection \<open>The client\<close>

record 'w net =
  net_do :: "string \<Rightarrow> string \<Rightarrow> (string \<times> string) list \<Rightarrow> string \<Rightarrow> ('w, int \<times> string) call"

definition StatusError :: "int \<Rightarrow> error" where
  "StatusError code = ErrText (''HTTP Status '' @ show_int code)"

definition client_do :: "'w net \<Rightarrow> string \<Rightarrow> string \<Rightarrow> (string \<times> string) list \<Rightarrow> string \<Rightarrow> ('w, string) call" where
  "client_do N meth url headers body =
     cbind (net_do N meth url headers body) (\<lambda>(status, data).
     if status \<noteq> 200 then craise (Error (StatusError status)) else creturn data)"

definition client_Get :: "'w net \<Rightarrow> string \<Rightarrow> (string \<times> string) list \<Rightarrow> string \<Rightarrow> ('w, string) call" where
  "client_Get N = client_do N ''GET''"

definition client_POST :: "'w net \<Rightarrow> string \<Rightarrow> (string \<times> string) list \<Rightarrow> string \<Rightarrow> ('w, string) call" where
  "client_POST N = client_do N ''POST''"

definition client_PUT :: "'w net \<Rightarrow> string \<Rightarrow> (string \<times> string) list \<Rightarrow> string \<Rightarrow> ('w, string) call" where
  "client_PUT N = client_do N ''PUT''"

definition client_DELETE :: "'w net \<Rightarrow> string \<Rightarrow> (string \<times> string) list \<Rightarrow> string \<Rightarrow> ('w, string) call" where
  "client_DELETE N = client_do N ''DELETE''"

definition json_error :: fault where
  "json_error = Error (ErrText ''json: cannot unmarshal'')"

definition unmarshal :: "string \<Rightarrow> (json \<Rightarrow> 'a result) \<Rightarrow> 'a result" where
  "unmarshal buf dec = (case parse_json buf of None \<Rightarrow> Inl json_error | Some j \<Rightarrow> dec j)"

definition PostJSON :: "'w net \<Rightarrow> string \<Rightarrow> (string \<times> string) list \<Rightarrow> json \<Rightarrow> (json \<Rightarrow> 'a result) \<Rightarrow> ('w, 'a) call" where
  "PostJSON N url headers data dec =
     cbind (client_do N ''POST'' url (AList.update ''Content-type'' ''application/json'' headers) (show_json data)) (\<lambda>buf.
     pure_call (unmarshal buf dec))"

subsection \<open>Reading JSON into a variable\<close>

text \<open>\<open>null\<close> leaves a variable as it is, and a value of another kind is an error.  A member of an
  object goes to the field of its name, else to the first whose name differs in case only, and is
  skipped without one.\<close>

definition dec_str :: "json \<Rightarrow> string \<Rightarrow> string result" where
  "dec_str j old = (case j of JNull \<Rightarrow> Inr old | JStr s \<Rightarrow> Inr s | _ \<Rightarrow> Inl json_error)"

definition dec_bool :: "json \<Rightarrow> bool \<Rightarrow> bool result" where
  "dec_bool j old = (case j of JNull \<Rightarrow> Inr old | JBool b \<Rightarrow> Inr b | _ \<Rightarrow> Inl json_error)"

definition dec_int :: "json \<Rightarrow> int \<Rightarrow> int result" where
  "dec_int j old =
     (case j of
        JNull \<Rightarrow> Inr old
      | JNum s \<Rightarrow> (case parse_int 10 s of (i, ok) \<Rightarrow> if ok then Inr i else Inl json_error)
      | _ \<Rightarrow> Inl json_error)"

type_synonym 'a setter = "json \<Rightarrow> 'a \<Rightarrow> 'a result"

definition setter_for :: "string \<Rightarrow> (string \<times> 'a setter) list \<Rightarrow> 'a setter option" where
  "setter_for k sts =
     (case map_of sts k of
        Some s \<Rightarrow> Some s
      | None \<Rightarrow> map_option snd (List.find (\<lambda>p. to_lower (fst p) = to_lower k) sts))"

fun dec_members :: "(string \<times> 'a setter) list \<Rightarrow> (string \<times> json) list \<Rightarrow> 'a \<Rightarrow> 'a result" where
  "dec_members sts [] x = Inr x"
| "dec_members sts ((k, j) # ms) x =
     (case setter_for k sts of
        None \<Rightarrow> dec_members sts ms x
      | Some s \<Rightarrow> rbind (s j x) (dec_members sts ms))"

definition dec_struct :: "(string \<times> 'a setter) list \<Rightarrow> 'a \<Rightarrow> json \<Rightarrow> 'a result" where
  "dec_struct sts x j =
     (case j of JNull \<Rightarrow> Inr x | JObj ms \<Rightarrow> dec_members sts ms x | _ \<Rightarrow> Inl json_error)"

fun dec_all :: "(json \<Rightarrow> 'a result) \<Rightarrow> json list \<Rightarrow> 'a list result" where
  "dec_all dec [] = Inr []"
| "dec_all dec (j # js) = rbind (dec j) (\<lambda>x. rbind (dec_all dec js) (\<lambda>xs. Inr (x # xs)))"

definition dec_slice :: "(json \<Rightarrow> 'a result) \<Rightarrow> 'a list \<Rightarrow> json \<Rightarrow> 'a list result" where
  "dec_slice dec old j = (case j of JNull \<Rightarrow> Inr [] | JArr js \<Rightarrow> dec_all dec js | _ \<Rightarrow> Inl json_error)"

subsection \<open>Answers\<close>

text \<open>The document and the HTTP status of an answer; \<open>msg\<close> is the text of an error and \<open>enc\<close> the JSON of
  the data.  An empty message is left out.\<close>

definition response_json :: "int \<Rightarrow> string \<Rightarrow> json option \<Rightarrow> json" where
  "response_json status message data =
     JObj ((''Status'', JNum (show_int status)) # (if message = [] then [] else [(''Message'', JStr message)]) @
       (case data of None \<Rightarrow> [] | Some j \<Rightarrow> [(''Data'', j)]))"

fun render :: "(error \<Rightarrow> string) \<Rightarrow> ('p \<Rightarrow> json) \<Rightarrow> 'p reply \<Rightarrow> int \<times> string" where
  "render msg enc (Refuse st e) = (200, show_json (response_json st (msg e) None))"
| "render msg enc Okay = (200, show_json (response_json 0 [] None))"
| "render msg enc (Data p) = (200, show_json (response_json 0 [] (Some (enc p))))"
| "render msg enc (Rows n p) = (200, show_json (JObj [(''total'', JNum (show_int n)), (''rows'', enc p)]))"
| "render msg enc (Plain p) = (200, show_json (enc p))"
| "render msg enc (Aborted p) = (500, ''Internal Server Error'')"

section \<open>Lemmas\<close>

lemma unmarshal_show: "printed j \<Longrightarrow> unmarshal (show_json j) dec = dec j"
  by (simp add: unmarshal_def parse_json_show)

lemma printed_response:
  "printed (response_json st m d) \<longleftrightarrow> (\<forall>j. d = Some j \<longrightarrow> printed j)"
  by (auto simp: response_json_def split: option.splits)

lemma dec_simps [simp]:
  "dec_str (JStr s) old = Inr s" "dec_bool (JBool b) oldb = Inr b"
  "in_int64 i \<Longrightarrow> dec_int (JNum (show_int i)) oldi = Inr i"
  by (simp_all add: dec_str_def dec_bool_def dec_int_def)

lemma dec_all_map:
  "(\<And>x. x \<in> set xs \<Longrightarrow> dec (enc x) = Inr x) \<Longrightarrow> dec_all dec (map enc xs) = Inr xs"
  by (induction xs) auto

end
