(* ===== verification/Watcher.thy ===== *)
theory Watcher
  imports Document HttpClient Token
begin

text \<open>
  The distributor's view of the registry, \<open>src/distributor/watcher.go\<close>: which instances of a service
  run on which hosts, and the registration of the interfaces of a service with the manager.  When an
  instance of a new version announces itself, the distributor fetches the documentation that the
  instance publishes (\<open>Document\<close>), reads it back into the structs of
  \<open>src/meta/document/document.go\<close> and posts every method to the manager.

  A call acts on the watcher and on the world behind the network.  The goroutine that follows the
  registry has no \<open>recover\<close>: a panic in it ends the process.
\<close>

section \<open>Definitions\<close>

subsection \<open>Documents\<close>

text \<open>A nil map and an empty one print differently, so a map is an option.\<close>

datatype docField =
  DocField (df_Name: string) (df_Type: string) (df_Required: bool) (df_Comment: string)
    (df_Child: "(string \<times> docField) list option")

type_synonym docFields = "(string \<times> docField) list"

record docMethod =
  dm_Comment :: string
  dm_Request :: "docFields option"
  dm_Response :: "docFields option"

record docModule =
  du_URL :: string
  du_Methods :: "(string \<times> docMethod) list"

text \<open>What \<open>document.GET\<close> of the service library sends: a map prints its keys in order, and a field
  without children leaves the member out.\<close>

function json_field :: "field \<Rightarrow> json" where
  "json_field f =
     JObj ([(''Name'', JStr (fd_Name f)), (''Type'', JStr (fd_Type f)), (''Required'', JBool (fd_Required f))] @
       (if fd_Child f = [] then []
        else [(''Child'', JObj (map (\<lambda>p. (fst p, json_field (snd p))) (sort_key fst (fd_Child f))))]) @
       [(''Comment'', JStr (fd_Comment f))])"
  by pat_completeness auto
termination
  by (relation "measure field_size") (auto intro: field_size_child)

definition json_fields :: "fields \<Rightarrow> json" where
  "json_fields fm = JObj (map (\<lambda>p. (fst p, json_field (snd p))) (sort_key fst fm))"

definition json_method :: "dmethod \<Rightarrow> json" where
  "json_method m =
     JObj [(''Comment'', JStr (me_Comment m)), (''Request'', json_fields (me_Request m)),
       (''Response'', json_fields (me_Response m))]"

definition json_module :: "dmodule \<Rightarrow> json" where
  "json_module md =
     JObj [(''URL'', JStr (mo_URL md)),
       (''Methods'', JObj (map (\<lambda>p. (fst p, json_method (snd p))) (sort_key fst (mo_Methods md))))]"

definition document_GET :: "document \<Rightarrow> string" where
  "document_GET d = show_json (JObj (map (\<lambda>p. (fst p, json_module (snd p))) (sort_key fst d)))"

text \<open>Reading into a map: every member is read into a fresh value.\<close>

fun dec_map :: "(json \<Rightarrow> 'a result) \<Rightarrow> (string \<times> json) list \<Rightarrow> (string \<times> 'a) list \<Rightarrow> (string \<times> 'a) list result" where
  "dec_map dec [] m = Inr m"
| "dec_map dec ((k, j) # ms) m = rbind (dec j) (\<lambda>x. dec_map dec ms (AList.update k x m))"

definition zero_docField :: docField where
  "zero_docField = DocField [] [] False [] None"

definition member_size :: "(string \<times> json) list \<Rightarrow> nat" where
  "member_size ms = sum_list (map (\<lambda>m. Suc (json_size (snd m))) ms)"

function (sequential) dec_field :: "json \<Rightarrow> docField result"
  and dec_field_members :: "docField \<Rightarrow> (string \<times> json) list \<Rightarrow> docField result"
  and dec_fields :: "docFields \<Rightarrow> (string \<times> json) list \<Rightarrow> docFields result" where
  "dec_field JNull = Inr zero_docField"
| "dec_field (JObj ms) = dec_field_members zero_docField ms"
| "dec_field _ = Inl json_error"
| "dec_field_members f [] = Inr f"
| "dec_field_members (DocField nm ty rq cm ch) ((k, j) # ms) =
     (let l = to_lower k in
      if l = ''name'' then rbind (dec_str j nm) (\<lambda>x. dec_field_members (DocField x ty rq cm ch) ms)
      else if l = ''type'' then rbind (dec_str j ty) (\<lambda>x. dec_field_members (DocField nm x rq cm ch) ms)
      else if l = ''required'' then rbind (dec_bool j rq) (\<lambda>x. dec_field_members (DocField nm ty x cm ch) ms)
      else if l = ''comment'' then rbind (dec_str j cm) (\<lambda>x. dec_field_members (DocField nm ty rq x ch) ms)
      else if l = ''child'' then
        (case j of
           JNull \<Rightarrow> dec_field_members (DocField nm ty rq cm None) ms
         | JObj cs \<Rightarrow>
             rbind (dec_fields (case ch of None \<Rightarrow> [] | Some m \<Rightarrow> m) cs) (\<lambda>m.
             dec_field_members (DocField nm ty rq cm (Some m)) ms)
         | _ \<Rightarrow> Inl json_error)
      else dec_field_members (DocField nm ty rq cm ch) ms)"
| "dec_fields m [] = Inr m"
| "dec_fields m ((k, j) # ms) = rbind (dec_field j) (\<lambda>f. dec_fields (AList.update k f m) ms)"
  by pat_completeness auto
termination
  by (relation "measure (\<lambda>x. case x of Inl j \<Rightarrow> json_size j
      | Inr (Inl (f, ms)) \<Rightarrow> member_size ms | Inr (Inr (m, ms)) \<Rightarrow> member_size ms)")
    (auto simp: member_size_def)

definition dec_field_map :: "docFields option \<Rightarrow> json \<Rightarrow> docFields option result" where
  "dec_field_map old j =
     (case j of
        JNull \<Rightarrow> Inr None
      | JObj ms \<Rightarrow> rbind (dec_fields (case old of None \<Rightarrow> [] | Some m \<Rightarrow> m) ms) (\<lambda>m. Inr (Some m))
      | _ \<Rightarrow> Inl json_error)"

definition method_setters :: "(string \<times> docMethod setter) list" where
  "method_setters =
     [(''Comment'', \<lambda>j m. rbind (dec_str j (dm_Comment m)) (\<lambda>x. Inr (m\<lparr>dm_Comment := x\<rparr>))),
      (''Request'', \<lambda>j m. rbind (dec_field_map (dm_Request m) j) (\<lambda>x. Inr (m\<lparr>dm_Request := x\<rparr>))),
      (''Response'', \<lambda>j m. rbind (dec_field_map (dm_Response m) j) (\<lambda>x. Inr (m\<lparr>dm_Response := x\<rparr>)))]"

definition zero_docMethod :: docMethod where
  "zero_docMethod = \<lparr>dm_Comment = [], dm_Request = None, dm_Response = None\<rparr>"

definition dec_method :: "json \<Rightarrow> docMethod result" where
  "dec_method = dec_struct method_setters zero_docMethod"

definition module_setters :: "(string \<times> docModule setter) list" where
  "module_setters =
     [(''URL'', \<lambda>j u. rbind (dec_str j (du_URL u)) (\<lambda>x. Inr (u\<lparr>du_URL := x\<rparr>))),
      (''Methods'', \<lambda>j u.
         (case j of
            JNull \<Rightarrow> Inr (u\<lparr>du_Methods := []\<rparr>)
          | JObj ms \<Rightarrow> rbind (dec_map dec_method ms (du_Methods u)) (\<lambda>x. Inr (u\<lparr>du_Methods := x\<rparr>))
          | _ \<Rightarrow> Inl json_error))]"

definition dec_module :: "json \<Rightarrow> docModule result" where
  "dec_module = dec_struct module_setters \<lparr>du_URL = [], du_Methods = []\<rparr>"

definition dec_document :: "json \<Rightarrow> (string \<times> docModule) list result" where
  "dec_document j = (case j of JNull \<Rightarrow> Inr [] | JObj ms \<Rightarrow> dec_map dec_module ms [] | _ \<Rightarrow> Inl json_error)"

text \<open>How a documented field looks in the structs of the reader.\<close>

function read_field :: "field \<Rightarrow> docField" where
  "read_field f =
     DocField (fd_Name f) (fd_Type f) (fd_Required f) (fd_Comment f)
       (if fd_Child f = [] then None
        else Some (map (\<lambda>p. (fst p, read_field (snd p))) (sort_key fst (fd_Child f))))"
  by pat_completeness auto
termination
  by (relation "measure field_size") (auto intro: field_size_child)

definition read_fields :: "fields \<Rightarrow> docFields" where
  "read_fields fm = map (\<lambda>p. (fst p, read_field (snd p))) (sort_key fst fm)"

definition read_method :: "dmethod \<Rightarrow> docMethod" where
  "read_method m =
     \<lparr>dm_Comment = me_Comment m, dm_Request = Some (read_fields (me_Request m)),
      dm_Response = Some (read_fields (me_Response m))\<rparr>"

definition read_module :: "dmodule \<Rightarrow> docModule" where
  "read_module md =
     \<lparr>du_URL = mo_URL md, du_Methods = map (\<lambda>p. (fst p, read_method (snd p))) (sort_key fst (mo_Methods md))\<rparr>"

definition read_document :: "document \<Rightarrow> (string \<times> docModule) list" where
  "read_document d = map (\<lambda>p. (fst p, read_module (snd p))) (sort_key fst d)"

declare json_field.simps [simp del] read_field.simps [simp del]

subsection \<open>Registering interfaces with the manager\<close>

record distributorConfig =
  cf_ManagerURL :: string
  cf_SecretKey :: string
  cf_ETCDHosts :: string
  cf_BuildPath :: string
  cf_Script :: string
  cf_SSHKey :: string

function json_docField :: "docField \<Rightarrow> json" where
  "json_docField f =
     JObj [(''Name'', JStr (df_Name f)), (''Type'', JStr (df_Type f)), (''Required'', JBool (df_Required f)),
       (''Comment'', JStr (df_Comment f)),
       (''Child'', case df_Child f of
          None \<Rightarrow> JNull
        | Some m \<Rightarrow> JObj (map (\<lambda>p. (fst p, json_docField (snd p))) (sort_key fst m)))]"
  by pat_completeness auto

lemma docField_child_size: "df_Child f = Some m \<Longrightarrow> p \<in> set m \<Longrightarrow> size (snd p) < size f"
proof (cases f)
  case (DocField nm ty rq cm ch)
  assume "df_Child f = Some m" "p \<in> set m"
  moreover have "p \<in> set m \<Longrightarrow> size (snd p) \<le> size_list (size_prod (\<lambda>x. 0) size) m"
    by (erule size_list_estimation') (cases p, simp)
  ultimately show ?thesis
    using DocField by simp
qed

termination json_docField
  by (relation "measure size") (auto intro: docField_child_size)

declare json_docField.simps [simp del]

definition json_docFields :: "docFields option \<Rightarrow> json" where
  "json_docFields fm =
     (case fm of None \<Rightarrow> JNull | Some m \<Rightarrow> JObj (map (\<lambda>p. (fst p, json_docField (snd p))) (sort_key fst m)))"

definition json_docMethod :: "docMethod \<Rightarrow> json" where
  "json_docMethod m =
     JObj [(''Comment'', JStr (dm_Comment m)), (''Request'', json_docFields (dm_Request m)),
       (''Response'', json_docFields (dm_Response m))]"

definition register_json :: "int \<Rightarrow> int \<Rightarrow> string \<Rightarrow> string \<Rightarrow> string \<Rightarrow> string \<Rightarrow> docMethod \<Rightarrow> json" where
  "register_json projectID version name meth path backend m =
     JObj [(''Name'', JStr name), (''ProjectID'', JNum (show_int projectID)), (''Version'', JNum (show_int version)),
       (''Path'', JStr path), (''Method'', JNum (show_int (NewMethod meth))), (''Backend'', JStr backend),
       (''Comment'', JStr (dm_Comment m)), (''Attr'', json_docMethod m)]"

record statusReply =
  sr_Status :: int
  sr_Data :: int
  sr_Message :: string

definition status_setters :: "(string \<times> statusReply setter) list" where
  "status_setters =
     [(''Status'', \<lambda>j r. rbind (dec_int j (sr_Status r)) (\<lambda>x. Inr (r\<lparr>sr_Status := x\<rparr>))),
      (''Data'', \<lambda>j r. rbind (dec_int j (sr_Data r)) (\<lambda>x. Inr (r\<lparr>sr_Data := x\<rparr>))),
      (''Message'', \<lambda>j r. rbind (dec_str j (sr_Message r)) (\<lambda>x. Inr (r\<lparr>sr_Message := x\<rparr>)))]"

definition dec_status :: "json \<Rightarrow> statusReply result" where
  "dec_status = dec_struct status_setters \<lparr>sr_Status = 0, sr_Data = 0, sr_Message = []\<rparr>"

definition interfaceRegister ::
  "'w net \<Rightarrow> distributorConfig \<Rightarrow> int \<Rightarrow> int \<Rightarrow> string \<Rightarrow> string \<Rightarrow> string \<Rightarrow> string \<Rightarrow> docMethod \<Rightarrow> ('w, unit) call" where
  "interfaceRegister N cfg projectID version name meth path backend m =
     cbind (PostJSON N (cf_ManagerURL cfg @ ''interface/register/'') []
       (register_json projectID version name meth path backend m) dec_status) (\<lambda>resp.
     if sr_Status resp \<noteq> 0 then craise (Error (ErrText (sr_Message resp))) else creturn ())"

text \<open>A call whose error is dropped; a panic goes on.\<close>

definition drop_err :: "('w, 'a) call \<Rightarrow> ('w, unit) call" where
  "drop_err c w = (case c w of (Inl (Panic p), w') \<Rightarrow> (Inl (Panic p), w') | (_, w') \<Rightarrow> (Inr (), w'))"

fun register_methods_of ::
  "'w net \<Rightarrow> distributorConfig \<Rightarrow> int \<Rightarrow> int \<Rightarrow> string \<Rightarrow> string \<Rightarrow> string \<Rightarrow> (string \<times> docMethod) list \<Rightarrow> ('w, unit) call" where
  "register_methods_of N cfg projectID version backend ok url [] = creturn ()"
| "register_methods_of N cfg projectID version backend ok url ((mk, mv) # ms) =
     cbind (drop_err (interfaceRegister N cfg projectID version (ok @ ''_'' @ mk) mk url backend mv)) (\<lambda>_.
     register_methods_of N cfg projectID version backend ok url ms)"

fun register_modules ::
  "'w net \<Rightarrow> distributorConfig \<Rightarrow> int \<Rightarrow> int \<Rightarrow> string \<Rightarrow> (string \<times> docModule) list \<Rightarrow> ('w, unit) call" where
  "register_modules N cfg projectID version backend [] = creturn ()"
| "register_modules N cfg projectID version backend ((ok, ov) # doc) =
     cbind (register_methods_of N cfg projectID version backend ok (du_URL ov) (du_Methods ov)) (\<lambda>_.
     register_modules N cfg projectID version backend doc)"

definition parse_version :: "string \<Rightarrow> int result" where
  "parse_version s =
     (case parse_int 10 s of (i, ok) \<Rightarrow> if ok then Inr i else Inl (Error (ErrText (''strconv.ParseInt: parsing '' @ s))))"

definition parseDocument :: "'w net \<Rightarrow> distributorConfig \<Rightarrow> string \<Rightarrow> MicroAPP \<Rightarrow> ('w, unit) call" where
  "parseDocument N cfg backend app =
     cbind (client_Get N (''http://'' @ Host app @ '':'' @ show_int (Port app) @ ''/document/'') [] []) (\<lambda>buf.
     cbind (pure_call (unmarshal buf dec_document)) (\<lambda>doc.
     cbind (pure_call (parseProjectID (cf_SecretKey cfg) (ServiceKey app))) (\<lambda>projectID.
     cbind (pure_call (parse_version (GitTime app))) (\<lambda>version.
     register_modules N cfg projectID version backend doc))))"

subsection \<open>The watcher\<close>

record dservice =
  ds_version :: int
  ds_nodes :: "string \<rightharpoonup> MicroAPP"

type_synonym watcher = "string \<rightharpoonup> dservice"

definition newWatcher :: watcher where
  "newWatcher = Map.empty"

definition online :: "'w net \<Rightarrow> distributorConfig \<Rightarrow> string \<Rightarrow> MicroAPP \<Rightarrow> (watcher \<times> 'w, unit) call" where
  "online N cfg backend app st =
     (let ws = fst st;
          sv = (case ws backend of None \<Rightarrow> \<lparr>ds_version = 0, ds_nodes = Map.empty\<rparr> | Some sv \<Rightarrow> sv);
          sv1 = sv\<lparr>ds_nodes := (ds_nodes sv)(Host app \<mapsto> app)\<rparr> in
      if ws backend \<noteq> None \<and> MicroAPP_Version app \<le> ds_version sv then (Inr (), (ws(backend \<mapsto> sv1), snd st))
      else
        (case drop_err (parseDocument N cfg backend app) (snd st) of
           (r, w) \<Rightarrow> (r, (ws(backend \<mapsto> sv1\<lparr>ds_version := MicroAPP_Version app\<rparr>), w))))"

definition offline :: "string \<Rightarrow> string \<Rightarrow> watcher \<Rightarrow> watcher" where
  "offline name host ws =
     (case ws name of
        None \<Rightarrow> ws
      | Some sv \<Rightarrow> ws(name \<mapsto> sv\<lparr>ds_nodes := (ds_nodes sv)(host := None)\<rparr>))"

definition watcher_get :: "string \<Rightarrow> string \<Rightarrow> watcher \<Rightarrow> MicroAPP" where
  "watcher_get name host ws =
     (case ws name of
        None \<Rightarrow> zero_MicroAPP
      | Some sv \<Rightarrow> (case ds_nodes sv host of None \<Rightarrow> zero_MicroAPP | Some a \<Rightarrow> a))"

fun watch_event :: "'w net \<Rightarrow> distributorConfig \<Rightarrow> event \<Rightarrow> (watcher \<times> 'w, unit) call" where
  "watch_event N cfg (DeleteEvent k) st =
     (case parseKey k of
        Inl f \<Rightarrow> (Inl f, st)
      | Inr None \<Rightarrow> (Inr (), st)
      | Inr (Some (name, host, port)) \<Rightarrow> (Inr (), (offline name host (fst st), snd st)))"
| "watch_event N cfg (PutEvent k v) st =
     (case parseKey k of
        Inl f \<Rightarrow> (Inl f, st)
      | Inr None \<Rightarrow> (Inr (), st)
      | Inr (Some (name, host, port)) \<Rightarrow> online N cfg name (Unmarshal_MicroAPP v) st)"

fun watch :: "'w net \<Rightarrow> distributorConfig \<Rightarrow> event list \<Rightarrow> (watcher \<times> 'w, unit) call" where
  "watch N cfg [] = creturn ()"
| "watch N cfg (e # es) = cbind (watch_event N cfg e) (\<lambda>_. watch N cfg es)"

definition watcher_load :: "'w net \<Rightarrow> distributorConfig \<Rightarrow> (string \<times> string) list result \<Rightarrow> (watcher \<times> 'w, unit) call" where
  "watcher_load N cfg listing =
     cbind (pure_call listing) (\<lambda>kvs. watch N cfg (map (\<lambda>(k, v). PutEvent k v) kvs))"

text \<open>The hosts of each service that the watcher knows, and the operations by the key of an instance.\<close>

definition hosts :: "watcher \<times> 'w \<Rightarrow> (string \<times> string) set" where
  "hosts st = {(name, host). \<exists>sv. fst st name = Some sv \<and> ds_nodes sv host \<noteq> None}"

definition host_of :: "string \<times> string \<times> int \<Rightarrow> string \<times> string" where
  "host_of k = (fst k, fst (snd k))"

definition watch_up :: "'w net \<Rightarrow> distributorConfig \<Rightarrow> string \<times> string \<times> int \<Rightarrow> MicroAPP \<Rightarrow> watcher \<times> 'w \<Rightarrow> watcher \<times> 'w" where
  "watch_up N cfg k a st = snd (online N cfg (fst k) a st)"

definition watch_down :: "string \<times> string \<times> int \<Rightarrow> watcher \<times> 'w \<Rightarrow> watcher \<times> 'w" where
  "watch_down k st = (offline (fst k) (fst (snd k)) (fst st), snd st)"

section \<open>Reading a published document\<close>

lemma update_fresh: "k \<notin> fst ` set m \<Longrightarrow> AList.update k v m = m @ [(k, v)]"
  by (induction m) auto

lemma to_lower_doc [simp]:
  "to_lower ''Name'' = ''name''" "to_lower ''Type'' = ''type''" "to_lower ''Required'' = ''required''"
  "to_lower ''Comment'' = ''comment''" "to_lower ''Child'' = ''child''"
  by code_simp+

lemma dec_fields_map:
  assumes "distinct (map fst fm)" "\<And>p. p \<in> set fm \<Longrightarrow> dec_field (enc (snd p)) = Inr (rd (snd p))"
    "fst ` set m \<inter> fst ` set fm = {}"
  shows "dec_fields m (map (\<lambda>p. (fst p, enc (snd p))) fm) = Inr (m @ map (\<lambda>p. (fst p, rd (snd p))) fm)"
  using assms
proof (induction fm arbitrary: m)
  case (Cons p fm)
  then have "fst p \<notin> fst ` set m" by auto
  then show ?case
    using Cons.IH [of "m @ [(fst p, rd (snd p))]"] Cons.prems by (auto simp: update_fresh)
qed simp

lemma dec_map_map:
  assumes "distinct (map fst fm)" "\<And>p. p \<in> set fm \<Longrightarrow> dec (enc (snd p)) = Inr (rd (snd p))"
    "fst ` set m \<inter> fst ` set fm = {}"
  shows "dec_map dec (map (\<lambda>p. (fst p, enc (snd p))) fm) m = Inr (m @ map (\<lambda>p. (fst p, rd (snd p))) fm)"
  using assms
proof (induction fm arbitrary: m)
  case (Cons p fm)
  then have "fst p \<notin> fst ` set m" by auto
  then show ?case
    using Cons.IH [of "m @ [(fst p, rd (snd p))]"] Cons.prems by (auto simp: update_fresh)
qed simp

lemma distinct_sort_key: "distinct (map fst fm) \<Longrightarrow> distinct (map fst (sort_key f fm))"
  by (metis distinct_map distinct_sort set_sort)

lemma dec_json_field: "keyed (fd_Child f) \<Longrightarrow> dec_field (json_field f) = Inr (read_field f)"
proof (induction f rule: json_field.induct)
  case (1 f)
  let ?ch = "sort_key fst (fd_Child f)"
  have "dec_field (json_field (snd p)) = Inr (read_field (snd p))" if "p \<in> set ?ch" "fd_Child f \<noteq> []" for p
    using 1 that keyedD(2) [OF "1.prems", of "fst p" "snd p"] by simp
  then have "dec_fields [] (map (\<lambda>p. (fst p, json_field (snd p))) ?ch) = Inr ([] @ map (\<lambda>p. (fst p, read_field (snd p))) ?ch)"
    if "fd_Child f \<noteq> []"
    using that keyedD(1) [OF "1.prems"] by (intro dec_fields_map distinct_sort_key) auto
  then show ?case
    by (subst json_field.simps, subst read_field.simps) (simp add: zero_docField_def)
qed

lemma dec_json_fields: "keyed fm \<Longrightarrow> dec_field_map None (json_fields fm) = Inr (Some (read_fields fm))"
proof -
  assume k: "keyed fm"
  have "dec_fields [] (map (\<lambda>p. (fst p, json_field (snd p))) (sort_key fst fm)) =
      Inr ([] @ map (\<lambda>p. (fst p, read_field (snd p))) (sort_key fst fm))"
    using keyedD [OF k] by (intro dec_fields_map distinct_sort_key dec_json_field) auto
  then show ?thesis
    by (simp add: dec_field_map_def json_fields_def read_fields_def)
qed

lemma dec_json_method:
  "keyed (me_Request m) \<Longrightarrow> keyed (me_Response m) \<Longrightarrow> dec_method (json_method m) = Inr (read_method m)"
  by (simp add: dec_method_def dec_struct_def json_method_def setter_for_def method_setters_def zero_docMethod_def
      dec_json_fields read_method_def)

lemma dec_json_module:
  assumes "distinct (map fst (mo_Methods md))" "\<forall>q \<in> set (mo_Methods md). keyed (me_Request (snd q)) \<and> keyed (me_Response (snd q))"
  shows "dec_module (json_module md) = Inr (read_module md)"
proof -
  have "dec_map dec_method (map (\<lambda>p. (fst p, json_method (snd p))) (sort_key fst (mo_Methods md))) [] =
      Inr ([] @ map (\<lambda>p. (fst p, read_method (snd p))) (sort_key fst (mo_Methods md)))"
    using assms by (intro dec_map_map distinct_sort_key dec_json_method) auto
  then show ?thesis
    by (simp add: dec_module_def dec_struct_def json_module_def setter_for_def module_setters_def read_module_def)
qed

lemma printed_json_field: "printed (json_field f)"
proof (induction f rule: json_field.induct)
  case (1 f)
  then show ?case
    by (subst json_field.simps) (auto simp: list_all_iff)
qed

lemma printed_document: "printed (JObj (map (\<lambda>p. (fst p, json_module (snd p))) d))"
  by (auto simp: list_all_iff json_module_def json_method_def json_fields_def printed_json_field)

section \<open>The view of the hosts\<close>

lemma hosts_online: "hosts (snd (online N cfg name a st)) = insert (name, Host a) (hosts st)"
  by (auto simp: online_def hosts_def Let_def split: option.splits prod.splits if_splits)

lemma hosts_offline: "hosts (offline name host ws, w) = hosts (ws, w) - {(name, host)}"
  by (auto simp: offline_def hosts_def split: option.splits if_splits)

interpretation wv: instance_view "watch_up N cfg" watch_down host_of hosts "\<lambda>_. True" announces
  by unfold_locales
    (auto simp: watch_up_def watch_down_def host_of_def announces_def hosts_online hosts_offline)

lemma watch_change:
  assumes "sane_key (change_key c)" "\<And>k a. c = Up k a \<Longrightarrow> announces k a"
    and "watch_event N cfg (change_event c) st = (Inr u, st')"
  shows "st' = wv.apply_change N cfg c st"
proof (cases c)
  case (Up k a)
  then obtain n h p where k: "k = (n, h, p)" by (cases k) auto
  with Up assms have "announces (n, h, p) a" "sane_key (n, h, p)" by auto
  moreover from this have "Unmarshal_MicroAPP (MicroAPP_String a) = a"
    by (rule Unmarshal_announced)
  ultimately show ?thesis
    using Up k assms(3) by (simp add: watch_up_def sane_key_def parseKey_apiKey)
next
  case (Down k)
  then obtain n h p where k: "k = (n, h, p)" by (cases k) auto
  with Down assms show ?thesis by (simp add: watch_down_def sane_key_def parseKey_apiKey)
qed

lemma watch_changes:
  assumes "\<forall>c\<in>set cs. sane_key (change_key c) \<and> (\<forall>k a. c = Up k a \<longrightarrow> announces k a)"
    and "watch N cfg (map change_event cs) st = (Inr u, st')"
  shows "st' = fold (wv.apply_change N cfg) cs st"
  using assms
proof (induction cs arbitrary: st)
  case (Cons c cs)
  obtain st1 where st1: "watch_event N cfg (change_event c) st = (Inr (), st1)" "watch N cfg (map change_event cs) st1 = (Inr u, st')"
    using Cons.prems(2) by (auto simp: cbind_eq_Inr)
  then have "st1 = wv.apply_change N cfg c st"
    using Cons.prems(1) by (intro watch_change) auto
  with Cons st1 show ?case by simp
qed simp

section \<open>Properties\<close>

text \<open>C16: What a service publishes is what the distributor reads: the documentation of a service,
  printed by the service library and read back by the distributor, has the same modules, paths,
  methods, comments and fields, at every depth, in the order of their names.\<close>

theorem document_roundtrip:
  assumes "service_ok s"
  shows "unmarshal (document_GET (sv_doc s)) dec_document = Inr (read_document (sv_doc s))"
proof -
  let ?d = "sv_doc s"
  have d: "distinct (map fst ?d)" "\<And>p. p \<in> set ?d \<Longrightarrow> distinct (map fst (mo_Methods (snd p)))"
    "\<And>p q. p \<in> set ?d \<Longrightarrow> q \<in> set (mo_Methods (snd p)) \<Longrightarrow> keyed (me_Request (snd q)) \<and> keyed (me_Response (snd q))"
    using assms by (fastforce simp: service_ok_def doc_ok_def)+
  have "dec_map dec_module (map (\<lambda>p. (fst p, json_module (snd p))) (sort_key fst ?d)) [] =
      Inr ([] @ map (\<lambda>p. (fst p, read_module (snd p))) (sort_key fst ?d))"
    using d by (intro dec_map_map distinct_sort_key dec_json_module) auto
  then show ?thesis
    unfolding document_GET_def unmarshal_show [OF printed_document] by (simp add: dec_document_def read_document_def)
qed

definition sample_document :: document where
  "sample_document =
     [(''Login'', \<lparr>mo_URL = ''/user/Login/'', mo_Methods = [(''Post'', \<lparr>me_Comment = ''log in'',
         me_Request = [(''User'', Field ''user'' ''string'' True [] [] False),
           (''Addr'', Field ''addr'' ''user.Addr'' False [(''City'', Field ''City'' ''string'' False [] [] False)] [] False)],
         me_Response = []\<rparr>)]\<rparr>)]"

theorem document_roundtrip_witness:
  "unmarshal (document_GET sample_document) dec_document =
     Inr [(''Login'', \<lparr>du_URL = ''/user/Login/'', du_Methods = [(''Post'', \<lparr>dm_Comment = ''log in'',
         dm_Request = Some [(''Addr'', DocField ''addr'' ''user.Addr'' False [] (Some [(''City'', DocField ''City'' ''string'' False [] None)])),
           (''User'', DocField ''user'' ''string'' True [] None)],
         dm_Response = Some []\<rparr>)]\<rparr>)]"
proof -
  have "doc_ok sample_document" by code_simp
  then have "service_ok (New\<lparr>sv_doc := sample_document\<rparr>)"
    by (simp add: service_ok_def New_def newHTTPServer_def)
  from document_roundtrip [OF this] have "unmarshal (document_GET sample_document) dec_document = Inr (read_document sample_document)"
    by simp
  also have "read_document sample_document =
      [(''Login'', \<lparr>du_URL = ''/user/Login/'', du_Methods = [(''Post'', \<lparr>dm_Comment = ''log in'',
         dm_Request = Some [(''Addr'', DocField ''addr'' ''user.Addr'' False [] (Some [(''City'', DocField ''City'' ''string'' False [] None)])),
           (''User'', DocField ''user'' ''string'' True [] None)],
         dm_Response = Some []\<rparr>)]\<rparr>)]"
    by code_simp
  finally show ?thesis .
qed

text \<open>C20: The distributor follows the registry: whatever instances come and go, with whatever network
  and answers of the manager, as long as no service runs twice on one host the hosts it knows for a
  service after the events are exactly those of the instances whose keys are alive.\<close>

theorem watcher_mirrors_hosts:
  assumes "\<forall>c\<in>set cs. sane_key (change_key c) \<and> (\<forall>k a. c = Up k a \<longrightarrow> announces k a)"
    and "inj_on host_of (change_key ` set cs)"
    and "watch N cfg (map change_event cs) (newWatcher, w) = (Inr u, st')"
  shows "hosts st' = host_of ` alive {} cs"
proof -
  have valid: "\<forall>c\<in>set cs. wv.valid_change c"
  proof
    fix c
    assume "c \<in> set cs"
    with assms(1) show "wv.valid_change c" by (cases c) auto
  qed
  have "hosts (newWatcher, w) = host_of ` {}"
    by (simp add: hosts_def newWatcher_def)
  from wv.live_changes [OF TrueI this _ valid] show ?thesis
    using assms(2) watch_changes [OF assms(1,3)] by simp
qed

definition dead_net :: "unit net" where
  "dead_net = \<lparr>net_do = (\<lambda>_ _ _ _. craise (Error (ErrText ''connection refused'')))\<rparr>"

lemma watch_dead: "\<exists>st'. watch dead_net cfg es st = (Inr (), st')"
proof (induction es arbitrary: st)
  case (Cons e es)
  have up: "fst (online dead_net cfg name a st) = Inr ()" for name a
    by (simp add: online_def drop_err_def parseDocument_def client_Get_def client_do_def dead_net_def Let_def)
  have "fst (watch_event dead_net cfg e st) = Inr ()"
  proof (cases e)
    case (PutEvent k v)
    then show ?thesis
      using parseKey_no_panic [of k] up by (auto split: option.split)
  next
    case (DeleteEvent k)
    then show ?thesis
      using parseKey_no_panic [of k] by (auto split: option.split)
  qed
  then obtain st1 where "watch_event dead_net cfg e st = (Inr (), st1)"
    by (metis prod.collapse)
  with Cons show ?case by (auto simp: cbind_def)
qed (auto simp: creturn_def)

definition sample_config :: distributorConfig where
  "sample_config = \<lparr>cf_ManagerURL = ''http://m/'', cf_SecretKey = ''0123456789'', cf_ETCDHosts = ''e:2379'',
     cf_BuildPath = ''/b'', cf_Script = ''/s'', cf_SSHKey = ''k''\<rparr>"

definition sample_instance :: "string \<Rightarrow> int \<Rightarrow> MicroAPP" where
  "sample_instance host port = NewMicroAPP host port ''AAAA'' 17 ''h'' ''5'' ''m''"

theorem watcher_mirrors_hosts_witness:
  "\<exists>st. watch dead_net sample_config (map change_event
      [Up (''git/svc'', ''10.0.0.1'', 8080) (sample_instance ''10.0.0.1'' 8080),
       Up (''git/svc'', ''10.0.0.2'', 8080) (sample_instance ''10.0.0.2'' 8080),
       Down (''git/svc'', ''10.0.0.1'', 8080)]) (newWatcher, ()) = (Inr (), st) \<and> hosts st = {(''git/svc'', ''10.0.0.2'')}"
proof -
  let ?cs = "[Up (''git/svc'', ''10.0.0.1'', 8080 :: int) (sample_instance ''10.0.0.1'' 8080),
       Up (''git/svc'', ''10.0.0.2'', 8080) (sample_instance ''10.0.0.2'' 8080), Down (''git/svc'', ''10.0.0.1'', 8080)]"
  obtain st where st: "watch dead_net sample_config (map change_event ?cs) (newWatcher, ()) = (Inr (), st)"
    using watch_dead by blast
  have "\<forall>c\<in>set ?cs. sane_key (change_key c) \<and> (\<forall>k a. c = Up k a \<longrightarrow> announces k a)"
    by (simp add: sane_key_def announces_def sample_instance_def NewMicroAPP_def in_int64_def int64_min_def int64_max_def)
  moreover have "inj_on host_of (change_key ` set ?cs)"
    by (simp add: inj_on_def host_of_def)
  ultimately have "hosts st = host_of ` alive {} ?cs"
    using st by (rule watcher_mirrors_hosts)
  moreover have "alive {} ?cs = {(''git/svc'', ''10.0.0.2'', 8080)}" by auto
  ultimately show ?thesis
    using st by (simp add: host_of_def)
qed

text \<open>C28: Two instances of a service on one host are one entry: when the first of them goes away the
  distributor forgets the host although the other is still registered, and an installation will
  look for process 0.\<close>

theorem watcher_forgets_host:
  assumes "p \<noteq> q" "sane_key (n, h, p)" "sane_key (n, h, q)" "announces (n, h, p) a" "announces (n, h, q) b"
    and "watch N cfg (map change_event [Up (n, h, p) a, Up (n, h, q) b, Down (n, h, p)]) (newWatcher, w) = (Inr u, st')"
  shows "(n, h, q) \<in> alive {} [Up (n, h, p) a, Up (n, h, q) b, Down (n, h, p)] \<and> watcher_get n h (fst st') = zero_MicroAPP"
proof -
  let ?cs = "[Up (n, h, p) a, Up (n, h, q) b, Down (n, h, p)]"
  have "\<forall>c\<in>set ?cs. sane_key (change_key c) \<and> (\<forall>k a. c = Up k a \<longrightarrow> announces k a)"
    using assms(2-5) by simp
  then have "st' = fold (wv.apply_change N cfg) ?cs (newWatcher, w)"
    using assms(6) by (rule watch_changes)
  then have "(n, h) \<notin> hosts st'"
    by (simp add: watch_down_def hosts_offline)
  then have "watcher_get n h (fst st') = zero_MicroAPP"
    by (auto simp: watcher_get_def hosts_def split: option.splits)
  with assms(1) show ?thesis by simp
qed

theorem watcher_forgets_host_witness:
  "\<exists>st. watch dead_net sample_config (map change_event
      [Up (''git/svc'', ''h'', 1) (sample_instance ''h'' 1), Up (''git/svc'', ''h'', 2) (sample_instance ''h'' 2),
       Down (''git/svc'', ''h'', 1)]) (newWatcher, ()) = (Inr (), st) \<and>
     PID (watcher_get ''git/svc'' ''h'' (fst st)) = 0"
proof -
  let ?cs = "[Up (''git/svc'', ''h'', 1 :: int) (sample_instance ''h'' 1), Up (''git/svc'', ''h'', 2) (sample_instance ''h'' 2),
       Down (''git/svc'', ''h'', 1)]"
  obtain st where st: "watch dead_net sample_config (map change_event ?cs) (newWatcher, ()) = (Inr (), st)"
    using watch_dead by blast
  have "sane_key (''git/svc'', ''h'', 1)" "sane_key (''git/svc'', ''h'', 2)"
    "announces (''git/svc'', ''h'', 1) (sample_instance ''h'' 1)" "announces (''git/svc'', ''h'', 2) (sample_instance ''h'' 2)"
    by (simp_all add: sane_key_def announces_def sample_instance_def NewMicroAPP_def in_int64_def int64_min_def int64_max_def)
  from watcher_forgets_host [OF _ this st] show ?thesis
    using st by (auto simp: zero_MicroAPP_def)
qed


definition sample_net :: "unit net" where
  "sample_net = \<lparr>net_do = (\<lambda>_ _ _ _. creturn (200, ''{}''))\<rparr>"


end
