(* ===== verification/Task.thy ===== *)
theory Task
  imports Watcher Orm Router
begin

text \<open>
  A distribution: \<open>task.go\<close>, \<open>project.go\<close>, \<open>distributor.go\<close> and \<open>deploy.go\<close> of \<open>src/distributor\<close>.  A task
  compiles a project and installs it on the nodes of its cluster; the state it reaches is stored in
  the table \<open>distributor\<close>, and the output of its commands in \<open>distributor_logs\<close>.

  The database server, the operating system and the ssh connections are parameters over one world.
  The two goroutines that copy the output of a command only append to the log: their lines come in
  the order in which they were read, before the command is waited for.  A deferred function runs
  after the body, also when the body panics.
\<close>

section \<open>Definitions\<close>

subsection \<open>Tables\<close>

record node =
  nd_ID :: int
  nd_Server :: string
  nd_Ctime :: string

record cluster =
  cl_ID :: int
  cl_Name :: string
  cl_Comment :: string
  cl_Node :: "node list"
  cl_Ctime :: string
  cl_Mtime :: string

record project =
  pj_ID :: int
  pj_Source :: string
  pj_Name :: string
  pj_Cluster :: cluster
  pj_Ctime :: string

definition node_fields :: "ofield list" where
  "node_fields = [OCol ''ID'' KInt [] [], OCol ''Server'' KString [] [], OCol ''Ctime'' KString [] ''now()'']"

definition cluster_fields :: "ofield list" where
  "cluster_fields = [OCol ''ID'' KInt [] [], OCol ''Name'' KString [] [], OCol ''Comment'' KString [] [],
     OMany ''Node'' ''one2more'' node_fields, OCol ''Ctime'' KString [] ''now()'', OCol ''Mtime'' KString [] ''now()'']"

definition project_fields :: "ofield list" where
  "project_fields = [OCol ''ID'' KInt [] [], OCol ''Source'' KString [] [], OCol ''Name'' KString [] [],
     OOne ''Cluster'' cluster_fields, OCol ''Ctime'' KString [] ''now()'']"

definition distributor_fields :: "ofield list" where
  "distributor_fields = [OCol ''ID'' KInt [] [], OCol ''ProjectID'' KInt [] [], OOne ''Project'' project_fields,
     OCol ''State'' KInt [] [], OCol ''Server'' KString [] [], OCol ''CreateTime'' KString [] ''now()'']"

definition distributorLogs_fields :: "ofield list" where
  "distributorLogs_fields = [OCol ''ID'' KInt [] [], OCol ''DistributorID'' KInt [] [], OCol ''State'' KInt [] [],
     OCol ''PID'' KInt [] [], OCol ''INFO'' KString [] [], OCol ''CreateTime'' KString [] ''now()'']"

definition node_of :: "oval list \<Rightarrow> node" where
  "node_of v = \<lparr>nd_ID = oint (v ! 0), nd_Server = ostr (v ! 1), nd_Ctime = ostr (v ! 2)\<rparr>"

definition cluster_of :: "oval list \<Rightarrow> cluster" where
  "cluster_of v = \<lparr>cl_ID = oint (v ! 0), cl_Name = ostr (v ! 1), cl_Comment = ostr (v ! 2), cl_Node = [],
     cl_Ctime = ostr (v ! 4), cl_Mtime = ostr (v ! 5)\<rparr>"

definition project_of :: "oval list \<Rightarrow> project" where
  "project_of v = \<lparr>pj_ID = oint (v ! 0), pj_Source = ostr (v ! 1), pj_Name = ostr (v ! 2),
     pj_Cluster = cluster_of (case v ! 3 of OVOne c \<Rightarrow> c | _ \<Rightarrow> []), pj_Ctime = ostr (v ! 4)\<rparr>"

subsection \<open>The machine\<close>

datatype netaddr = IPNet bool bool string | OtherAddr

text \<open>\<open>LocalAddr\<close>: the first address that is not a loopback one and has a four-byte form.\<close>

fun local_of :: "netaddr list \<Rightarrow> string option" where
  "local_of [] = None"
| "local_of (IPNet loopback four s # as) = (if \<not> loopback \<and> four then Some s else local_of as)"
| "local_of (OtherAddr # as) = local_of as"

definition LocalAddr :: "netaddr list result \<Rightarrow> string result" where
  "LocalAddr addrs =
     (case addrs of
        Inl _ \<Rightarrow> Inl (Panic (PanicText ''InterfaceAddrs''))
      | Inr as \<Rightarrow> (case local_of as of None \<Rightarrow> Inl (Panic (PanicText ''address not found'')) | Some s \<Rightarrow> Inr s))"

record 'w system =
  os_Getwd :: "'w \<Rightarrow> string"
  os_Chdir :: "string \<Rightarrow> ('w, unit) call"
  os_MkdirAll :: "string \<Rightarrow> ('w, unit) call"
  os_Link :: "string \<Rightarrow> string \<Rightarrow> ('w, unit) call"
  os_nano :: "'w \<Rightarrow> int"
  os_addrs :: "'w \<Rightarrow> netaddr list result"
  cmd_Start :: "string \<Rightarrow> ('w, int \<times> string list) call"
  cmd_Wait :: "string \<Rightarrow> ('w, unit) call"
  ssh_NewClient :: "string \<Rightarrow> ('w, unit) call"
  ssh_Upload :: "string \<Rightarrow> string \<Rightarrow> string \<Rightarrow> ('w, unit) call"
  ssh_Start :: "string \<Rightarrow> string \<Rightarrow> ('w, string list) call"
  ssh_Wait :: "string \<Rightarrow> string \<Rightarrow> ('w, unit) call"

subsection \<open>Tasks\<close>

definition stateCompileBegin :: int where "stateCompileBegin = 1"

definition stateComplieSuccess :: int where "stateComplieSuccess = 2"

definition stateComplieFailed :: int where "stateComplieFailed = 3"

definition stateInstallBegin :: int where "stateInstallBegin = 4"

definition stateInstallSuccess :: int where "stateInstallSuccess = 5"

definition stateInstallFailed :: int where "stateInstallFailed = 6"

lemmas state_defs = stateCompileBegin_def stateComplieSuccess_def stateComplieFailed_def stateInstallBegin_def
  stateInstallSuccess_def stateInstallFailed_def

definition sqlWriteLogs :: string where
  "sqlWriteLogs = ''update distributor_logs set info = concat(info, ?) , state = ? where id=?''"

definition sqlUpdateState :: string where
  "sqlUpdateState = ''update distributor set state = ? where id=?''"

definition scripts :: "string list" where
  "scripts = [''build.sh'', ''Dockerfile.tpl'', ''install.sh'']"

record task =
  t_path :: string
  t_project :: project
  t_dID :: int
  t_state :: int
  t_logID :: int

text \<open>A call on the world as a call on the task and the world.\<close>

definition in_world :: "('w, 'a) call \<Rightarrow> (task \<times> 'w, 'a) call" where
  "in_world c st = (case c (snd st) of (r, w) \<Rightarrow> (r, (fst st, w)))"

fun link_scripts :: "'w system \<Rightarrow> distributorConfig \<Rightarrow> string \<Rightarrow> string list \<Rightarrow> ('w, unit) call" where
  "link_scripts S cfg path [] = creturn ()"
| "link_scripts S cfg path (f # fs) =
     cbind (os_Link S (cf_Script cfg @ ''/'' @ f) (path @ ''/'' @ f)) (\<lambda>_. link_scripts S cfg path fs)"

definition newTask :: "'w dbms \<Rightarrow> 'w system \<Rightarrow> distributorConfig \<Rightarrow> int \<Rightarrow> ('w, task) call" where
  "newTask D S cfg projectID =
     cbind (GetConnection D) (\<lambda>_.
     cbind (orm_one D project_fields (Where (''project.id='' @ show_int projectID) (NewStmt ''project''))) (\<lambda>v.
     let p = project_of v in
     cbind (orm_all D node_fields (Where (''cluster_id='' @ show_int (cl_ID (pj_Cluster p))) (NewStmt ''node''))) (\<lambda>ns.
     let p1 = p\<lparr>pj_Cluster := (pj_Cluster p)\<lparr>cl_Node := map node_of ns\<rparr>\<rparr> in
     (\<lambda>w. let path = cf_BuildPath cfg @ ''/'' @ show_int (os_nano S w) in
     cbind (os_MkdirAll S path) (\<lambda>_.
     cbind (link_scripts S cfg path scripts) (\<lambda>_.
     cbind (\<lambda>w. (LocalAddr (os_addrs S w), w)) (\<lambda>server.
     cbind (orm_Insert D distributor_fields (NewStmt ''distributor'')
       [OV (GInt 0), OV (GInt projectID), OVOne [], OV (GInt 0), OV (GStr server), OV (GStr [])]) (\<lambda>did.
     creturn \<lparr>t_path = path, t_project = p1, t_dID = did, t_state = 0, t_logID = 0\<rparr>)))) w))))"

definition updateState :: "'w dbms \<Rightarrow> int \<Rightarrow> task \<times> 'w \<Rightarrow> task \<times> 'w" where
  "updateState D state st =
     (let t = (fst st)\<lparr>t_state := state\<rparr> in
      (t, snd (orm_Exec D sqlUpdateState [SInt state, SInt (t_dID t)] (snd st))))"

fun logStream :: "'w dbms \<Rightarrow> string list \<Rightarrow> task \<times> 'w \<Rightarrow> task \<times> 'w" where
  "logStream D [] st = st"
| "logStream D (l # ls) st =
     logStream D ls (fst st, snd (orm_Exec D sqlWriteLogs
       [SStr (l @ [CHR 0x0A]), SInt (t_state (fst st)), SInt (t_logID (fst st))] (snd st)))"

definition writeLogs :: "'w dbms \<Rightarrow> int \<Rightarrow> string list \<Rightarrow> task \<times> 'w \<Rightarrow> task \<times> 'w" where
  "writeLogs D pid ls st =
     (case orm_Insert D distributorLogs_fields (NewStmt ''distributor_logs'')
        [OV (GInt 0), OV (GInt (t_dID (fst st))), OV (GInt (t_state (fst st))), OV (GInt pid), OV (GStr []), OV (GStr [])] (snd st) of
        (Inl _, w) \<Rightarrow> (fst st, w)
      | (Inr ident, w) \<Rightarrow> logStream D ls ((fst st)\<lparr>t_logID := ident\<rparr>, w))"

definition execSystemCmdWait :: "'w dbms \<Rightarrow> 'w system \<Rightarrow> string \<Rightarrow> (task \<times> 'w, unit) call" where
  "execSystemCmdWait D S cmd =
     cbind (in_world (cmd_Start S cmd)) (\<lambda>(pid, ls) st.
     in_world (cmd_Wait S cmd) (writeLogs D pid ls st))"

definition install_node :: "'w dbms \<Rightarrow> 'w system \<Rightarrow> distributorConfig \<Rightarrow> watcher \<Rightarrow> string \<Rightarrow> string \<Rightarrow> node \<Rightarrow> (task \<times> 'w, unit) call" where
  "install_node D S cfg ws key tarFile n st =
     (let name = pj_Name (t_project (fst st)); server = nd_Server n;
          cmd = ''./install.sh '' @ name @ '' '' @ show_int (PID (watcher_get key server ws)) @ '' '' @ cf_ETCDHosts cfg in
      cbind (in_world (ssh_NewClient S server)) (\<lambda>_.
      cbind (in_world (ssh_Upload S server ''./install.sh'' ''install.sh'')) (\<lambda>_.
      cbind (in_world (ssh_Upload S server tarFile tarFile)) (\<lambda>_.
      cbind (in_world (ssh_Start S server cmd)) (\<lambda>ls st1.
      in_world (ssh_Wait S server cmd) (writeLogs D 0 ls st1))))) st)"

fun install_nodes :: "'w dbms \<Rightarrow> 'w system \<Rightarrow> distributorConfig \<Rightarrow> watcher \<Rightarrow> string \<Rightarrow> string \<Rightarrow> node list \<Rightarrow> (task \<times> 'w, unit) call" where
  "install_nodes D S cfg ws key tarFile [] = creturn ()"
| "install_nodes D S cfg ws key tarFile (n # ns) =
     cbind (install_node D S cfg ws key tarFile n) (\<lambda>_. install_nodes D S cfg ws key tarFile ns)"

text \<open>The body of \<open>install\<close> after the change of directory.  Its errors are in variables of inner scopes,
  which hide the variable the deferred function looks at.\<close>

definition install_body :: "'w dbms \<Rightarrow> 'w system \<Rightarrow> distributorConfig \<Rightarrow> watcher \<Rightarrow> (task \<times> 'w, unit) call" where
  "install_body D S cfg ws st =
     (let p = t_project (fst st); tarFile = pj_Name p @ ''.tar.gz'' in
      cbind (execSystemCmdWait D S (''tar -C bin -czf '' @ tarFile @ '' '' @ pj_Name p)) (\<lambda>_.
      cbind (pure_call (go_slice (pj_Source p) 7 (int (length (pj_Source p))))) (\<lambda>key.
      install_nodes D S cfg ws key tarFile (cl_Node (pj_Cluster p)))) st)"

definition back_to :: "'w system \<Rightarrow> string \<Rightarrow> task \<times> 'w \<Rightarrow> task \<times> 'w" where
  "back_to S oldPath st = (fst st, snd (os_Chdir S oldPath (snd st)))"

definition install :: "'w dbms \<Rightarrow> 'w system \<Rightarrow> distributorConfig \<Rightarrow> watcher \<Rightarrow> (task \<times> 'w, unit) call" where
  "install D S cfg ws st =
     (let st1 = updateState D stateInstallBegin st; oldPath = os_Getwd S (snd st1) in
      case in_world (os_Chdir S (t_path (fst st1))) st1 of
        (Inl f, st2) \<Rightarrow> (Inl f, updateState D stateInstallFailed st2)
      | (Inr _, st2) \<Rightarrow>
          (case install_body D S cfg ws st2 of
             (r, st3) \<Rightarrow> (r, updateState D stateInstallSuccess (back_to S oldPath st3))))"

definition compile :: "'w dbms \<Rightarrow> 'w system \<Rightarrow> distributorConfig \<Rightarrow> (task \<times> 'w, unit) call" where
  "compile D S cfg st =
     (let st1 = updateState D stateCompileBegin st; oldPath = os_Getwd S (snd st1) in
      case in_world (os_Chdir S (t_path (fst st1))) st1 of
        (Inl f, st2) \<Rightarrow> (Inl f, updateState D stateComplieFailed st2)
      | (Inr _, st2) \<Rightarrow>
          (let p = t_project (fst st2) in
           case cbind (pure_call (project_key (cf_SecretKey cfg) (os_nano S (snd st2)) (pj_ID p))) (\<lambda>key.
               execSystemCmdWait D S (''./build.sh '' @ pj_Source p @ '' '' @ key @ '' '' @ pj_Name p)) st2 of
             (r, st3) \<Rightarrow> (r, updateState D
               (case r of Inl (Error _) \<Rightarrow> stateComplieFailed | _ \<Rightarrow> stateComplieSuccess) (back_to S oldPath st3))))"

definition run :: "'w dbms \<Rightarrow> 'w system \<Rightarrow> distributorConfig \<Rightarrow> watcher \<Rightarrow> (task \<times> 'w, unit) call" where
  "run D S cfg ws = cbind (compile D S cfg) (\<lambda>_. install D S cfg ws)"

subsection \<open>Handlers\<close>

text \<open>Both verbs do the same; the task runs after the answer has been sent.\<close>

definition distributor_GET :: "'w dbms \<Rightarrow> 'w system \<Rightarrow> distributorConfig \<Rightarrow> watcher \<Rightarrow> Request \<Rightarrow> 'w \<Rightarrow> int reply \<times> 'w" where
  "distributor_GET D S cfg ws r =
     on_err 400 (pure_call (ParseURLVars r [var ''ProjectID'' KInt ''id'' []])) (\<lambda>vs.
     on_err 400 (newTask D S cfg (int_of vs ''ProjectID'')) (\<lambda>t w.
     (Data (t_dID t), snd (snd (run D S cfg ws (t, w))))))"

definition distributor_POST :: "'w dbms \<Rightarrow> 'w system \<Rightarrow> distributorConfig \<Rightarrow> watcher \<Rightarrow> Request \<Rightarrow> 'w \<Rightarrow> int reply \<times> 'w" where
  "distributor_POST D S cfg ws r = distributor_GET D S cfg ws r"

definition project_GET :: "'w dbms \<Rightarrow> (string \<Rightarrow> ('w, (string \<times> string) list) call) \<Rightarrow> Request \<Rightarrow> 'w \<Rightarrow> (string \<times> string) list reply \<times> 'w" where
  "project_GET D etcd_List r =
     on_err 400 (pure_call (ParseURLVars r [var ''ID'' KInt [] []])) (\<lambda>vs.
     on_err 500 (GetConnection D) (\<lambda>_.
     on_err 500 (orm_one D project_fields (Where (''id='' @ show_int (int_of vs ''ID'')) (NewStmt ''project''))) (\<lambda>v.
     on_err 500 (etcd_List (''/api'' @ pj_Name (project_of v))) (\<lambda>keys.
     answer (Data keys)))))"

subsection \<open>The recorded states\<close>

text \<open>A server that also keeps the states it is told, in order, and the machine beside it.\<close>

definition beside :: "('w, 'a) call \<Rightarrow> ('w \<times> 'l, 'a) call" where
  "beside c = (\<lambda>(w, l). case c w of (r, w') \<Rightarrow> (r, (w', l)))"

definition state_log :: "'w dbms \<Rightarrow> ('w \<times> int list) dbms" where
  "state_log D =
     \<lparr>db_open = (\<lambda>(w, l). case db_open D w of (r, w') \<Rightarrow> (r, (w', l))),
      db_query = (\<lambda>sql arg (w, l). case db_query D sql arg w of (r, w') \<Rightarrow> (r, (w', l))),
      db_exec = (\<lambda>sql arg (w, l). case db_exec D sql arg w of
        (r, w') \<Rightarrow> (r, (w', l @ (if sql = sqlUpdateState then [case arg of SInt x # _ \<Rightarrow> x | _ \<Rightarrow> 0] else []))))\<rparr>"

definition system_beside :: "'w system \<Rightarrow> ('w \<times> 'l) system" where
  "system_beside S =
     \<lparr>os_Getwd = (\<lambda>(w, l). os_Getwd S w), os_Chdir = (\<lambda>p. beside (os_Chdir S p)), os_MkdirAll = (\<lambda>p. beside (os_MkdirAll S p)),
      os_Link = (\<lambda>a b. beside (os_Link S a b)), os_nano = (\<lambda>(w, l). os_nano S w), os_addrs = (\<lambda>(w, l). os_addrs S w),
      cmd_Start = (\<lambda>c. beside (cmd_Start S c)), cmd_Wait = (\<lambda>c. beside (cmd_Wait S c)),
      ssh_NewClient = (\<lambda>h. beside (ssh_NewClient S h)), ssh_Upload = (\<lambda>h a b. beside (ssh_Upload S h a b)),
      ssh_Start = (\<lambda>h c. beside (ssh_Start S h c)), ssh_Wait = (\<lambda>h c. beside (ssh_Wait S h c))\<rparr>"

text \<open>A demonstration: a database that accepts every statement, and a machine whose node cannot be reached.\<close>

definition accepting_db :: "unit dbms" where
  "accepting_db = \<lparr>db_open = (\<lambda>w. (None, w)), db_query = (\<lambda>_ _ w. (Inr [], w)), db_exec = (\<lambda>_ _ w. (Inr (1, 1), w))\<rparr>"

definition cut_off :: "unit system" where
  "cut_off =
     \<lparr>os_Getwd = (\<lambda>_. ''/''), os_Chdir = (\<lambda>_. creturn ()), os_MkdirAll = (\<lambda>_. creturn ()), os_Link = (\<lambda>_ _. creturn ()),
      os_nano = (\<lambda>_. 7), os_addrs = (\<lambda>_. Inr []), cmd_Start = (\<lambda>_. creturn (3, [''ok''])), cmd_Wait = (\<lambda>_. creturn ()),
      ssh_NewClient = (\<lambda>_. craise (Error (ErrText ''refused''))), ssh_Upload = (\<lambda>_ _ _. creturn ()),
      ssh_Start = (\<lambda>_ _. creturn []), ssh_Wait = (\<lambda>_ _. creturn ())\<rparr>"

definition demo_task :: task where
  "demo_task =
     \<lparr>t_path = ''p'',
      t_project = \<lparr>pj_ID = 1, pj_Source = ''http://s'', pj_Name = ''n'',
        pj_Cluster = \<lparr>cl_ID = 1, cl_Name = [], cl_Comment = [], cl_Node = [\<lparr>nd_ID = 1, nd_Server = ''h'', nd_Ctime = []\<rparr>],
          cl_Ctime = [], cl_Mtime = []\<rparr>, pj_Ctime = []\<rparr>,
      t_dID = 1, t_state = 0, t_logID = 0\<rparr>"

definition demo_conf :: distributorConfig where
  "demo_conf = \<lparr>cf_ManagerURL = [], cf_SecretKey = ''k'', cf_ETCDHosts = [], cf_BuildPath = [], cf_Script = [], cf_SSHKey = []\<rparr>"

section \<open>What is recorded\<close>

text \<open>Steps that record no state and keep the state of the task.\<close>

definition quiet :: "task \<times> 'w \<times> int list \<Rightarrow> task \<times> 'w \<times> int list \<Rightarrow> bool" where
  "quiet st st' \<longleftrightarrow> snd (snd st') = snd (snd st) \<and> t_state (fst st') = t_state (fst st)"

definition quiet_call :: "(task \<times> 'w \<times> int list, 'a) call \<Rightarrow> bool" where
  "quiet_call c \<longleftrightarrow> (\<forall>st. quiet st (snd (c st)))"

named_theorems quiet_intros \<open>calls that record no state\<close>

lemma quiet_trans: "quiet a b \<Longrightarrow> quiet b c \<Longrightarrow> quiet a c"
  by (simp add: quiet_def)

lemma quiet_cbind [quiet_intros]:
  assumes "quiet_call c" "\<And>x. quiet_call (f x)"
  shows "quiet_call (cbind c f)"
  unfolding quiet_call_def
proof
  fix st
  have c: "quiet st (snd (c st))" using assms(1) unfolding quiet_call_def by blast
  obtain r st1 where r: "c st = (r, st1)" by (rule prod.exhaust)
  show "quiet st (snd (cbind c f st))"
  proof (cases r)
    case (Inr x)
    have "quiet st1 (snd (f x st1))" using assms(2) unfolding quiet_call_def by blast
    then show ?thesis
      using c quiet_trans by (simp add: cbind_def r Inr)
  qed (use c in \<open>simp add: cbind_def r\<close>)
qed

lemma quiet_simple [quiet_intros]:
  "quiet_call (creturn x)" "quiet_call (craise e)" "quiet_call (pure_call r)" "quiet_call (in_world (beside c))"
  by (auto simp: quiet_call_def quiet_def pure_call_def in_world_def beside_def split: prod.splits)

lemma orm_Exec_log:
  "snd (snd (orm_Exec (state_log D) sql arg w)) =
     snd w @ (if sql = sqlUpdateState then [case arg of SInt x # _ \<Rightarrow> x | _ \<Rightarrow> 0] else [])"
  by (auto simp: orm_Exec_def db_Exec_def state_log_def cbind_def split: prod.splits sum.splits)

lemma other_statements: "sqlWriteLogs \<noteq> sqlUpdateState" "SQLInsert distributorLogs_fields ''distributor_logs'' \<noteq> sqlUpdateState"
  by code_simp+

lemma quiet_logStream: "quiet st (logStream (state_log D) ls st)"
proof (induction ls arbitrary: st)
  case (Cons l ls)
  have "quiet st (fst st, snd (orm_Exec (state_log D) sqlWriteLogs [SStr (l @ [CHR 0x0A]), SInt (t_state (fst st)), SInt (t_logID (fst st))] (snd st)))"
    by (simp add: quiet_def orm_Exec_log other_statements)
  from quiet_trans [OF this Cons.IH] show ?case
    by simp
qed (simp add: quiet_def)

lemma quiet_writeLogs: "quiet st (writeLogs (state_log D) pid ls st)"
proof -
  let ?args = "[OV (GInt 0), OV (GInt (t_dID (fst st))), OV (GInt (t_state (fst st))), OV (GInt pid), OV (GStr []), OV (GStr [])]"
  have "snd (snd (orm_Insert (state_log D) distributorLogs_fields (NewStmt ''distributor_logs'') ?args w)) = snd w" for w
    using other_statements(2)
    by (auto simp: orm_Insert_def cbind_def cret_def db_Exec_def state_log_def NewStmt_def split: prod.splits sum.splits)
  then have "quiet st ((fst st)\<lparr>t_logID := i\<rparr>, snd (orm_Insert (state_log D) distributorLogs_fields (NewStmt ''distributor_logs'') ?args (snd st)))"
    "quiet st (fst st, snd (orm_Insert (state_log D) distributorLogs_fields (NewStmt ''distributor_logs'') ?args (snd st)))" for i
    by (simp_all add: quiet_def)
  then show ?thesis
    unfolding writeLogs_def by (auto split: prod.splits sum.splits intro: quiet_trans [OF _ quiet_logStream])
qed

lemma quiet_logged [quiet_intros]:
  assumes "quiet_call c"
  shows "quiet_call (\<lambda>st. c (writeLogs (state_log D) pid ls st))"
  using assms quiet_writeLogs quiet_trans unfolding quiet_call_def by blast

lemma quiet_exec [quiet_intros]: "quiet_call (execSystemCmdWait (state_log D) (system_beside S) cmd)"
  unfolding execSystemCmdWait_def by (auto simp: system_beside_def intro!: quiet_intros)

lemma quiet_install_body: "quiet_call (install_body (state_log D) (system_beside S) cfg ws)"
proof -
  have node: "quiet_call (install_node (state_log D) (system_beside S) cfg ws key tarFile n)" for key tarFile n
  proof -
    have "quiet_call (\<lambda>st. cbind (in_world (ssh_NewClient (system_beside S) (nd_Server n))) (\<lambda>_.
        cbind (in_world (ssh_Upload (system_beside S) (nd_Server n) ''./install.sh'' ''install.sh'')) (\<lambda>_.
        cbind (in_world (ssh_Upload (system_beside S) (nd_Server n) tarFile tarFile)) (\<lambda>_.
        cbind (in_world (ssh_Start (system_beside S) (nd_Server n) cmd)) (\<lambda>ls st1.
        in_world (ssh_Wait (system_beside S) (nd_Server n) cmd) (writeLogs (state_log D) 0 ls st1))))) st)" for cmd
      by (auto simp: system_beside_def intro!: quiet_intros)
    then show ?thesis
      by (simp add: quiet_call_def install_node_def Let_def)
  qed
  have nodes: "quiet_call (install_nodes (state_log D) (system_beside S) cfg ws key tarFile ns)" for key tarFile ns
    by (induction ns) (simp_all only: install_nodes.simps quiet_simple quiet_cbind node)
  have "quiet_call (\<lambda>st. cbind (execSystemCmdWait (state_log D) (system_beside S) c1) (\<lambda>_.
      cbind (pure_call r) (\<lambda>key. install_nodes (state_log D) (system_beside S) cfg ws key tarFile ns)) st)" for c1 r tarFile ns
    by (auto intro!: quiet_intros nodes)
  then show ?thesis
    by (simp add: quiet_call_def install_body_def Let_def)
qed

lemma updateState_log: "snd (snd (updateState (state_log D) s st)) = snd (snd st) @ [s]"
  by (simp add: updateState_def Let_def orm_Exec_log)

lemma updateState_state: "t_state (fst (updateState D s st)) = s"
  by (simp add: updateState_def Let_def)

lemma back_to_log: "snd (snd (back_to (system_beside S) p st)) = snd (snd st)"
  by (auto simp: back_to_def system_beside_def beside_def split: prod.splits)

lemma chdir_log: "in_world (os_Chdir (system_beside S) p) st = (r, st') \<Longrightarrow> snd (snd st') = snd (snd st)"
  by (auto simp: in_world_def system_beside_def beside_def split: prod.splits)

lemma quiet_log: "quiet_call c \<Longrightarrow> c st = (r, st') \<Longrightarrow> snd (snd st') = snd (snd st)"
  by (metis quiet_call_def quiet_def snd_conv)

lemmas log_simps = updateState_log updateState_state back_to_log

lemma compile_log:
  assumes "compile (state_log D) (system_beside S) cfg st = (r, st')"
  shows "snd (snd st') = snd (snd st) @ [stateCompileBegin, t_state (fst st')] \<and>
    (t_state (fst st') = stateComplieSuccess \<and> (\<forall>e. r \<noteq> Inl (Error e)) \<or> t_state (fst st') = stateComplieFailed \<and> r \<noteq> Inr ())"
proof -
  have "quiet_call (cbind (pure_call k) (\<lambda>key. execSystemCmdWait (state_log D) (system_beside S) (c key)))" for k c
    by (intro quiet_intros)
  note build = quiet_log [OF this]
  show ?thesis
    using assms unfolding compile_def Let_def
    by (auto simp: log_simps split: prod.splits sum.splits fault.splits dest!: build chdir_log)
qed

lemma install_log:
  assumes "install (state_log D) (system_beside S) cfg ws st = (r, st')"
  shows "snd (snd st') = snd (snd st) @ [stateInstallBegin, t_state (fst st')] \<and>
    (t_state (fst st') = stateInstallSuccess \<or> t_state (fst st') = stateInstallFailed \<and> r \<noteq> Inr ())"
  using assms unfolding install_def Let_def
  by (auto simp: log_simps split: prod.splits sum.splits dest!: quiet_log [OF quiet_install_body] chdir_log)

section \<open>Properties\<close>

text \<open>C12: The states a task records in the table \<open>distributor\<close>, in the order of its updates, are one of four
  sequences, whatever the machine, the servers and the database do: compile begin and compile failed; or compile
  begin, compile success, install begin and one of the install outcomes; or, only when the run panics, compile begin
  and success alone.  The last one recorded is the state of the task, and a run that ends without an error has
  recorded the whole successful sequence.\<close>

theorem run_records_states:
  assumes "run (state_log D) (system_beside S) cfg ws (t, (w, [])) = (r, (t', (w', states)))"
  shows "states \<noteq> [] \<and> t_state t' = last states \<and>
    (states = [stateCompileBegin, stateComplieFailed] \<and> r \<noteq> Inr ()
     \<or> states = [stateCompileBegin, stateComplieSuccess] \<and> (\<exists>p. r = Inl (Panic p))
     \<or> states = [stateCompileBegin, stateComplieSuccess, stateInstallBegin, stateInstallFailed] \<and> r \<noteq> Inr ()
     \<or> states = [stateCompileBegin, stateComplieSuccess, stateInstallBegin, stateInstallSuccess])"
proof -
  obtain r1 st1 where c: "compile (state_log D) (system_beside S) cfg (t, (w, [])) = (r1, st1)" by (rule prod.exhaust)
  note compiled = compile_log [OF c]
  show ?thesis
  proof (cases r1)
    case (Inl f)
    then show ?thesis using assms c compiled by (cases f) (auto simp: run_def cbind_def)
  next
    case (Inr u)
    then have "install (state_log D) (system_beside S) cfg ws st1 = (r, (t', (w', states)))"
      using assms c by (simp add: run_def cbind_def)
    from install_log [OF this] compiled Inr show ?thesis by auto
  qed
qed



theorem run_records_states_witness:
  "case run (state_log accepting_db) (system_beside cut_off) demo_conf newWatcher (demo_task, ((), [])) of (r, (t', (w', states))) \<Rightarrow>
     states = [stateCompileBegin, stateComplieSuccess, stateInstallBegin, stateInstallSuccess] \<and> t_state t' = stateInstallSuccess"
proof -
  obtain r t' w' states where
    run: "run (state_log accepting_db) (system_beside cut_off) demo_conf newWatcher (demo_task, ((), [])) = (r, (t', (w', states)))"
    by (metis prod.exhaust)
  have "length (snd (snd (snd (run (state_log accepting_db) (system_beside cut_off) demo_conf newWatcher (demo_task, ((), [])))))) = 4
     \<and> last (snd (snd (snd (run (state_log accepting_db) (system_beside cut_off) demo_conf newWatcher (demo_task, ((), [])))))) = stateInstallSuccess"
    by code_simp
  with run_records_states [OF run] run show ?thesis
    by (auto simp: state_defs)
qed

end
