(* ===== verification/Spec2Isabelle.thy ===== *)
theory Spec2Isabelle
  imports Repeater RbacProps Task
begin

text \<open>
  A verification development for doodle, an API gateway with its management plane.
\<close>

end
